(* ===== verification/Prelude.thy ===== *)
theory Prelude
  imports Main "HOL-Library.Word"
begin

text \<open>
  Types and generic facts shared by every theory of the development: the machine integers of
  the C shim (\<open>jint\<close>, \<open>jlong\<close>, \<open>uint32_t\<close>, \<open>uint64_t\<close>, \<open>size_t\<close>), the C limits the code
  compares with, two named collections of rewrite rules, and lemmas on words and lists.
\<close>

named_theorems frame_simps \<open>which fields an operation leaves unchanged\<close>
named_theorems env_simps \<open>how the JNI primitives act on the environment\<close>

section \<open>Machine integers\<close>

type_synonym byte = "8 word"
type_synonym jint = "32 word"
type_synonym jlong = "64 word"
type_synonym u32 = "32 word"
type_synonym u64 = "64 word"

text \<open>A reference to a Java object; \<^term>\<open>None\<close> of type \<^typ>\<open>nat option\<close> is the NULL reference.\<close>
type_synonym jobject = nat

abbreviation INT_MAX :: int where "INT_MAX \<equiv> 2147483647"
abbreviation UINT32_MAX :: int where "UINT32_MAX \<equiv> 4294967295"
abbreviation LLONG_MAX :: jlong where "LLONG_MAX \<equiv> 0x7FFFFFFFFFFFFFFF"

text \<open>Formatted messages are cut to the 256 byte buffers the code formats them into.\<close>

definition JFLAC_MESSAGE_BUFFER_SIZE :: nat where
  "JFLAC_MESSAGE_BUFFER_SIZE = 256"

definition snprintf_buffer :: "string \<Rightarrow> string" where
  "snprintf_buffer s = take (JFLAC_MESSAGE_BUFFER_SIZE - 1) s"

lemma snprintf_buffer_fits: "length (snprintf_buffer s) < JFLAC_MESSAGE_BUFFER_SIZE"
  by (simp add: snprintf_buffer_def JFLAC_MESSAGE_BUFFER_SIZE_def min_def)

text \<open>Decimal digits, for the \<open>%llu\<close> conversions of the sample-count messages.\<close>

fun decimal_digits :: "nat \<Rightarrow> string" where
  "decimal_digits n =
     (if n < 10 then [char_of (48 + n)] else decimal_digits (n div 10) @ [char_of (48 + n mod 10)])"

declare decimal_digits.simps [simp del]

definition show_u64 :: "u64 \<Rightarrow> string" where
  "show_u64 w = decimal_digits (unat w)"

section \<open>Facts about words\<close>

lemma sint_jlong_bounds:
  fixes w :: jlong
  shows "- 9223372036854775808 \<le> sint w" "sint w \<le> 9223372036854775807"
  using sint_ge [of w] sint_lt [of w] by simp_all

lemma sint_jint_bounds:
  fixes w :: jint
  shows "- 2147483648 \<le> sint w" "sint w \<le> 2147483647"
  using sint_ge [of w] sint_lt [of w] by simp_all

lemma uint_u64_less: "uint (w :: u64) < 18446744073709551616"
  using uint_lt2p [of w] by simp

lemma uint_u32_less: "uint (w :: u32) < 4294967296"
  using uint_lt2p [of w] by simp

lemma unat_u64_less: "unat (w :: u64) < 18446744073709551616"
  using unsigned_less [of w, where ?'a = nat] by simp

lemma unat_u32_less: "unat (w :: u32) < 4294967296"
  using unsigned_less [of w, where ?'a = nat] by simp

lemma sint_nonneg_uint:
  fixes w :: "'a::len word"
  assumes "0 \<le> sint w"
  shows "uint w = sint w"
proof -
  have "sint w < 2 ^ (LENGTH('a) - 1)" by (rule sint_lt)
  also have "\<dots> \<le> 2 ^ LENGTH('a)" by simp
  finally show ?thesis
    using assms by (simp add: uint_sint take_bit_int_eq_self)
qed

lemma sint_nonneg_unat:
  fixes w :: "'a::len word"
  assumes "0 \<le> sint w"
  shows "int (unat w) = sint w"
  using assms by (simp add: sint_nonneg_uint)

end
