(* ===== verification/Flac_Types.thy ===== *)
theory Flac_Types
  imports Prelude
begin

text \<open>
  The libFLAC values the shim handles (\<open>FLAC/format.h\<close>, \<open>FLAC/stream_decoder.h\<close>): stream info,
  decoded frames, metadata blocks as the decoder reports them, statuses and states. The
  constructors and fields are the ones \<open>jflac_jni.c\<close> reads or returns. A decoded frame holds one
  list of samples per channel; the functions here turn it into interleaved PCM, once the way the
  two loops of the write callbacks do it and once as a specification.
\<close>

section \<open>Records and enumerations\<close>

record stream_info =
  si_min_blocksize :: u32
  si_max_blocksize :: u32
  si_min_framesize :: u32
  si_max_framesize :: u32
  si_sample_rate :: u32
  si_channels :: u32
  si_bits_per_sample :: u32
  si_total_samples :: u64
  si_md5sum :: "byte list"

datatype metadata = StreamInfoBlock stream_info | OtherBlock nat

record flac_frame =
  fh_channels :: u32
  fh_blocksize :: u32
  fr_buffer :: "jint list list"

datatype decoder_error_status =
    LOST_SYNC | BAD_HEADER | FRAME_CRC_MISMATCH | UNPARSEABLE_STREAM | BAD_METADATA
  | OUT_OF_BOUNDS | MISSING_FRAME | OTHER_ERROR_STATUS nat

text \<open>The states the shim tests for; every other state of libFLAC is \<open>OTHER_STATE\<close>.\<close>
datatype decoder_state = END_OF_STREAM | END_OF_LINK | ABORTED | OTHER_STATE nat

datatype read_status = READ_CONTINUE | READ_END_OF_STREAM | READ_ABORT
datatype seek_status = SEEK_OK | SEEK_ERROR
datatype tell_status = TELL_OK | TELL_ERROR
datatype length_status = LENGTH_OK | LENGTH_ERROR
datatype write_status = WRITE_CONTINUE | WRITE_ABORT

definition empty_stream_info :: stream_info where
  "empty_stream_info = \<lparr>si_min_blocksize = 0, si_max_blocksize = 0, si_min_framesize = 0,
     si_max_framesize = 0, si_sample_rate = 0, si_channels = 0, si_bits_per_sample = 0,
     si_total_samples = 0, si_md5sum = replicate 16 0\<rparr>"

text \<open>\<open>decoder_error_status_name\<close>: the stable text of an error status.\<close>

fun decoder_error_status_name :: "decoder_error_status \<Rightarrow> string" where
  "decoder_error_status_name LOST_SYNC = ''LOST_SYNC''"
| "decoder_error_status_name BAD_HEADER = ''BAD_HEADER''"
| "decoder_error_status_name FRAME_CRC_MISMATCH = ''FRAME_CRC_MISMATCH''"
| "decoder_error_status_name UNPARSEABLE_STREAM = ''UNPARSEABLE_STREAM''"
| "decoder_error_status_name BAD_METADATA = ''BAD_METADATA''"
| "decoder_error_status_name OUT_OF_BOUNDS = ''OUT_OF_BOUNDS''"
| "decoder_error_status_name MISSING_FRAME = ''MISSING_FRAME''"
| "decoder_error_status_name (OTHER_ERROR_STATUS n) = ''UNKNOWN''"

section \<open>Metadata blocks\<close>

text \<open>
  \<open>FLAC__StreamMetadata\<close>: the type code, the body length and the body, one constructor per member of
  the union. Strings are byte strings without a terminating NUL; the fixed fields of a cue sheet hold
  their NUL padding. The \<open>type\<close> of a track is a bit field of one bit.
\<close>

record seek_point =
  sp_sample_number :: u64
  sp_stream_offset :: u64
  sp_frame_samples :: u32

record picture =
  pic_type :: u32
  pic_mime_type :: string
  pic_description :: string
  pic_width :: u32
  pic_height :: u32
  pic_depth :: u32
  pic_colors :: u32
  pic_data :: "byte list"

record cue_index =
  ix_offset :: u64
  ix_number :: byte

record cue_track =
  tr_offset :: u64
  tr_number :: byte
  tr_isrc :: string
  tr_type :: u32
  tr_pre_emphasis :: u32
  tr_indices :: "cue_index list"

record cue_sheet =
  cue_media_catalog_number :: string
  cue_lead_in :: u64
  cue_is_cd :: bool
  cue_tracks :: "cue_track list"

datatype block_data =
    StreamInfoData stream_info
  | PaddingData
  | ApplicationData "byte list" "byte list"
  | SeekTableData "seek_point list"
  | VorbisCommentData string "string list"
  | CueSheetData cue_sheet
  | PictureData picture
  | UnknownData "byte list"

record flac_block =
  bl_type :: u32
  bl_length :: u32
  bl_data :: block_data

section \<open>Interleaving\<close>

text \<open>
  The nested loops of \<open>decode_write_callback\<close> and \<open>decode_pull_write_callback\<close> store
  \<open>buffer[channel_index][frame_index]\<close> at index \<open>(frame_index * channels) + channel_index\<close>,
  computed in \<open>uint32_t\<close>, of a buffer of \<open>sample_count\<close> entries. The buffer comes from \<open>malloc\<close>;
  the loops start from zeroes here, and \<open>interleave_loop_spec\<close> below shows that every entry is
  overwritten.
\<close>

fun interleave_channels :: "jint list list \<Rightarrow> u32 \<Rightarrow> u32 \<Rightarrow> nat \<Rightarrow> nat \<Rightarrow> jint list \<Rightarrow> jint list" where
  "interleave_channels buf channels frame_index 0 channel_index out = out"
| "interleave_channels buf channels frame_index (Suc n) channel_index out =
     interleave_channels buf channels frame_index n (Suc channel_index)
       (out[unat (frame_index * channels + of_nat channel_index) :=
              buf ! channel_index ! unat frame_index])"

fun interleave_frames :: "jint list list \<Rightarrow> u32 \<Rightarrow> nat \<Rightarrow> nat \<Rightarrow> jint list \<Rightarrow> jint list" where
  "interleave_frames buf channels 0 frame_index out = out"
| "interleave_frames buf channels (Suc n) frame_index out =
     interleave_frames buf channels n (Suc frame_index)
       (interleave_channels buf channels (of_nat frame_index) (unat channels) 0 out)"

definition interleave_loop :: "jint list list \<Rightarrow> u32 \<Rightarrow> u32 \<Rightarrow> jint list" where
  "interleave_loop buf channels frames =
     interleave_frames buf channels (unat frames) 0 (replicate (unat channels * unat frames) 0)"

text \<open>
  The specification works on rows: a row is one sample frame, that is one sample per channel, and
  the interleaved PCM of a block is the concatenation of its rows.
\<close>

definition row :: "jint list list \<Rightarrow> nat \<Rightarrow> nat \<Rightarrow> jint list" where
  "row buf channels i = map (\<lambda>c. buf ! c ! i) [0..<channels]"

definition rows :: "jint list list \<Rightarrow> nat \<Rightarrow> nat \<Rightarrow> jint list list" where
  "rows buf channels frames = map (row buf channels) [0..<frames]"

definition frame_rows :: "flac_frame \<Rightarrow> jint list list" where
  "frame_rows fr = rows (fr_buffer fr) (unat (fh_channels fr)) (unat (fh_blocksize fr))"

lemma length_row [simp]: "length (row buf channels i) = channels"
  by (simp add: row_def)

lemma length_rows [simp]: "length (rows buf channels frames) = frames"
  by (simp add: rows_def)

lemma length_frame_rows [simp]: "length (frame_rows fr) = unat (fh_blocksize fr)"
  by (simp add: frame_rows_def)

lemma take_rows: "n \<le> frames \<Longrightarrow> take n (rows buf channels frames) = rows buf channels n"
  by (simp add: rows_def take_map)

lemma length_concat_rows: "length (concat (rows buf channels frames)) = frames * channels"
  by (simp add: rows_def length_concat comp_def sum_list_triv)

lemma rows_Suc: "rows buf channels (Suc n) = rows buf channels n @ [row buf channels n]"
  by (simp add: rows_def)

lemma unat_index:
  fixes f c :: nat and ch :: u32
  assumes "f * unat ch + c < 4294967296" "f < 4294967296"
  shows "unat (of_nat f * ch + of_nat c) = f * unat ch + c"
proof -
  have "of_nat f * ch + of_nat c = (of_nat (f * unat ch + c) :: u32)"
    by simp
  then show ?thesis
    using assms by (simp only: unat_of_nat) simp
qed

lemma interleave_channels_spec:
  assumes "length pre = f * unat ch + c" "length mid = n"
    "f * unat ch + c + n \<le> 4294967295" "f < 4294967296"
  shows "interleave_channels buf ch (of_nat f) n c (pre @ mid @ post)
    = pre @ map (\<lambda>k. buf ! k ! f) [c..<c + n] @ post"
  using assms
proof (induction n arbitrary: c pre mid)
  case 0
  then show ?case by simp
next
  case (Suc n)
  then obtain m mid' where mid: "mid = m # mid'" "length mid' = n"
    by (cases mid) auto
  let ?v = "buf ! c ! f"
  have idx: "unat (of_nat f * ch + of_nat c) = length pre"
    using Suc.prems by (simp add: unat_index)
  have f: "unat (of_nat f :: u32) = f"
    using Suc.prems(4) by (simp add: unat_of_nat)
  have "interleave_channels buf ch (of_nat f) (Suc n) c (pre @ mid @ post)
      = interleave_channels buf ch (of_nat f) n (Suc c) ((pre @ [?v]) @ mid' @ post)"
    by (simp add: idx f mid(1))
  also have "\<dots> = (pre @ [?v]) @ map (\<lambda>k. buf ! k ! f) [Suc c..<Suc c + n] @ post"
    using Suc.prems mid by (intro Suc.IH) auto
  also have "\<dots> = pre @ map (\<lambda>k. buf ! k ! f) [c..<c + Suc n] @ post"
    using upt_conv_Cons [of c "c + Suc n"] by (simp del: upt_Suc)
  finally show ?case .
qed

lemma interleave_frames_spec:
  assumes "length mid = n * unat ch" "f + n < 4294967296" "(f + n) * unat ch \<le> 4294967295"
  shows "interleave_frames buf ch n f (concat (rows buf (unat ch) f) @ mid)
    = concat (rows buf (unat ch) (f + n))"
  using assms
proof (induction n arbitrary: f mid)
  case 0
  then show ?case by simp
next
  case (Suc n)
  let ?ch = "unat ch"
  have len: "length (take ?ch mid) = ?ch" "length (drop ?ch mid) = n * ?ch"
    using Suc.prems(1) by (auto simp: algebra_simps)
  have "f * ?ch + ?ch \<le> (f + Suc n) * ?ch"
    by (simp add: algebra_simps)
  with Suc.prems(3) have bound: "f * ?ch + ?ch \<le> 4294967295" by linarith
  have "interleave_channels buf ch (of_nat f) ?ch 0 (concat (rows buf ?ch f) @ mid)
     = interleave_channels buf ch (of_nat f) ?ch 0
         (concat (rows buf ?ch f) @ take ?ch mid @ drop ?ch mid)"
    by simp
  also have "\<dots> = concat (rows buf ?ch f) @ map (\<lambda>k. buf ! k ! f) [0..<0 + ?ch] @ drop ?ch mid"
    using len bound Suc.prems by (intro interleave_channels_spec) (auto simp: length_concat_rows)
  also have "\<dots> = concat (rows buf ?ch (Suc f)) @ drop ?ch mid"
    by (simp add: rows_Suc row_def)
  finally have step: "interleave_channels buf ch (of_nat f) ?ch 0 (concat (rows buf ?ch f) @ mid)
     = concat (rows buf ?ch (Suc f)) @ drop ?ch mid" .
  have "interleave_frames buf ch n (Suc f) (concat (rows buf ?ch (Suc f)) @ drop ?ch mid)
      = concat (rows buf ?ch (Suc f + n))"
    using Suc.prems len by (intro Suc.IH) auto
  then show ?case by (simp add: step)
qed

lemma interleave_loop_rows:
  assumes "unat ch * unat frames \<le> 4294967295"
  shows "interleave_loop buf ch frames = concat (rows buf (unat ch) (unat frames))"
proof -
  have "interleave_frames buf ch (unat frames) 0
      (concat (rows buf (unat ch) 0) @ replicate (unat ch * unat frames) 0)
    = concat (rows buf (unat ch) (0 + unat frames))"
    using assms unat_u32_less [of frames]
    by (intro interleave_frames_spec) (auto simp: algebra_simps)
  then show ?thesis by (simp add: interleave_loop_def rows_def)
qed


end
