(* ===== verification/Platform_Posix.thy ===== *)
theory Platform_Posix
  imports Prelude
begin

text \<open>
  The POSIX side of the platform layer (\<open>jflac_platform_posix.c\<close>): the once primitive and the
  dynamic loading of the library beside the shim. The dynamic loader (\<open>dladdr\<close>, \<open>dlopen\<close>, \<open>dlsym\<close>,
  \<open>dlclose\<close>) is a parameter; \<open>loader_refs\<close> is a history variable, the number of references the
  process holds on handles it opened. A message is the text left in an error buffer of 256 bytes.
\<close>

section \<open>The loader and the module\<close>

record posix_loader =
  dladdr :: "string option"
  dl_malloc :: bool
  dlopen :: "string \<Rightarrow> nat option"
  dlopen_error :: "string \<Rightarrow> string option"
  dlsym :: "nat \<Rightarrow> string \<Rightarrow> nat"
  dlsym_error :: "nat \<Rightarrow> string \<Rightarrow> string option"
  dlclose :: "nat \<Rightarrow> bool"

record jflac_module =
  module_handle :: "nat option"
  owns_handle :: bool

definition empty_module :: jflac_module where
  "empty_module = \<lparr>module_handle = None, owns_handle = False\<rparr>"

datatype 'a result = Failed string | Done 'a

section \<open>Once\<close>

text \<open>\<open>jflac_call_once\<close>: the initialiser runs under the lock if the guard is not complete.\<close>

definition jflac_call_once :: "bool \<Rightarrow> ('s \<Rightarrow> 's) \<Rightarrow> 's \<Rightarrow> bool \<times> 's" where
  "jflac_call_once complete initialiser s =
     (if \<not> complete then (True, initialiser s) else (complete, s))"

section \<open>Opening, closing, resolving\<close>

text \<open>\<open>strrchr\<close>, and \<open>wcsrchr\<close> on wide characters: the index of the last occurrence.\<close>

fun strrchr_from :: "nat option \<Rightarrow> nat \<Rightarrow> 'a list \<Rightarrow> 'a \<Rightarrow> nat option" where
  "strrchr_from found i [] c = found"
| "strrchr_from found i (x # xs) c =
     strrchr_from (if x = c then Some i else found) (Suc i) xs c"

definition strrchr :: "'a list \<Rightarrow> 'a \<Rightarrow> nat option" where
  "strrchr s c = strrchr_from None 0 s c"

definition jflac_open_sibling_library ::
  "posix_loader \<Rightarrow> string option \<Rightarrow> jflac_module option \<Rightarrow> nat \<Rightarrow> jflac_module result \<times> nat" where
  "jflac_open_sibling_library L library_filename module refs =
     (case module of
        None \<Rightarrow> (Failed ''The destination module must not be null.'', refs)
      | Some m \<Rightarrow>
          if module_handle m \<noteq> None \<or> owns_handle m
          then (Failed ''The destination module already contains a library handle.'', refs)
          else
            (case library_filename of
               None \<Rightarrow> (Failed ''The bundled library filename must not be null.'', refs)
             | Some filename \<Rightarrow>
                 (case dladdr L of
                    None \<Rightarrow> (Failed ''Unable to locate the loaded JNI shim.'', refs)
                  | Some shim_path \<Rightarrow>
                      (case strrchr shim_path (CHR ''/'') of
                         None \<Rightarrow> (Failed
                           ''The JNI shim path does not contain a parent directory.'', refs)
                       | Some separator \<Rightarrow>
                           if \<not> dl_malloc L
                           then (Failed ''Unable to allocate the bundled library path.'', refs)
                           else
                             let sibling_path = take (separator + 1) shim_path @ filename
                             in (case dlopen L sibling_path of
                                   None \<Rightarrow> (Failed (snprintf_buffer
                                     (''Unable to load the bundled libFLAC runtime beside the JNI shim: '' @
                                      (case dlopen_error L sibling_path of
                                         Some err \<Rightarrow> err
                                       | None \<Rightarrow> ''unknown dynamic-loader error''))), refs)
                                 | Some loaded \<Rightarrow>
                                     (Done (m\<lparr>module_handle := Some loaded, owns_handle := True\<rparr>),
                                      refs + 1))))))"

definition jflac_close_library ::
  "posix_loader \<Rightarrow> jflac_module option \<Rightarrow> nat \<Rightarrow> bool \<times> jflac_module option \<times> nat" where
  "jflac_close_library L module refs =
     (case module of
        None \<Rightarrow> (True, None, refs)
      | Some m \<Rightarrow>
          (case (if owns_handle m then module_handle m else None) of
             None \<Rightarrow> (True, Some (m\<lparr>module_handle := None, owns_handle := False\<rparr>), refs)
           | Some handle \<Rightarrow>
               if \<not> dlclose L handle then (False, Some m, refs)
               else (True, Some (m\<lparr>module_handle := None, owns_handle := False\<rparr>), refs - 1)))"

text \<open>The result is the address copied into the target; a pointer has eight bytes.\<close>

definition jflac_resolve_symbol ::
  "posix_loader \<Rightarrow> jflac_module \<Rightarrow> string \<Rightarrow> nat \<Rightarrow> nat result" where
  "jflac_resolve_symbol L m symbol_name slot_size =
     (let handle = (case module_handle m of Some h \<Rightarrow> h | None \<Rightarrow> 0)
      in case dlsym_error L handle symbol_name of
           Some lookup_error \<Rightarrow> Failed (snprintf_buffer
             (''Missing symbol in the bundled libFLAC runtime: '' @ symbol_name @ '' ('' @
              lookup_error @ '')''))
         | None \<Rightarrow>
             if slot_size \<noteq> 8
             then Failed (snprintf_buffer (''Cannot represent the libFLAC symbol pointer for '' @
                    symbol_name @ '' on this platform.''))
             else Done (dlsym L handle symbol_name))"

section \<open>Facts\<close>

lemma strrchr_from_spec:
  assumes "strrchr_from found i s c = Some k"
  shows "(found = Some k \<and> c \<notin> set s) \<or>
    (\<exists>xs ys. s = xs @ c # ys \<and> c \<notin> set ys \<and> k = i + length xs)"
  using assms
proof (induction s arbitrary: found i)
  case (Cons x xs)
  from Cons.prems have "strrchr_from (if x = c then Some i else found) (Suc i) xs c = Some k"
    by simp
  then consider "(if x = c then Some i else found) = Some k" "c \<notin> set xs"
    | us vs where "xs = us @ c # vs" "c \<notin> set vs" "k = Suc i + length us"
    using Cons.IH by blast
  then show ?case
  proof cases
    case 1
    then show ?thesis by (cases "x = c") (auto intro!: exI [of _ "[]"])
  next
    case 2
    then show ?thesis by (intro disjI2 exI [of _ "x # us"] exI [of _ vs]) auto
  qed
qed simp

lemma strrchr_spec:
  assumes "strrchr s c = Some k"
  obtains xs ys where "s = xs @ c # ys" "c \<notin> set ys" "k = length xs"
  using strrchr_from_spec [OF assms [unfolded strrchr_def]] by auto

lemma strrchr_from_None: "strrchr_from found i s c = None \<Longrightarrow> found = None \<and> c \<notin> set s"
proof (induction s arbitrary: found i)
  case (Cons x xs)
  then have "(if x = c then Some i else found) = None \<and> c \<notin> set xs" by simp
  then show ?case by (auto split: if_splits)
qed simp

lemma strrchr_None: "strrchr s c = None \<Longrightarrow> c \<notin> set s"
  unfolding strrchr_def by (drule strrchr_from_None) simp

text \<open>What a successful open leaves: an owned handle, and one more reference.\<close>

lemma open_sibling_library_cases:
  assumes "jflac_open_sibling_library L f (Some m) refs = (r, refs')"
  shows "(\<exists>msg. r = Failed msg \<and> refs' = refs) \<or>
    (\<exists>h. r = Done \<lparr>module_handle = Some h, owns_handle = True\<rparr> \<and> refs' = refs + 1)"
  using assms
  by (cases m) (auto simp: jflac_open_sibling_library_def Let_def
      split: option.splits if_splits)

text \<open>Closing an owned module either drops its reference or keeps the module as it is.\<close>

lemma close_library_owned:
  assumes "jflac_close_library L (Some \<lparr>module_handle = Some h, owns_handle = True\<rparr>) refs = (ok, m, refs')"
  shows "if ok then m = Some empty_module \<and> refs' = refs - 1
    else m = Some \<lparr>module_handle = Some h, owns_handle = True\<rparr> \<and> refs' = refs"
  using assms by (auto simp: jflac_close_library_def empty_module_def split: if_splits)

end
