(* ===== verification/Jvm.thy ===== *)
theory Jvm
  imports Flac_Types Platform_Posix
begin

text \<open>
  The Java side of the shim. A call into Java (a consumer callback, a stream or channel method, a
  JNI lookup or an allocation) is a \<open>jcall\<close>; what Java answers is a parameter of the model, a
  record of functions from the history of calls (the new call first) to the answer, so that every
  Java program, also one with state, is one such parameter. The environment \<open>jenv\<close> holds the
  pending exception, the history, the global references alive, the numbers of libFLAC decoders and
  encoders alive, the metadata objects alive with their contents and the resolver state. \<open>lost\<close> and \<open>decoded\<close> are history variables: exceptions replaced by a later one while still
  pending, and the frames whose write callback returned CONTINUE.

  JNI local references are not modelled. The classes of the shim's own exceptions are assumed to
  be found, so a \<open>throw\<close> helper always leaves its exception pending.
\<close>

section \<open>Calls, exceptions and the environment\<close>

datatype jthrowable =
    NativeLoadException string
  | FlacDecodeException string
  | FlacEncodeException string
  | FlacMetadataEditException string
  | IllegalArgumentException string
  | IllegalStateException string
  | UnsupportedFeatureException string
  | ArrayIndexOutOfBoundsException
  | NullPointerException
  | JavaThrowable nat

datatype jcall =
    Jni string
  | GetObjectClass jobject
  | GetMethodID string
  | NewGlobalRef jobject
  | NewIntArray u64
  | NewByteArray u64
  | NewDirectByteBuffer u64
  | Malloc u64
  | OnStreamInfo stream_info
  | OnPcmInterleaved "jint list" jint
  | OnComplete
  | StreamRead jint
  | ChannelRead u64
  | ChannelPosition
  | ChannelSeek jlong
  | ChannelSize
  | OutputWrite "byte list"
  | OutputFlush
  | ChannelWrite "byte list"

record jvm =
  jv_throws :: "jcall list \<Rightarrow> jthrowable option"
  jv_alloc :: "jcall list \<Rightarrow> bool"
  jv_int :: "jcall list \<Rightarrow> jint"
  jv_long :: "jcall list \<Rightarrow> jlong"
  jv_bytes :: "jcall list \<Rightarrow> byte list"
  jv_loader :: posix_loader
  jv_flac_filename :: string
  jv_expected_version :: string
  jv_flac_version :: "string option"
  jv_flac_supports_ogg :: bool

text \<open>
  The process-wide resolver state (\<open>g_flac_api\<close> as the table of resolved symbols, \<open>g_flac_module\<close>,
  \<open>g_flac_init_once\<close>, \<open>g_flac_init_error\<close>, \<open>g_flac_api_initialized\<close>).
\<close>

record native_state =
  api_table :: "(string \<times> nat) list"
  api_module :: jflac_module
  api_once :: bool
  api_init_error :: string
  api_initialized :: bool
  loader_refs :: nat

definition initial_native :: native_state where
  "initial_native = \<lparr>api_table = [], api_module = empty_module, api_once = False,
     api_init_error = [], api_initialized = False, loader_refs = 0\<rparr>"

record jenv =
  pending :: "jthrowable option"
  lost :: "jthrowable list"
  calls :: "jcall list"
  global_refs :: "jobject list"
  live_decoders :: int
  live_encoders :: int
  live_blocks :: "nat list"
  block_at :: "nat \<Rightarrow> flac_block"
  decoded :: "flac_frame list"
  native :: native_state

definition initial_env :: jenv where
  "initial_env = \<lparr>pending = None, lost = [], calls = [], global_refs = [], live_decoders = 0,
     live_encoders = 0, live_blocks = [],
     block_at = (\<lambda>_. \<lparr>bl_type = 0, bl_length = 0, bl_data = PaddingData\<rparr>),
     decoded = [], native = initial_native\<rparr>"

definition exception_check :: "jenv \<Rightarrow> bool" where
  "exception_check e \<longleftrightarrow> pending e \<noteq> None"

section \<open>JNI primitives\<close>

text \<open>Making an exception pending; one that was pending before is replaced.\<close>

definition raise :: "jthrowable \<Rightarrow> jenv \<Rightarrow> jenv" where
  "raise x e = e\<lparr>pending := Some x,
     lost := (case pending e of None \<Rightarrow> lost e | Some y \<Rightarrow> y # lost e)\<rparr>"

text \<open>The \<open>throw_*\<close> helpers of \<open>jflac_jni.c\<close>.\<close>

definition throw_decode_exception :: "string \<Rightarrow> jenv \<Rightarrow> jenv" where
  "throw_decode_exception message e = raise (FlacDecodeException message) e"

definition throw_encode_exception :: "string \<Rightarrow> jenv \<Rightarrow> jenv" where
  "throw_encode_exception message e = raise (FlacEncodeException message) e"

definition throw_metadata_edit_exception :: "string \<Rightarrow> jenv \<Rightarrow> jenv" where
  "throw_metadata_edit_exception message e = raise (FlacMetadataEditException message) e"

definition throw_unsupported_feature_exception :: "string \<Rightarrow> jenv \<Rightarrow> jenv" where
  "throw_unsupported_feature_exception message e = raise (UnsupportedFeatureException message) e"

definition throw_illegal_argument_exception :: "string \<Rightarrow> jenv \<Rightarrow> jenv" where
  "throw_illegal_argument_exception message e = raise (IllegalArgumentException message) e"

definition throw_illegal_state_exception :: "string \<Rightarrow> jenv \<Rightarrow> jenv" where
  "throw_illegal_state_exception message e = raise (IllegalStateException message) e"

text \<open>A call into Java: it is recorded, and its exception, if any, becomes pending.\<close>

definition java_call :: "jvm \<Rightarrow> jcall \<Rightarrow> jenv \<Rightarrow> jenv" where
  "java_call J c e =
     (let e1 = e\<lparr>calls := c # calls e\<rparr>
      in case jv_throws J (c # calls e) of None \<Rightarrow> e1 | Some x \<Rightarrow> raise x e1)"

text \<open>A call whose NULL result always comes with an exception: a lookup or a Java allocation.\<close>

definition java_try :: "jvm \<Rightarrow> jcall \<Rightarrow> jenv \<Rightarrow> bool \<times> jenv" where
  "java_try J c e = (jv_throws J (c # calls e) = None, java_call J c e)"

text \<open>Several of them in a row, up to the first that fails.\<close>

fun java_seq :: "jvm \<Rightarrow> jcall list \<Rightarrow> jenv \<Rightarrow> bool \<times> jenv" where
  "java_seq J [] e = (True, e)"
| "java_seq J (c # cs) e =
     (let (ok, e1) = java_try J c e in if ok then java_seq J cs e1 else (False, e1))"

definition call_int :: "jvm \<Rightarrow> jcall \<Rightarrow> jenv \<Rightarrow> jint \<times> jenv" where
  "call_int J c e = (jv_int J (c # calls e), java_call J c e)"

definition call_long :: "jvm \<Rightarrow> jcall \<Rightarrow> jenv \<Rightarrow> jlong \<times> jenv" where
  "call_long J c e = (jv_long J (c # calls e), java_call J c e)"

text \<open>A call that can fail without an exception: \<open>malloc\<close>, \<open>calloc\<close>, \<open>GetObjectClass\<close>.\<close>

definition plain_alloc :: "jvm \<Rightarrow> jcall \<Rightarrow> jenv \<Rightarrow> bool \<times> jenv" where
  "plain_alloc J c e = (jv_alloc J (c # calls e), e\<lparr>calls := c # calls e\<rparr>)"

text \<open>\<open>NewDirectByteBuffer\<close> returns NULL after an exception or when buffers are unsupported.\<close>

definition new_direct_byte_buffer :: "jvm \<Rightarrow> u64 \<Rightarrow> jenv \<Rightarrow> bool \<times> jenv" where
  "new_direct_byte_buffer J n e =
     (let c = NewDirectByteBuffer n
      in (jv_alloc J (c # calls e) \<and> jv_throws J (c # calls e) = None, java_call J c e))"

definition new_global_ref :: "jvm \<Rightarrow> jobject \<Rightarrow> jenv \<Rightarrow> jobject option \<times> jenv" where
  "new_global_ref J obj e =
     (let (ok, e1) = plain_alloc J (NewGlobalRef obj) e in
        if ok then (Some obj, e1\<lparr>global_refs := obj # global_refs e1\<rparr>) else (None, e1))"

definition delete_global_ref :: "jobject \<Rightarrow> jenv \<Rightarrow> jenv" where
  "delete_global_ref obj e = e\<lparr>global_refs := remove1 obj (global_refs e)\<rparr>"

section \<open>How the primitives act on the environment\<close>

lemma exception_check_raise [simp]: "exception_check (raise x e)"
  by (simp add: exception_check_def raise_def)

lemma raise_fields [env_simps]:
  "pending (raise x e) = Some x" "calls (raise x e) = calls e"
  "global_refs (raise x e) = global_refs e" "live_decoders (raise x e) = live_decoders e"
  "decoded (raise x e) = decoded e" "live_encoders (raise x e) = live_encoders e"
  "live_blocks (raise x e) = live_blocks e" "native (raise x e) = native e"
  "\<not> exception_check e \<Longrightarrow> lost (raise x e) = lost e"
  by (simp_all add: raise_def exception_check_def split: option.splits)

lemmas throw_defs = throw_decode_exception_def throw_encode_exception_def
  throw_metadata_edit_exception_def throw_unsupported_feature_exception_def
  throw_illegal_argument_exception_def throw_illegal_state_exception_def

lemma java_call_fields [env_simps]:
  "calls (java_call J c e) = c # calls e"
  "global_refs (java_call J c e) = global_refs e"
  "live_decoders (java_call J c e) = live_decoders e"
  "decoded (java_call J c e) = decoded e"
  "live_encoders (java_call J c e) = live_encoders e"
  "live_blocks (java_call J c e) = live_blocks e"
  "native (java_call J c e) = native e"
  "\<not> exception_check e \<Longrightarrow> lost (java_call J c e) = lost e"
  by (simp_all add: java_call_def raise_def exception_check_def Let_def split: option.splits)

lemma exception_check_java_call:
  "exception_check (java_call J c e) \<longleftrightarrow> exception_check e \<or> jv_throws J (c # calls e) \<noteq> None"
  by (auto simp: java_call_def exception_check_def raise_def Let_def split: option.splits)

lemma plain_alloc_fields [env_simps]:
  "calls (snd (plain_alloc J c e)) = c # calls e"
  "pending (snd (plain_alloc J c e)) = pending e"
  "lost (snd (plain_alloc J c e)) = lost e"
  "global_refs (snd (plain_alloc J c e)) = global_refs e"
  "live_decoders (snd (plain_alloc J c e)) = live_decoders e"
  "decoded (snd (plain_alloc J c e)) = decoded e"
  "live_encoders (snd (plain_alloc J c e)) = live_encoders e"
  "live_blocks (snd (plain_alloc J c e)) = live_blocks e"
  "native (snd (plain_alloc J c e)) = native e"
  by (simp_all add: plain_alloc_def)

lemma exception_check_plain_alloc [simp]:
  "exception_check (snd (plain_alloc J c e)) = exception_check e"
  by (simp add: exception_check_def plain_alloc_def)

lemma java_try_fields [env_simps]:
  "snd (java_try J c e) = java_call J c e"
  "fst (java_try J c e) \<longleftrightarrow> jv_throws J (c # calls e) = None"
  by (simp_all add: java_try_def)

text \<open>Resources a Java call can neither create nor release.\<close>

definition same_resources :: "jenv \<Rightarrow> jenv \<Rightarrow> bool" where
  "same_resources e e' \<longleftrightarrow>
     global_refs e' = global_refs e \<and> live_decoders e' = live_decoders e \<and>
     live_encoders e' = live_encoders e \<and> live_blocks e' = live_blocks e"

lemma same_resources_refl [simp, intro]: "same_resources e e"
  by (simp add: same_resources_def)

lemma same_resources_trans [trans]:
  "same_resources e1 e2 \<Longrightarrow> same_resources e2 e3 \<Longrightarrow> same_resources e1 e3"
  by (simp add: same_resources_def)

lemma same_resources_raise [simp]: "same_resources e (raise x e1) \<longleftrightarrow> same_resources e e1"
  by (simp add: same_resources_def env_simps)

lemma same_resources_java_call [simp]:
  "same_resources e (java_call J c e1) \<longleftrightarrow> same_resources e e1"
  by (simp add: same_resources_def env_simps)

lemma same_resources_plain_alloc [simp]:
  "same_resources e (snd (plain_alloc J c e1)) \<longleftrightarrow> same_resources e e1"
  by (simp add: same_resources_def env_simps)

lemma same_resources_java_seq: "same_resources e (snd (java_seq J cs e))"
proof (induction cs arbitrary: e)
  case Nil
  then show ?case by simp
next
  case (Cons c cs)
  have "same_resources e (java_call J c e)" by simp
  then have "same_resources e (snd (java_seq J cs (java_call J c e)))"
    using Cons.IH by (rule same_resources_trans)
  then show ?case by (simp add: java_try_def)
qed

section \<open>A sample\<close>

text \<open>
  A Java side that never throws, with a dynamic loader that finds the library but misses one symbol
  and refuses to unload.
\<close>

definition sample_loader :: posix_loader where
  "sample_loader = \<lparr>dladdr = Some ''/opt/jflac/libshim.so'', dl_malloc = True,
     dlopen = (\<lambda>path. if path = ''/opt/jflac/libFLAC.so'' then Some 7 else None),
     dlopen_error = (\<lambda>_. None), dlsym = (\<lambda>_ _. 64),
     dlsym_error = (\<lambda>_ s. if s = ''FLAC__stream_decoder_new'' then Some ''missing'' else None),
     dlclose = (\<lambda>_. False)\<rparr>"

definition sample_jvm :: jvm where
  "sample_jvm = \<lparr>jv_throws = (\<lambda>_. None), jv_alloc = (\<lambda>_. True), jv_int = (\<lambda>_. 0),
     jv_long = (\<lambda>_. 0), jv_bytes = (\<lambda>_. []), jv_loader = sample_loader,
     jv_flac_filename = ''libFLAC.so'', jv_expected_version = ''1.5.0'',
     jv_flac_version = Some ''1.5.0'', jv_flac_supports_ogg = True\<rparr>"

end
