(* ===== verification/Decode_Context.thy ===== *)
theory Decode_Context
  imports Jvm
begin

text \<open>
  The callback state of a decoder, \<open>DecodeContext\<close> of \<open>jflac_jni.c\<close>, and the helpers that set it
  up and test it: the reset before an operation, range configuration and validation, the
  sample-count checks at the end of a link and at physical EOF, and the preparation of an
  \<open>InputStream\<close> or \<open>SeekableByteChannel\<close> source. A \<open>jmethodID\<close> field is a bool: whether it is
  resolved (not NULL). The \<open>env\<close> field is the environment passed beside the context. The Java
  array a pull read fills is held in \<open>pull_output\<close> by its contents.
\<close>

section \<open>The context record\<close>

record decode_context =
  consumer :: "jobject option"
  on_stream_info :: bool
  on_pcm_interleaved :: bool
  on_complete :: bool
  input_stream :: "jobject option"
  input_read :: bool
  input_stream_is_global :: bool
  seekable_channel :: "jobject option"
  channel_read :: bool
  channel_position :: bool
  channel_seek :: bool
  channel_size :: bool
  channel_base_offset :: jlong
  saw_error :: bool
  first_error_status :: decoder_error_status
  suppress_metadata :: bool
  saw_stream_info :: bool
  stream_total_samples :: u64
  ctx_stream_info :: stream_info
  decode_chained_ogg :: bool
  chained_link_count :: u32
  chained_link_md5_failed :: bool
  current_link_total_samples :: u64
  current_link_start_emitted_frames :: u64
  range_limited :: bool
  max_frames :: u64
  first_sample :: u64
  emitted_frames :: u64
  range_complete :: bool
  pull_mode :: bool
  pull_output :: "jint list option"
  pull_output_capacity_samples :: jint
  pull_channels :: u32
  pull_requested_frames :: u32
  pull_written_frames :: u32
  pull_end_of_stream :: bool
  pull_pending_samples :: "jint list option"
  pull_pending_sample_count :: u32
  pull_pending_sample_offset :: u32

text \<open>The zero-initialised context (\<open>memset\<close> or \<open>calloc\<close>); status 0 is LOST_SYNC.\<close>

definition zero_context :: decode_context where
  "zero_context = \<lparr>consumer = None, on_stream_info = False, on_pcm_interleaved = False,
     on_complete = False, input_stream = None, input_read = False,
     input_stream_is_global = False, seekable_channel = None, channel_read = False,
     channel_position = False, channel_seek = False, channel_size = False,
     channel_base_offset = 0, saw_error = False, first_error_status = LOST_SYNC,
     suppress_metadata = False, saw_stream_info = False, stream_total_samples = 0,
     ctx_stream_info = empty_stream_info, decode_chained_ogg = False, chained_link_count = 0,
     chained_link_md5_failed = False, current_link_total_samples = 0,
     current_link_start_emitted_frames = 0, range_limited = False, max_frames = 0,
     first_sample = 0, emitted_frames = 0, range_complete = False, pull_mode = False,
     pull_output = None, pull_output_capacity_samples = 0, pull_channels = 0,
     pull_requested_frames = 0, pull_written_frames = 0, pull_end_of_stream = False,
     pull_pending_samples = None, pull_pending_sample_count = 0,
     pull_pending_sample_offset = 0\<rparr>"

section \<open>Releasing what a context holds\<close>

definition clear_decode_seekable_channel :: "decode_context \<Rightarrow> jenv \<Rightarrow> decode_context \<times> jenv" where
  "clear_decode_seekable_channel c e =
     (case seekable_channel c of
        None \<Rightarrow> (c, e)
      | Some ch \<Rightarrow> (c\<lparr>seekable_channel := None\<rparr>, delete_global_ref ch e))"

definition clear_decode_input_stream :: "decode_context \<Rightarrow> jenv \<Rightarrow> decode_context \<times> jenv" where
  "clear_decode_input_stream c e =
     (case input_stream c of
        None \<Rightarrow> (c, e)
      | Some s \<Rightarrow>
          if \<not> input_stream_is_global c then (c, e)
          else (c\<lparr>input_stream := None, input_stream_is_global := False\<rparr>,
                delete_global_ref s e))"

definition clear_decode_pull_pending :: "decode_context \<Rightarrow> decode_context" where
  "clear_decode_pull_pending c =
     c\<lparr>pull_pending_samples := None, pull_pending_sample_count := 0,
       pull_pending_sample_offset := 0\<rparr>"

section \<open>Preparing one operation\<close>

text \<open>
  \<open>prepare_decode_context\<close>: the three method lookups run one after the other without a check in
  between; the reset fields are written in every case.
\<close>

definition prepare_decode_context ::
  "jvm \<Rightarrow> decode_context \<Rightarrow> jobject \<Rightarrow> jenv \<Rightarrow> bool \<times> decode_context \<times> jenv" where
  "prepare_decode_context J c cons e =
     (let (class_ok, e0) = plain_alloc J (GetObjectClass cons) e in
        if \<not> class_ok then (False, c, e0)
        else
          let (m1, e1) = java_try J (GetMethodID ''onStreamInfo'') e0 in
          let (m2, e2) = java_try J (GetMethodID ''onPcmInterleaved'') e1 in
          let (m3, e3) = java_try J (GetMethodID ''onComplete'') e2 in
            (m1 \<and> m2 \<and> m3,
             c\<lparr>consumer := Some cons, on_stream_info := m1, on_pcm_interleaved := m2,
               on_complete := m3, saw_error := False, suppress_metadata := False,
               range_limited := False, max_frames := 0, first_sample := 0,
               emitted_frames := 0, range_complete := False\<rparr>,
             e3))"

definition configure_decode_range ::
  "decode_context \<Rightarrow> jlong \<Rightarrow> bool \<Rightarrow> jlong \<Rightarrow> decode_context" where
  "configure_decode_range c first limited frames =
     c\<lparr>range_limited := limited,
       max_frames := (if limited then frames else 0),
       first_sample := first,
       emitted_frames := 0,
       range_complete := (limited \<and> frames = 0)\<rparr>"

definition validate_decode_request ::
  "jlong \<Rightarrow> bool \<Rightarrow> jlong \<Rightarrow> jenv \<Rightarrow> bool \<times> jenv" where
  "validate_decode_request first limited frames e =
     (if sint first < 0
      then (False, throw_illegal_argument_exception ''First sample must be non-negative.'' e)
      else if limited \<and> sint frames < 0
      then (False, throw_illegal_argument_exception ''Max frames must be non-negative.'' e)
      else if limited \<and> sint frames > sint (LLONG_MAX - first)
      then (False, throw_illegal_argument_exception
                     ''Decode range end must not overflow Long.'' e)
      else (True, e))"

definition decode_range_starts_after_stream :: "decode_context \<Rightarrow> jlong \<Rightarrow> bool" where
  "decode_range_starts_after_stream c first \<longleftrightarrow>
     saw_stream_info c \<and> stream_total_samples c > 0 \<and> first > stream_total_samples c"

definition decode_range_starts_at_stream_end :: "decode_context \<Rightarrow> jlong \<Rightarrow> bool" where
  "decode_range_starts_at_stream_end c first \<longleftrightarrow>
     saw_stream_info c \<and> stream_total_samples c > 0 \<and> first = stream_total_samples c"

section \<open>Sample-count checks\<close>

definition validate_chained_link_sample_count :: "decode_context \<Rightarrow> jenv \<Rightarrow> bool \<times> jenv" where
  "validate_chained_link_sample_count c e =
     (if current_link_total_samples c = 0 then (True, e)
      else
        let emitted_for_link = emitted_frames c - current_link_start_emitted_frames c
        in if emitted_for_link = current_link_total_samples c then (True, e)
           else (False, throw_decode_exception (snprintf_buffer
             (''Chained Ogg FLAC link ended after '' @ show_u64 emitted_for_link @
              '' frames, but its STREAMINFO total declares exactly '' @
              show_u64 (current_link_total_samples c) @ '' frames.'')) e))"

definition validate_physical_eof_sample_count :: "decode_context \<Rightarrow> jenv \<Rightarrow> bool \<times> jenv" where
  "validate_physical_eof_sample_count c e =
     (if exception_check e then (False, e)
      else if \<not> saw_stream_info c \<or> stream_total_samples c = 0 \<or>
              first_sample c \<ge> stream_total_samples c \<or>
              emitted_frames c \<ge> stream_total_samples c - first_sample c
      then (True, e)
      else (False, throw_decode_exception (snprintf_buffer
             (''FLAC stream reached physical EOF after '' @ show_u64 (emitted_frames c) @
              '' frames from sample '' @ show_u64 (first_sample c) @
              '', but STREAMINFO declares '' @ show_u64 (stream_total_samples c) @
              '' total frames.'')) e))"

section \<open>Preparing a source\<close>

definition prepare_decode_input_stream ::
  "jvm \<Rightarrow> decode_context \<Rightarrow> jobject option \<Rightarrow> jenv \<Rightarrow> bool \<times> decode_context \<times> jenv" where
  "prepare_decode_input_stream J c stream e =
     (case stream of
        None \<Rightarrow> (False, c,
          throw_illegal_argument_exception ''Decoder input stream must not be null.'' e)
      | Some s \<Rightarrow>
          let (class_ok, e1) = plain_alloc J (GetObjectClass s) e in
            if \<not> class_ok then (False, c, e1)
            else
              let (m, e2) = java_try J (GetMethodID ''read'') e1 in
                (m, c\<lparr>input_stream := Some s, input_read := m\<rparr>, e2))"

definition prepare_decode_input_stream_global ::
  "jvm \<Rightarrow> decode_context \<Rightarrow> jobject option \<Rightarrow> jenv \<Rightarrow> bool \<times> decode_context \<times> jenv" where
  "prepare_decode_input_stream_global J c stream e =
     (let (ok, c1, e1) = prepare_decode_input_stream J c stream e in
        if \<not> ok then (False, c1, e1)
        else
          case stream of
            None \<Rightarrow> (False, c1, e1)
          | Some s \<Rightarrow>
              let (ref, e2) = new_global_ref J s e1
              in (case ref of
                    None \<Rightarrow> (False, c1, e2)
                  | Some g \<Rightarrow>
                      (True, c1\<lparr>input_stream := Some g, input_stream_is_global := True\<rparr>, e2)))"

definition prepare_decode_seekable_channel ::
  "jvm \<Rightarrow> decode_context \<Rightarrow> jobject option \<Rightarrow> jenv \<Rightarrow> bool \<times> decode_context \<times> jenv" where
  "prepare_decode_seekable_channel J c channel e =
     (case channel of
        None \<Rightarrow> (False, c,
          throw_illegal_argument_exception ''Decoder seekable channel must not be null.'' e)
      | Some obj \<Rightarrow>
          let (k1, e1) = java_try J (Jni ''FindClass ReadableByteChannel'') e in
          let (k2, e2) = java_try J (Jni ''FindClass SeekableByteChannel'') e1 in
          if \<not> (k1 \<and> k2) then (False, c, e2)
          else
            let (m1, e3) = java_try J (GetMethodID ''read'') e2 in
            let (m2, e4) = java_try J (GetMethodID ''position()J'') e3 in
            let (m3, e5) = java_try J (GetMethodID ''position(J)'') e4 in
            let (m4, e6) = java_try J (GetMethodID ''size'') e5 in
            let c1 = c\<lparr>channel_read := m1, channel_position := m2, channel_seek := m3,
                       channel_size := m4\<rparr>
            in if \<not> (m1 \<and> m2 \<and> m3 \<and> m4) then (False, c1, e6)
               else
                 let (ref, e7) = new_global_ref J obj e6 in
                 let c2 = c1\<lparr>seekable_channel := ref\<rparr>
                 in (case ref of
                       None \<Rightarrow> (False, c2, e7)
                     | Some g \<Rightarrow>
                         let (offset, e8) = call_long J ChannelPosition e7;
                             c3 = c2\<lparr>channel_base_offset := offset\<rparr>
                         in if exception_check e8
                            then let (c4, e9) = clear_decode_seekable_channel c3 e8
                                 in (False, c4, e9)
                            else if sint offset < 0
                            then let (c4, e9) = clear_decode_seekable_channel c3 e8
                                 in (False, c4, throw_decode_exception
                                       ''SeekableByteChannel returned a negative position.'' e9)
                            else (True, c3, e8)))"

section \<open>Facts\<close>

lemma sint_remaining:
  assumes "0 \<le> sint (first :: jlong)"
  shows "sint (LLONG_MAX - first) = 9223372036854775807 - sint first"
proof -
  have "sint (LLONG_MAX - first) = signed_take_bit 63 (9223372036854775807 - sint first)"
    by (simp add: sint_word_ariths)
  also have "\<dots> = 9223372036854775807 - sint first"
    using assms sint_jlong_bounds [of first] by (intro signed_take_bit_int_eq_self) simp_all
  finally show ?thesis .
qed

lemma unat_sub_less:
  fixes a b c :: u64
  assumes "b < a"
  shows "c \<ge> a - b \<longleftrightarrow> unat a \<le> unat b + unat c"
proof -
  have "unat (a - b) = unat a - unat b" by (rule unat_sub) (use assms in simp)
  moreover have "unat b < unat a" using assms by (simp add: word_less_nat_alt)
  ultimately show ?thesis by (auto simp: word_le_nat_alt)
qed

lemma physical_eof_iff:
  "fst (validate_physical_eof_sample_count c e) \<longleftrightarrow>
     \<not> exception_check e \<and>
     \<not> (saw_stream_info c \<and>
        unat (first_sample c) + unat (emitted_frames c) < unat (stream_total_samples c))"
proof (cases "first_sample c < stream_total_samples c")
  case True
  then have "unat (first_sample c) < unat (stream_total_samples c)" by (simp add: word_less_nat_alt)
  moreover from True have "stream_total_samples c \<noteq> 0" "\<not> first_sample c \<ge> stream_total_samples c"
    by (auto simp: not_le)
  ultimately show ?thesis
    by (auto simp: validate_physical_eof_sample_count_def unat_sub_less [OF True])
next
  case False
  then have "unat (stream_total_samples c) \<le> unat (first_sample c)"
    by (simp add: word_less_nat_alt)
  with False show ?thesis by (auto simp: validate_physical_eof_sample_count_def)
qed

section \<open>Properties\<close>

text \<open>
  C23: a decode request is accepted exactly when it makes sense: the first sample is not negative
  and, for a bounded request, the number of frames is not negative and the end of the range,
  computed without wrap-around, fits in a \<open>jlong\<close>. A rejected request leaves an
  \<open>IllegalArgumentException\<close> pending, an accepted one leaves the environment alone.
\<close>

theorem validate_decode_request_iff:
  "\<exists>ok msg. validate_decode_request first limited frames e =
     (ok, if ok then e else raise (IllegalArgumentException msg) e) \<and>
   ok = (0 \<le> sint first \<and> (if limited
           then 0 \<le> sint frames \<and> sint first + sint frames \<le> 9223372036854775807 else True))"
  using sint_remaining [of first]
  by (auto simp: validate_decode_request_def throw_illegal_argument_exception_def)

text \<open>
  At physical EOF the decode is accepted exactly when no exception is pending and, if
  STREAMINFO declares a total, the frames delivered from the first sample reach it; the sum is
  exact although the code subtracts in \<open>uint64_t\<close>.
\<close>

lemma validate_physical_eof_iff:
  "fst (validate_physical_eof_sample_count c e) \<longleftrightarrow>
     \<not> exception_check e \<and>
     \<not> (saw_stream_info c \<and>
        unat (first_sample c) + unat (emitted_frames c) < unat (stream_total_samples c))"
  by (rule physical_eof_iff)

end
