(* ===== verification/Decode_Callbacks.thy ===== *)
theory Decode_Callbacks
  imports Decode_Context
begin

text \<open>
  The callbacks the shim gives to libFLAC's decoder: read (from a channel or a stream), seek, tell,
  length and EOF over a channel, write (to a consumer, or to the pending buffer of a pull session),
  metadata and error. Each takes the context and the environment and returns its status with the
  new ones; the callbacks that do not write the context return the environment only.
\<close>

section \<open>Reading\<close>

text \<open>Status, the value left in \<open>*bytes\<close> (None: the pointer was NULL) and the bytes delivered.\<close>
type_synonym read_result = "read_status \<times> u64 option \<times> byte list"

definition decode_channel_read_callback ::
  "jvm \<Rightarrow> decode_context \<Rightarrow> u64 option \<Rightarrow> jenv \<Rightarrow> read_result \<times> jenv" where
  "decode_channel_read_callback J c bytes e =
     (if exception_check e then ((READ_ABORT, map_option (\<lambda>_. 0) bytes, []), e)
      else
        case bytes of
          None \<Rightarrow> ((READ_ABORT, None, []), e)
        | Some n \<Rightarrow>
            if seekable_channel c = None \<or> \<not> channel_read c \<or> n = 0
            then ((READ_ABORT, Some 0, []), e)
            else if uint n > INT_MAX
            then ((READ_ABORT, Some 0, []), throw_decode_exception
                    ''SeekableByteChannel read request is too large for one ByteBuffer.'' e)
            else
              let (buffer_ok, e1) = new_direct_byte_buffer J n e
              in if \<not> buffer_ok then ((READ_ABORT, Some 0, []), e1)
                 else
                   let (r, e2) = call_int J (ChannelRead n) e1;
                       filled = take (unat n) (jv_bytes J (ChannelRead n # calls e1))
                   in if exception_check e2 then ((READ_ABORT, Some 0, []), e2)
                      else if sint r < 0 then ((READ_END_OF_STREAM, Some 0, []), e2)
                      else if r = 0
                      then ((READ_ABORT, Some 0, []), throw_decode_exception
                        ''SeekableByteChannel returned zero bytes for a non-empty read request.'' e2)
                      else ((READ_CONTINUE, Some (scast r), filled), e2))"

text \<open>
  The \<open>InputStream\<close> path copies through a JVM byte array of the requested length; a count above
  that length makes \<open>GetByteArrayRegion\<close> throw.
\<close>

definition java_byte_array :: "nat \<Rightarrow> byte list \<Rightarrow> byte list" where
  "java_byte_array n xs = take n (xs @ replicate n 0)"

lemma length_java_byte_array [simp]: "length (java_byte_array n xs) = n"
  by (simp add: java_byte_array_def)

definition decode_read_callback ::
  "jvm \<Rightarrow> decode_context \<Rightarrow> u64 option \<Rightarrow> jenv \<Rightarrow> read_result \<times> jenv" where
  "decode_read_callback J c bytes e =
     (if seekable_channel c \<noteq> None then decode_channel_read_callback J c bytes e
      else if exception_check e then ((READ_ABORT, map_option (\<lambda>_. 0) bytes, []), e)
      else
        case bytes of
          None \<Rightarrow> ((READ_ABORT, None, []), e)
        | Some n \<Rightarrow>
            if input_stream c = None \<or> \<not> input_read c \<or> n = 0
            then ((READ_ABORT, Some 0, []), e)
            else if uint n > INT_MAX
            then ((READ_ABORT, Some 0, []), throw_decode_exception
                    ''InputStream read request is too large for one JVM ByteArray.'' e)
            else
              let requested = ucast n :: jint;
                  (chunk_ok, e1) = java_try J (NewByteArray n) e
              in if \<not> chunk_ok then ((READ_ABORT, Some 0, []), e1)
                 else
                   let (r, e2) = call_int J (StreamRead requested) e1;
                       chunk = java_byte_array (unat n)
                                 (jv_bytes J (StreamRead requested # calls e1))
                   in if exception_check e2 then ((READ_ABORT, Some 0, []), e2)
                      else if sint r < 0 then ((READ_END_OF_STREAM, Some 0, []), e2)
                      else if r = 0
                      then ((READ_ABORT, Some 0, []), throw_decode_exception
                        ''InputStream returned zero bytes for a non-empty read request.'' e2)
                      else if unat r > length chunk
                      then ((READ_ABORT, Some 0, []), raise ArrayIndexOutOfBoundsException e2)
                      else ((READ_CONTINUE, Some (scast r), take (unat r) chunk), e2))"

section \<open>Positions\<close>

definition decode_channel_seek_callback ::
  "jvm \<Rightarrow> decode_context \<Rightarrow> u64 \<Rightarrow> jenv \<Rightarrow> seek_status \<times> jenv" where
  "decode_channel_seek_callback J c absolute_byte_offset e =
     (if seekable_channel c = None \<or> \<not> channel_seek c \<or>
         absolute_byte_offset > LLONG_MAX - channel_base_offset c
      then (SEEK_ERROR, e)
      else
        let e1 = java_call J (ChannelSeek (channel_base_offset c + absolute_byte_offset)) e
        in (if exception_check e1 then SEEK_ERROR else SEEK_OK, e1))"

text \<open>Tell and length deliver the offset only with the OK status; the pointer is None when NULL.\<close>

definition decode_channel_tell_callback ::
  "jvm \<Rightarrow> decode_context \<Rightarrow> bool \<Rightarrow> jenv \<Rightarrow> (tell_status \<times> u64 option) \<times> jenv" where
  "decode_channel_tell_callback J c pointer_ok e =
     (if seekable_channel c = None \<or> \<not> channel_position c \<or> \<not> pointer_ok
      then ((TELL_ERROR, None), e)
      else
        let (position, e1) = call_long J ChannelPosition e
        in if exception_check e1 \<or> sint position < sint (channel_base_offset c)
           then ((TELL_ERROR, None), e1)
           else ((TELL_OK, Some (position - channel_base_offset c)), e1))"

definition decode_channel_length_callback ::
  "jvm \<Rightarrow> decode_context \<Rightarrow> bool \<Rightarrow> jenv \<Rightarrow> (length_status \<times> u64 option) \<times> jenv" where
  "decode_channel_length_callback J c pointer_ok e =
     (if seekable_channel c = None \<or> \<not> channel_size c \<or> \<not> pointer_ok
      then ((LENGTH_ERROR, None), e)
      else
        let (size', e1) = call_long J ChannelSize e
        in if exception_check e1 \<or> sint size' < sint (channel_base_offset c)
           then ((LENGTH_ERROR, None), e1)
           else ((LENGTH_OK, Some (size' - channel_base_offset c)), e1))"

definition decode_channel_eof_callback ::
  "jvm \<Rightarrow> decode_context \<Rightarrow> jenv \<Rightarrow> bool \<times> jenv" where
  "decode_channel_eof_callback J c e =
     (if seekable_channel c = None \<or> \<not> channel_position c \<or> \<not> channel_size c then (True, e)
      else
        let (position, e1) = call_long J ChannelPosition e
        in if exception_check e1 then (True, e1)
           else
             let (size', e2) = call_long J ChannelSize e1
             in if exception_check e2 then (True, e2)
                else (sint position \<ge> sint size', e2))"

section \<open>Facts\<close>

lemma sint_scast_pos:
  assumes "0 \<le> sint (r :: jint)"
  shows "unat (scast r :: u64) = unat r" "0 < unat r \<longleftrightarrow> r \<noteq> 0"
proof -
  have "uint (scast r :: u64) = sint r mod 2 ^ 64"
    unfolding scast_eq uint_word_of_int by simp
  also have "\<dots> = sint r"
    using assms sint_jint_bounds [of r] by (intro mod_pos_pos_trivial) simp_all
  also have "\<dots> = uint r" using sint_nonneg_uint [OF assms] by (rule sym)
  finally show "unat (scast r :: u64) = unat r" by (simp only: unat_eq_nat_uint)
  show "0 < unat r \<longleftrightarrow> r \<noteq> 0" by (rule unat_gt_0)
qed

lemma base_offset_add:
  fixes base off :: jlong
  assumes "0 \<le> sint base"
  shows "off > LLONG_MAX - base \<longleftrightarrow> 9223372036854775807 < sint base + uint off"
    "\<not> off > LLONG_MAX - base \<Longrightarrow> sint (base + off) = sint base + uint off"
proof -
  have b: "uint base = sint base" using assms by (rule sint_nonneg_uint)
  have "uint (LLONG_MAX - base) = 9223372036854775807 - sint base"
    using assms sint_jlong_bounds [of base]
    by (subst uint_sub_lem [THEN iffD1]) (simp_all add: b)
  then show lt: "off > LLONG_MAX - base \<longleftrightarrow> 9223372036854775807 < sint base + uint off"
    by (auto simp: word_less_def)
  show "sint (base + off) = sint base + uint off" if "\<not> off > LLONG_MAX - base"
  proof -
    have sum: "sint base + uint off \<le> 9223372036854775807" using that lt by simp
    have "uint (base + off) = uint base + uint off"
      using sum b by (subst uint_plus_if') auto
    then have u: "uint (base + off) = sint base + uint off" using b by simp
    have "sint (base + off) = signed_take_bit 63 (uint (base + off))"
      by (simp add: sint_uint)
    also have "\<dots> = uint (base + off)"
    proof (rule signed_take_bit_int_eq_self)
      show "- (2 ^ 63) \<le> uint (base + off)" by (rule order_trans [of _ 0]) simp_all
      show "uint (base + off) < 2 ^ 63" using u sum by simp
    qed
    finally show ?thesis using u by simp
  qed
qed

section \<open>Properties\<close>

text \<open>
  C24: an \<open>InputStream\<close> read gives libFLAC only bytes Java delivered. When the callback continues,
  the count is positive, at most what libFLAC asked for, equal to the number of bytes handed over,
  and no exception is pending; in every other case nothing is handed over and the count is zero.
\<close>

theorem decode_stream_read_bounded:
  assumes "seekable_channel c = None"
  shows "case decode_read_callback J c (Some n) e of
    ((READ_CONTINUE, Some m, data), e1) \<Rightarrow>
      0 < unat m \<and> unat m \<le> unat n \<and> length data = unat m \<and> \<not> exception_check e1
  | ((READ_CONTINUE, None, data), e1) \<Rightarrow> False
  | ((READ_END_OF_STREAM, m, data), e1) \<Rightarrow> m = Some 0 \<and> data = [] \<and> \<not> exception_check e1
  | ((READ_ABORT, m, data), e1) \<Rightarrow> m = Some 0 \<and> data = []"
  using assms by (auto simp: decode_read_callback_def java_try_def Let_def sint_scast_pos
      split: prod.splits read_status.splits option.splits)

definition sample_stream_jvm :: jvm where
  "sample_stream_jvm = sample_jvm\<lparr>jv_int := (\<lambda>_. 3), jv_bytes := (\<lambda>_. [10, 20, 30, 40])\<rparr>"

lemma decode_stream_read_bounded_witness:
  "\<exists>m data e1. decode_read_callback sample_stream_jvm
     (zero_context\<lparr>input_stream := Some 1, input_read := True\<rparr>) (Some 8) initial_env =
   ((READ_CONTINUE, Some m, data), e1) \<and> data = [10, 20, 30] \<and> unat m \<le> 8 \<and>
   length data = unat m"
proof -
  let ?c = "zero_context\<lparr>input_stream := Some 1, input_read := True\<rparr>"
  obtain m e1 where r: "decode_read_callback sample_stream_jvm ?c (Some 8) initial_env =
      ((READ_CONTINUE, Some m, [10, 20, 30]), e1)"
    by (simp add: decode_read_callback_def zero_context_def java_try_def call_int_def
        java_call_def sample_stream_jvm_def sample_jvm_def initial_env_def exception_check_def
        java_byte_array_def)
  have "seekable_channel ?c = None" by (simp add: zero_context_def)
  from decode_stream_read_bounded [OF this, where J = sample_stream_jvm and n = 8 and
      e = initial_env] r show ?thesis
    by auto
qed


text \<open>
  C25: libFLAC's seek reaches the Java position it means. With a prepared channel, the position is the
  base offset plus the requested offset, computed without overflow, and the status tells whether
  Java threw; an offset whose sum does not fit in a \<open>jlong\<close> is refused before Java is called.
\<close>

theorem decode_channel_seek_exact:
  assumes "0 \<le> sint (channel_base_offset c)" "seekable_channel c \<noteq> None" "channel_seek c"
  shows "decode_channel_seek_callback J c off e =
    (if sint (channel_base_offset c) + uint off \<le> 9223372036854775807
     then let p = channel_base_offset c + off; e1 = java_call J (ChannelSeek p) e
          in ((if exception_check e1 then SEEK_ERROR else SEEK_OK), e1)
     else (SEEK_ERROR, e)) \<and>
    (if sint (channel_base_offset c) + uint off \<le> 9223372036854775807
     then sint (channel_base_offset c + off) = sint (channel_base_offset c) + uint off else True)"
  using base_offset_add [OF assms(1), of off] assms(2,3)
  by (auto simp: decode_channel_seek_callback_def not_le)

lemma decode_channel_seek_exact_witness:
  "decode_channel_seek_callback sample_jvm
     (zero_context\<lparr>seekable_channel := Some 1, channel_seek := True, channel_base_offset := 100\<rparr>)
     9223372036854775807 initial_env = (SEEK_ERROR, initial_env)"
  using decode_channel_seek_exact [of "zero_context\<lparr>seekable_channel := Some 1,
      channel_seek := True, channel_base_offset := 100\<rparr>" sample_jvm 9223372036854775807
      initial_env]
  by (simp add: zero_context_def)

text \<open>
  C26: tell and seek are inverse. When tell succeeds, the offset it gives libFLAC is the Java
  position minus the base, exactly, and seeking to that offset asks Java for that same position.
\<close>

theorem decode_channel_tell_seek:
  assumes "0 \<le> sint (channel_base_offset c)"
    "decode_channel_tell_callback J c True e = ((TELL_OK, Some off), e1)"
    "seekable_channel c \<noteq> None" "channel_seek c"
  shows "\<exists>position. position = jv_long J (ChannelPosition # calls e) \<and>
    uint off = sint position - sint (channel_base_offset c) \<and>
    snd (decode_channel_seek_callback J' c off e2) = java_call J' (ChannelSeek position) e2"
proof -
  let ?p = "jv_long J (ChannelPosition # calls e)" and ?b = "channel_base_offset c"
  from assms(2) have le: "sint ?b \<le> sint ?p" and off: "off = ?p - ?b"
    by (auto simp: decode_channel_tell_callback_def call_long_def split: if_splits)
  have p: "uint ?p = sint ?p" and b: "uint ?b = sint ?b"
    using assms(1) le by (auto intro: sint_nonneg_uint)
  have u: "uint off = sint ?p - sint ?b"
    unfolding off using le p b by (subst uint_sub_lem [THEN iffD1]) simp_all
  then have "\<not> off > LLONG_MAX - ?b"
    using base_offset_add(1) [OF assms(1), of off] sint_jlong_bounds [of ?p] by simp
  moreover have "?b + off = ?p" by (simp add: off)
  ultimately have "snd (decode_channel_seek_callback J' c off e2) = java_call J' (ChannelSeek ?p) e2"
    using assms(3,4) by (auto simp: decode_channel_seek_callback_def Let_def)
  with u show ?thesis by blast
qed

lemma decode_channel_tell_seek_witness:
  "snd (decode_channel_seek_callback sample_jvm
     (zero_context\<lparr>seekable_channel := Some 1, channel_seek := True, channel_position := True,
        channel_base_offset := 100\<rparr>) 23 initial_env) =
   java_call sample_jvm (ChannelSeek 123) initial_env"
proof -
  let ?c = "zero_context\<lparr>seekable_channel := Some 1, channel_seek := True,
    channel_position := True, channel_base_offset := 100\<rparr>"
  let ?J = "sample_jvm\<lparr>jv_long := (\<lambda>_. 123)\<rparr>"
  have "\<exists>e1. decode_channel_tell_callback ?J ?c True initial_env = ((TELL_OK, Some 23), e1)"
    by (simp add: decode_channel_tell_callback_def zero_context_def call_long_def
        java_call_def sample_jvm_def initial_env_def exception_check_def)
  then obtain e1 where "decode_channel_tell_callback ?J ?c True initial_env =
      ((TELL_OK, Some 23), e1)" ..
  from decode_channel_tell_seek [OF _ this, of sample_jvm initial_env] show ?thesis
    by (simp add: zero_context_def)
qed

end
