(* ===== verification/Decode_Write.thy ===== *)
theory Decode_Write
  imports Decode_Callbacks
begin

text \<open>
  What the decoder delivers: the write callback, with its consumer path and its pull path, the
  draining of a pending pull block into the Java array, the metadata callback and the error
  callback. \<open>malloc\<close> and Java allocations may fail; Java may throw from any call.
\<close>

section \<open>Writing into a Java array\<close>

definition set_int_array_region ::
  "jint list option \<Rightarrow> nat \<Rightarrow> jint list \<Rightarrow> jenv \<Rightarrow> jint list option \<times> jenv" where
  "set_int_array_region arr off xs e =
     (case arr of
        None \<Rightarrow> (None, raise NullPointerException e)
      | Some ys \<Rightarrow>
          if off + length xs \<le> length ys
          then (Some (take off ys @ xs @ drop (off + length xs) ys), e)
          else (Some ys, raise ArrayIndexOutOfBoundsException e))"

section \<open>Pull mode\<close>

definition drain_decode_pull_pending ::
  "decode_context \<Rightarrow> jenv \<Rightarrow> bool \<times> decode_context \<times> jenv" where
  "drain_decode_pull_pending c e =
     (if pull_pending_samples c = None \<or>
         pull_pending_sample_offset c \<ge> pull_pending_sample_count c
      then (True, clear_decode_pull_pending c, e)
      else if pull_channels c = 0
      then (False, c, throw_decode_exception ''Pull decoder has no channel count.'' e)
      else
        let remaining_request = pull_requested_frames c - pull_written_frames c
        in if remaining_request = 0 then (True, c, e)
           else
             let available_samples = pull_pending_sample_count c - pull_pending_sample_offset c;
                 available_frames = available_samples div pull_channels c;
                 copy_frames = (if available_frames < remaining_request then available_frames
                                else remaining_request);
                 copy_samples = copy_frames * pull_channels c;
                 output_offset_samples = pull_written_frames c * pull_channels c;
                 output_sample_end = (ucast output_offset_samples + ucast copy_samples :: u64)
             in if output_sample_end > scast (pull_output_capacity_samples c)
                then (False, c, throw_illegal_argument_exception
                        ''Interleaved sample buffer must fit maxFrames * channels.'' e)
                else
                  let source = take (unat copy_samples)
                        (drop (unat (pull_pending_sample_offset c))
                           (the (pull_pending_samples c)));
                      (out, e1) = set_int_array_region (pull_output c)
                                    (unat output_offset_samples) source e;
                      c1 = c\<lparr>pull_output := out\<rparr>
                  in if exception_check e1 then (False, c1, e1)
                     else
                       let c2 = c1\<lparr>
                             pull_pending_sample_offset :=
                               pull_pending_sample_offset c1 + copy_samples,
                             pull_written_frames := pull_written_frames c1 + copy_frames,
                             emitted_frames := emitted_frames c1 + ucast copy_frames\<rparr>
                       in (True,
                           (if pull_pending_sample_offset c2 \<ge> pull_pending_sample_count c2
                            then clear_decode_pull_pending c2 else c2),
                           e1))"

definition decode_pull_write_callback ::
  "jvm \<Rightarrow> flac_frame \<Rightarrow> decode_context \<Rightarrow> jenv \<Rightarrow> write_status \<times> decode_context \<times> jenv" where
  "decode_pull_write_callback J fr c e =
     (let chans = fh_channels fr;
          frames = fh_blocksize fr;
          sample_count = (ucast chans * ucast frames :: u64)
      in if chans = 0 \<or> frames = 0 \<or> uint sample_count > UINT32_MAX \<or> uint sample_count > INT_MAX
         then (WRITE_ABORT, c, throw_decode_exception
                 ''Decoded PCM frame is too large for one native pull buffer.'' e)
         else if pull_pending_samples c \<noteq> None
         then (WRITE_ABORT, c, throw_decode_exception
                 ''Pull decoder still has pending PCM before receiving a new block.'' e)
         else
           let (malloc_ok, e1) = plain_alloc J (Malloc (4 * sample_count)) e
           in if \<not> malloc_ok
              then (WRITE_ABORT, c,
                    throw_decode_exception ''Failed to allocate pull PCM buffer.'' e1)
              else
                let c1 = c\<lparr>pull_channels := chans,
                           pull_pending_samples :=
                             Some (interleave_loop (fr_buffer fr) chans frames),
                           pull_pending_sample_count := ucast sample_count,
                           pull_pending_sample_offset := 0\<rparr>;
                    (drained, c2, e2) = drain_decode_pull_pending c1 e1
                in ((if drained then WRITE_CONTINUE else WRITE_ABORT), c2, e2))"

section \<open>The write callback\<close>

definition decode_write_callback ::
  "jvm \<Rightarrow> flac_frame \<Rightarrow> decode_context \<Rightarrow> jenv \<Rightarrow> write_status \<times> decode_context \<times> jenv" where
  "decode_write_callback J fr c e =
     (if exception_check e then (WRITE_ABORT, c, e)
      else if saw_error c then (WRITE_ABORT, c, e)
      else if pull_mode c then decode_pull_write_callback J fr c e
      else
        let chans = fh_channels fr;
            frames = fh_blocksize fr;
            remaining = max_frames c - emitted_frames c
        in if range_limited c \<and> remaining = 0
           then (WRITE_CONTINUE, c\<lparr>range_complete := True\<rparr>, e)
           else
             let output_frames = (if range_limited c \<and> remaining < ucast frames
                                  then ucast remaining else frames);
                 sample_count = (ucast chans * ucast output_frames :: u64)
             in if chans = 0 \<or> output_frames = 0 \<or> uint sample_count > INT_MAX
                then (WRITE_ABORT, c, throw_decode_exception
                        ''Decoded PCM frame is too large for one JVM IntArray.'' e)
                else
                  let (array_ok, e1) = java_try J (NewIntArray sample_count) e
                  in if \<not> array_ok then (WRITE_ABORT, c, e1)
                     else
                       let (malloc_ok, e2) = plain_alloc J (Malloc (4 * sample_count)) e1
                       in if \<not> malloc_ok
                          then (WRITE_ABORT, c,
                                throw_decode_exception ''Failed to allocate PCM buffer.'' e2)
                          else
                            let interleaved = interleave_loop (fr_buffer fr) chans output_frames;
                                (samples, e3) = set_int_array_region
                                  (Some (replicate (unat sample_count) 0)) 0 interleaved e2
                            in if exception_check e3 then (WRITE_ABORT, c, e3)
                               else
                                 let e4 = java_call J
                                       (OnPcmInterleaved (the samples) output_frames) e3
                                 in if exception_check e4 then (WRITE_ABORT, c, e4)
                                    else
                                      let c1 = c\<lparr>emitted_frames :=
                                                  emitted_frames c + ucast output_frames\<rparr>
                                      in (WRITE_CONTINUE,
                                          (if range_limited c1 \<and>
                                              emitted_frames c1 \<ge> max_frames c1
                                           then c1\<lparr>range_complete := True\<rparr> else c1),
                                          e4))"

section \<open>Metadata and errors\<close>

text \<open>\<open>new_stream_info\<close>: each JNI step that fails leaves an exception and yields NULL.\<close>

definition new_stream_info :: "jvm \<Rightarrow> jenv \<Rightarrow> bool \<times> jenv" where
  "new_stream_info J e =
     java_seq J [Jni ''PushLocalFrame'', Jni ''FindClass FlacStreamInfo'', GetMethodID ''<init>'',
       NewByteArray 16, Jni ''SetByteArrayRegion'', Jni ''NewObject FlacStreamInfo''] e"

definition decode_metadata_callback ::
  "jvm \<Rightarrow> metadata \<Rightarrow> decode_context \<Rightarrow> jenv \<Rightarrow> decode_context \<times> jenv" where
  "decode_metadata_callback J md c e =
     (case md of
        OtherBlock n \<Rightarrow> (c, e)
      | StreamInfoBlock si \<Rightarrow>
          let chained = decode_chained_ogg c;
              c1 = (if chained
                    then c\<lparr>current_link_total_samples := si_total_samples si,
                           current_link_start_emitted_frames := emitted_frames c\<rparr>
                    else c)
          in if chained \<and> chained_link_count c1 > 0
             then
               let first = ctx_stream_info c1
               in if si_sample_rate si \<noteq> si_sample_rate first \<or>
                     si_channels si \<noteq> si_channels first \<or>
                     si_bits_per_sample si \<noteq> si_bits_per_sample first
                  then (c1, throw_decode_exception
                    ''Chained Ogg FLAC links must use the same sample rate, channel count, and bits per sample.'' e)
                  else (c1\<lparr>chained_link_count := chained_link_count c1 + 1\<rparr>, e)
             else
               let public_stream_info =
                     (if chained
                      then si\<lparr>si_total_samples := 0, si_min_blocksize := 0,
                              si_max_blocksize := 0, si_min_framesize := 0,
                              si_max_framesize := 0, si_md5sum := replicate 16 0\<rparr>
                      else si);
                   c2 = (if chained then c1\<lparr>chained_link_count := 1\<rparr> else c1);
                   c3 = c2\<lparr>saw_stream_info := True,
                           stream_total_samples := si_total_samples si,
                           ctx_stream_info := si\<rparr>
               in if consumer c3 = None \<or> suppress_metadata c3 then (c3, e)
                  else
                    let (info_ok, e1) = new_stream_info J e
                    in if \<not> info_ok then (c3, e1)
                       else (c3, java_call J (OnStreamInfo public_stream_info) e1))"

definition decode_error_callback :: "decoder_error_status \<Rightarrow> decode_context \<Rightarrow> decode_context" where
  "decode_error_callback status c =
     (if saw_error c then c else c\<lparr>first_error_status := status\<rparr>)\<lparr>saw_error := True\<rparr>"

end
