(* ===== verification/Libflac.thy ===== *)
theory Libflac
  imports Decode_Write
begin

text \<open>
  libFLAC's decoder is not part of the repository. It is a parameter: a record of its entry points
  over an abstract decoder state. A call that may come back into the shim is an interaction tree,
  that is a (finite) sequence of callback invocations in which every later step may depend on what
  the callbacks answered, ended by the call's result and the new decoder state.
  \<open>run_callbacks\<close> interprets such a tree with the shim's callbacks. Every property that
  quantifies over the record holds for each decoder of this shape, well-behaved or not; what a
  theorem needs beyond that is one of the named hypotheses below.
\<close>

section \<open>Interaction trees\<close>

datatype 'd decoder_run =
    Return bool 'd
  | ReadCallback "u64 option" "read_result \<Rightarrow> 'd decoder_run"
  | SeekCallback u64 "seek_status \<Rightarrow> 'd decoder_run"
  | TellCallback bool "tell_status \<times> u64 option \<Rightarrow> 'd decoder_run"
  | LengthCallback bool "length_status \<times> u64 option \<Rightarrow> 'd decoder_run"
  | EofCallback "bool \<Rightarrow> 'd decoder_run"
  | WriteCallback flac_frame "write_status \<Rightarrow> 'd decoder_run"
  | MetadataCallback metadata "'d decoder_run"
  | ErrorCallback decoder_error_status "'d decoder_run"

type_synonym 'd run_result = "bool \<times> 'd \<times> decode_context \<times> jenv"

text \<open>A frame enters the history when its write callback returns CONTINUE.\<close>

definition record_frame :: "write_status \<Rightarrow> flac_frame \<Rightarrow> jenv \<Rightarrow> jenv" where
  "record_frame st fr e =
     (case st of WRITE_CONTINUE \<Rightarrow> e\<lparr>decoded := decoded e @ [fr]\<rparr> | WRITE_ABORT \<Rightarrow> e)"

primrec run_callbacks ::
  "jvm \<Rightarrow> 'd decoder_run \<Rightarrow> decode_context \<Rightarrow> jenv \<Rightarrow> 'd run_result" where
  "run_callbacks J (Return ok d) = (\<lambda>c e. (ok, d, c, e))"
| "run_callbacks J (ReadCallback bytes k) = (\<lambda>c e.
     let (r, e1) = decode_read_callback J c bytes e in run_callbacks J (k r) c e1)"
| "run_callbacks J (SeekCallback off k) = (\<lambda>c e.
     let (r, e1) = decode_channel_seek_callback J c off e in run_callbacks J (k r) c e1)"
| "run_callbacks J (TellCallback p k) = (\<lambda>c e.
     let (r, e1) = decode_channel_tell_callback J c p e in run_callbacks J (k r) c e1)"
| "run_callbacks J (LengthCallback p k) = (\<lambda>c e.
     let (r, e1) = decode_channel_length_callback J c p e in run_callbacks J (k r) c e1)"
| "run_callbacks J (EofCallback k) = (\<lambda>c e.
     let (r, e1) = decode_channel_eof_callback J c e in run_callbacks J (k r) c e1)"
| "run_callbacks J (WriteCallback fr k) = (\<lambda>c e.
     let (st, c1, e1) = decode_write_callback J fr c e
     in run_callbacks J (k st) c1 (record_frame st fr e1))"
| "run_callbacks J (MetadataCallback md k) = (\<lambda>c e.
     let (c1, e1) = decode_metadata_callback J md c e in run_callbacks J k c1 e1)"
| "run_callbacks J (ErrorCallback st k) = (\<lambda>c e.
     run_callbacks J k (decode_error_callback st c) e)"

section \<open>The decoder's entry points\<close>

datatype source_kind = FileSource string | StreamSource | ChannelSource

record 'd decoder_api =
  stream_decoder_new :: "'d option"
  stream_decoder_set_decode_chained_stream :: "'d \<Rightarrow> bool \<times> 'd"
  stream_decoder_set_md5_checking :: "'d \<Rightarrow> bool \<times> 'd"
  stream_decoder_init :: "source_kind \<Rightarrow> bool \<Rightarrow> 'd \<Rightarrow> bool \<times> 'd"
  stream_decoder_process_until_end_of_metadata :: "'d \<Rightarrow> 'd decoder_run"
  stream_decoder_seek_absolute :: "'d \<Rightarrow> u64 \<Rightarrow> 'd decoder_run"
  stream_decoder_process_single :: "'d \<Rightarrow> 'd decoder_run"
  stream_decoder_process_until_end_of_link :: "'d \<Rightarrow> 'd decoder_run"
  stream_decoder_process_until_end_of_stream :: "'d \<Rightarrow> 'd decoder_run"
  stream_decoder_finish_link :: "'d \<Rightarrow> 'd decoder_run"
  stream_decoder_finish :: "'d \<Rightarrow> bool \<times> 'd"
  stream_decoder_get_state :: "'d \<Rightarrow> decoder_state"
  stream_decoder_get_resolved_state_string :: "'d \<Rightarrow> string option"

text \<open>Allocating and deleting a decoder, with the count of the decoders alive.\<close>

definition new_decoder :: "'d decoder_api \<Rightarrow> jenv \<Rightarrow> 'd option \<times> jenv" where
  "new_decoder A e =
     (case stream_decoder_new A of
        None \<Rightarrow> (None, e)
      | Some d \<Rightarrow> (Some d, e\<lparr>live_decoders := live_decoders e + 1\<rparr>))"

definition delete_decoder :: "jenv \<Rightarrow> jenv" where
  "delete_decoder e = e\<lparr>live_decoders := live_decoders e - 1\<rparr>"

section \<open>Proving facts about a run\<close>

text \<open>A relation every callback keeps is kept by every run.\<close>

lemma run_callbacks_rel:
  assumes refl: "\<And>c e. R c e c e"
    and trans: "\<And>c0 e0 c1 e1 c2 e2. R c0 e0 c1 e1 \<Longrightarrow> R c1 e1 c2 e2 \<Longrightarrow> R c0 e0 c2 e2"
    and read: "\<And>c e b r e1. decode_read_callback J c b e = (r, e1) \<Longrightarrow> R c e c e1"
    and seek: "\<And>c e off r e1. decode_channel_seek_callback J c off e = (r, e1) \<Longrightarrow> R c e c e1"
    and tell: "\<And>c e p r e1. decode_channel_tell_callback J c p e = (r, e1) \<Longrightarrow> R c e c e1"
    and len: "\<And>c e p r e1. decode_channel_length_callback J c p e = (r, e1) \<Longrightarrow> R c e c e1"
    and eof: "\<And>c e r e1. decode_channel_eof_callback J c e = (r, e1) \<Longrightarrow> R c e c e1"
    and wr: "\<And>c e fr st c1 e1. decode_write_callback J fr c e = (st, c1, e1) \<Longrightarrow>
               R c e c1 (record_frame st fr e1)"
    and md: "\<And>c e m c1 e1. decode_metadata_callback J m c e = (c1, e1) \<Longrightarrow> R c e c1 e1"
    and err: "\<And>c e st. R c e (decode_error_callback st c) e"
    and run: "run_callbacks J t c e = (ok, d, c', e')"
  shows "R c e c' e'"
  using run
proof (induction t arbitrary: c e)
  case (Return ok' d')
  then show ?case by (simp add: refl)
next
  case (ReadCallback b k)
  then show ?case by (fastforce intro: trans read simp: Let_def split: prod.splits)
next
  case (SeekCallback off k)
  then show ?case by (fastforce intro: trans seek simp: Let_def split: prod.splits)
next
  case (TellCallback p k)
  then show ?case by (fastforce intro: trans tell simp: Let_def split: prod.splits)
next
  case (LengthCallback p k)
  then show ?case by (fastforce intro: trans len simp: Let_def split: prod.splits)
next
  case (EofCallback k)
  then show ?case by (fastforce intro: trans eof simp: Let_def split: prod.splits)
next
  case (WriteCallback fr k)
  then show ?case by (fastforce intro: trans wr simp: Let_def split: prod.splits)
next
  case (MetadataCallback m k)
  then show ?case by (fastforce intro: trans md simp: Let_def split: prod.splits)
next
  case (ErrorCallback st k)
  show ?case
    by (rule trans [OF err ErrorCallback.IH]) (use ErrorCallback.prems in simp)
qed

text \<open>An invariant every callback keeps is kept by every run.\<close>

lemma run_callbacks_inv:
  assumes init: "P c e"
    and read: "\<And>c e b r e1. decode_read_callback J c b e = (r, e1) \<Longrightarrow> P c e \<Longrightarrow> P c e1"
    and seek: "\<And>c e off r e1. decode_channel_seek_callback J c off e = (r, e1) \<Longrightarrow> P c e \<Longrightarrow> P c e1"
    and tell: "\<And>c e p r e1. decode_channel_tell_callback J c p e = (r, e1) \<Longrightarrow> P c e \<Longrightarrow> P c e1"
    and len: "\<And>c e p r e1. decode_channel_length_callback J c p e = (r, e1) \<Longrightarrow> P c e \<Longrightarrow> P c e1"
    and eof: "\<And>c e r e1. decode_channel_eof_callback J c e = (r, e1) \<Longrightarrow> P c e \<Longrightarrow> P c e1"
    and wr: "\<And>c e fr st c1 e1. decode_write_callback J fr c e = (st, c1, e1) \<Longrightarrow> P c e \<Longrightarrow>
               P c1 (record_frame st fr e1)"
    and md: "\<And>c e m c1 e1. decode_metadata_callback J m c e = (c1, e1) \<Longrightarrow> P c e \<Longrightarrow> P c1 e1"
    and err: "\<And>c e st. P c e \<Longrightarrow> P (decode_error_callback st c) e"
    and run: "run_callbacks J t c e = (ok, d, c', e')"
  shows "P c' e'"
proof -
  have "P c e \<longrightarrow> P c' e'"
    using run
    by (rule run_callbacks_rel [where R = "\<lambda>c e c' e'. P c e \<longrightarrow> P c' e'", rotated -1])
      (blast | (rule impI, rule read seek tell len eof wr md, assumption, assumption)
        | (rule impI, erule err))+
  with init show ?thesis by blast
qed

end
