(* ===== verification/Decode_Process.thy ===== *)
theory Decode_Process
  imports Libflac
begin

text \<open>
  \<open>process_decode_stream\<close>: the whole-stream path, the link-by-link path of a checked Ogg chain
  (\<open>for (;;)\<close>) and the frame-by-frame path of a bounded range (\<open>while\<close>). How often the two loops
  run is up to libFLAC, so they take fuel and return None when it is used up.
\<close>

section \<open>The model\<close>

fun process_chained_links ::
  "nat \<Rightarrow> jvm \<Rightarrow> 'd decoder_api \<Rightarrow> 'd \<Rightarrow> decode_context \<Rightarrow> jenv \<Rightarrow> 'd run_result option" where
  "process_chained_links 0 J A d c e = None"
| "process_chained_links (Suc n) J A d c e =
     (let (link_success, d1, c1, e1) =
            run_callbacks J (stream_decoder_process_until_end_of_link A d) c e
      in if \<not> link_success \<or> saw_error c1 \<or> exception_check e1 then Some (False, d1, c1, e1)
         else
           let state = stream_decoder_get_state A d1
           in if state = END_OF_STREAM
              then let (v, e2) = validate_chained_link_sample_count c1 e1
                   in Some (v, d1, c1, e2)
              else if state \<noteq> END_OF_LINK then Some (False, d1, c1, e1)
              else
                let (v, e2) = validate_chained_link_sample_count c1 e1
                in if \<not> v then Some (False, d1, c1, e2)
                   else
                     let (finish_link_success, d3, c3, e3) =
                           run_callbacks J (stream_decoder_finish_link A d1) c1 e2
                     in if saw_error c3 then Some (False, d3, c3, e3)
                        else if \<not> finish_link_success
                        then Some (False, d3, c3\<lparr>chained_link_md5_failed := True\<rparr>, e3)
                        else process_chained_links n J A d3 c3 e3)"

fun process_range ::
  "nat \<Rightarrow> jvm \<Rightarrow> 'd decoder_api \<Rightarrow> 'd \<Rightarrow> decode_context \<Rightarrow> jenv \<Rightarrow> 'd run_result option" where
  "process_range 0 J A d c e = None"
| "process_range (Suc n) J A d c e =
     (if range_complete c then Some (True, d, c, e)
      else if exception_check e then Some (False, d, c, e)
      else
        let (success, d1, c1, e1) = run_callbacks J (stream_decoder_process_single A d) c e
        in if \<not> success \<or> saw_error c1 then Some (False, d1, c1, e1)
           else if exception_check e1 then Some (False, d1, c1, e1)
           else
             let state = stream_decoder_get_state A d1
             in if state = END_OF_STREAM
                then let (v, e2) = validate_physical_eof_sample_count c1 e1
                     in Some (v, d1, c1, e2)
                else if state = ABORTED then Some (False, d1, c1, e1)
                else process_range n J A d1 c1 e1)"

definition process_decode_stream ::
  "nat \<Rightarrow> jvm \<Rightarrow> 'd decoder_api \<Rightarrow> 'd \<Rightarrow> decode_context \<Rightarrow> jenv \<Rightarrow> 'd run_result option" where
  "process_decode_stream fuel J A d c e =
     (if \<not> range_limited c
      then
        if decode_chained_ogg c then process_chained_links fuel J A d c e
        else
          let (success, d1, c1, e1) =
                run_callbacks J (stream_decoder_process_until_end_of_stream A d) c e
          in if \<not> success \<or> saw_error c1 \<or> exception_check e1 then Some (False, d1, c1, e1)
             else if stream_decoder_get_state A d1 \<noteq> END_OF_STREAM then Some (True, d1, c1, e1)
             else let (v, e2) = validate_physical_eof_sample_count c1 e1
                  in Some (v, d1, c1, e2)
      else process_range fuel J A d c e)"

end
