(* ===== verification/Flac_Api.thy ===== *)
theory Flac_Api
  imports Jvm
begin

text \<open>
  The one-time resolution of libFLAC (\<open>init_flac_api\<close>), the guard every entry point starts with
  (\<open>flac_api_ready\<close>), and the message helpers and text conversion the entry points use. The expected
  version and the library filename are constants of the build, fields of \<open>jvm\<close> here.
\<close>

section \<open>Resolving libFLAC\<close>

definition data_symbols :: "string list" where
  "data_symbols = [''FLAC__VERSION_STRING'', ''FLAC_API_SUPPORTS_OGG_FLAC'']"

definition function_symbols :: "string list" where
  "function_symbols =
    [''FLAC__metadata_chain_new'', ''FLAC__metadata_chain_delete'',
     ''FLAC__metadata_chain_read'', ''FLAC__metadata_chain_read_ogg'',
     ''FLAC__metadata_chain_status'', ''FLAC__metadata_chain_write'',
     ''FLAC__metadata_iterator_new'', ''FLAC__metadata_iterator_delete'',
     ''FLAC__metadata_iterator_init'', ''FLAC__metadata_iterator_get_block'',
     ''FLAC__metadata_iterator_next'', ''FLAC__metadata_iterator_delete_block'',
     ''FLAC__metadata_iterator_insert_block_after'', ''FLAC__stream_decoder_new'',
     ''FLAC__stream_decoder_delete'', ''FLAC__stream_decoder_set_decode_chained_stream'',
     ''FLAC__stream_decoder_set_md5_checking'', ''FLAC__stream_decoder_init_file'',
     ''FLAC__stream_decoder_init_ogg_file'', ''FLAC__stream_decoder_init_stream'',
     ''FLAC__stream_decoder_init_ogg_stream'',
     ''FLAC__stream_decoder_process_until_end_of_metadata'',
     ''FLAC__stream_decoder_seek_absolute'', ''FLAC__stream_decoder_process_single'',
     ''FLAC__stream_decoder_process_until_end_of_link'',
     ''FLAC__stream_decoder_process_until_end_of_stream'',
     ''FLAC__stream_decoder_finish_link'', ''FLAC__stream_decoder_finish'',
     ''FLAC__stream_decoder_get_state'', ''FLAC__stream_decoder_get_resolved_state_string'',
     ''FLAC__stream_encoder_new'', ''FLAC__stream_encoder_delete'',
     ''FLAC__stream_encoder_set_verify'', ''FLAC__stream_encoder_set_streamable_subset'',
     ''FLAC__stream_encoder_set_channels'', ''FLAC__stream_encoder_set_bits_per_sample'',
     ''FLAC__stream_encoder_set_sample_rate'', ''FLAC__stream_encoder_set_compression_level'',
     ''FLAC__stream_encoder_set_blocksize'', ''FLAC__stream_encoder_set_num_threads'',
     ''FLAC__stream_encoder_set_total_samples_estimate'',
     ''FLAC__stream_encoder_set_ogg_serial_number'', ''FLAC__stream_encoder_set_metadata'',
     ''FLAC__stream_encoder_init_file'', ''FLAC__stream_encoder_init_ogg_file'',
     ''FLAC__stream_encoder_init_stream'', ''FLAC__stream_encoder_init_ogg_stream'',
     ''FLAC__stream_encoder_process_interleaved'', ''FLAC__stream_encoder_finish'',
     ''FLAC__stream_encoder_get_resolved_state_string'', ''FLAC__metadata_object_new'',
     ''FLAC__metadata_object_clone'', ''FLAC__metadata_object_delete'',
     ''FLAC__metadata_object_vorbiscomment_set_vendor_string'',
     ''FLAC__metadata_object_vorbiscomment_append_comment'',
     ''FLAC__metadata_object_picture_set_mime_type'',
     ''FLAC__metadata_object_picture_set_description'',
     ''FLAC__metadata_object_picture_set_data'', ''FLAC__metadata_object_picture_is_legal'',
     ''FLAC__metadata_object_application_set_data'',
     ''FLAC__metadata_object_seektable_resize_points'',
     ''FLAC__metadata_object_seektable_set_point'',
     ''FLAC__metadata_object_seektable_is_legal'',
     ''FLAC__metadata_object_cuesheet_resize_tracks'',
     ''FLAC__metadata_object_cuesheet_track_resize_indices'',
     ''FLAC__metadata_object_cuesheet_is_legal'', ''FLAC__format_sample_rate_is_valid'',
     ''FLAC__format_sample_rate_is_subset'', ''FLAC__format_blocksize_is_subset'',
     ''FLAC__format_vorbiscomment_entry_name_is_legal'',
     ''FLAC__format_vorbiscomment_entry_value_is_legal'',
     ''FLAC__format_vorbiscomment_entry_is_legal'']"

text \<open>A sequence of \<open>RESOLVE\<close> steps, up to the first that fails.\<close>

fun resolve_symbols ::
  "posix_loader \<Rightarrow> jflac_module \<Rightarrow> string list \<Rightarrow> (string \<times> nat) list \<Rightarrow>
   (string \<times> nat) list result" where
  "resolve_symbols L m [] table = Done table"
| "resolve_symbols L m (s # ss) table =
     (case jflac_resolve_symbol L m s 8 of
        Failed err \<Rightarrow> Failed err
      | Done address \<Rightarrow> resolve_symbols L m ss (table @ [(s, address)]))"

definition init_failed :: "jvm \<Rightarrow> jflac_module \<Rightarrow> string \<Rightarrow> native_state \<Rightarrow> native_state" where
  "init_failed J module err n =
     (let n1 = n\<lparr>api_init_error := err, api_table := []\<rparr>;
          (closed, module1, refs) =
            jflac_close_library (jv_loader J) (Some module) (loader_refs n1)
      in if \<not> closed then n1\<lparr>api_module := module, loader_refs := refs\<rparr>
         else n1\<lparr>loader_refs := refs\<rparr>)"

definition init_flac_api :: "jvm \<Rightarrow> native_state \<Rightarrow> native_state" where
  "init_flac_api J n =
     (let n0 = n\<lparr>api_initialized := False\<rparr>
      in case jflac_open_sibling_library (jv_loader J) (Some (jv_flac_filename J)) (Some empty_module)
                (loader_refs n0) of
           (Failed err, refs) \<Rightarrow> n0\<lparr>api_init_error := err\<rparr>
         | (Done module, refs) \<Rightarrow>
             let n1 = n0\<lparr>loader_refs := refs\<rparr>
             in (case resolve_symbols (jv_loader J) module data_symbols (api_table n1) of
                   Failed err \<Rightarrow> init_failed J module err n1
                 | Done table \<Rightarrow>
                     if jv_flac_version J \<noteq> Some (jv_expected_version J)
                     then init_failed J module (snprintf_buffer
                       (''Incompatible bundled libFLAC version: expected '' @ jv_expected_version J @
                        '' but found '' @
                        (case jv_flac_version J of Some v \<Rightarrow> v | None \<Rightarrow> ''<missing>'') @ ''.'')) n1
                     else if \<not> jv_flac_supports_ogg J
                     then init_failed J module
                       ''The bundled libFLAC runtime was built without required Ogg FLAC support.'' n1
                     else
                       (case resolve_symbols (jv_loader J) module function_symbols table of
                          Failed err \<Rightarrow> init_failed J module err n1
                        | Done table' \<Rightarrow>
                            n1\<lparr>api_table := table', api_module := module,
                               api_initialized := True\<rparr>)))"

definition flac_api_ready :: "jvm \<Rightarrow> jenv \<Rightarrow> bool \<times> jenv" where
  "flac_api_ready J e =
     (let (complete, n) = jflac_call_once (api_once (native e)) (init_flac_api J)
                            (native e);
          e1 = e\<lparr>native := n\<lparr>api_once := complete\<rparr>\<rparr>
      in if \<not> api_initialized (native e1)
         then (False, raise (NativeLoadException
                (if api_init_error (native e1) \<noteq> [] then api_init_error (native e1)
                 else ''Failed to initialize FLAC API.'')) e1)
         else (True, e1))"

section \<open>Text\<close>

text \<open>
  \<open>jstring_to_utf8\<close>. A Java string is represented by its standard UTF-8 bytes, which is what
  \<open>String.getBytes\<close> returns; the function returns a copy or NULL.
\<close>

definition jstring_to_utf8 :: "jvm \<Rightarrow> string option \<Rightarrow> jenv \<Rightarrow> string option \<times> jenv" where
  "jstring_to_utf8 J value e =
     (case value of
        None \<Rightarrow> (None, e)
      | Some bytes \<Rightarrow>
          let (ok1, e1) = java_seq J [Jni ''PushLocalFrame'', Jni ''FindClass String'',
                            GetMethodID ''getBytes'', Jni ''FindClass StandardCharsets'',
                            Jni ''GetStaticFieldID UTF_8''] e
          in if \<not> ok1 then (None, e1)
             else
               let (charset_ok, e2) = plain_alloc J (Jni ''GetStaticObjectField UTF_8'') e1
               in if \<not> charset_ok then (None, e2)
                  else
                    let (bytes_ok, e3) = java_try J (Jni ''String.getBytes'') e2
                    in if \<not> bytes_ok then (None, e3)
                       else
                         let (buffer_ok, e4) =
                               plain_alloc J (Malloc (of_nat (length bytes) + 1)) e3
                         in if \<not> buffer_ok then (None, e4)
                            else if length bytes > 0
                            then let (copied, e5) = java_try J (Jni ''GetByteArrayRegion'') e4
                                 in ((if copied then Some bytes else None), e5)
                            else (Some bytes, e4))"

text \<open>The path conversion with its fallback message, as every file entry point has it.\<close>

definition path_to_utf8 :: "jvm \<Rightarrow> string option \<Rightarrow> jenv \<Rightarrow> string option \<times> jenv" where
  "path_to_utf8 J path e =
     (let (utf8_path, e1) = jstring_to_utf8 J path e
      in (utf8_path,
          (if utf8_path = None \<and> \<not> exception_check e1
           then throw_decode_exception ''Failed to encode file path to UTF-8.'' e1 else e1)))"

section \<open>Facts\<close>

lemma resolve_symbols_Done:
  assumes "resolve_symbols L m ss table = Done table'"
  shows "map fst table' = map fst table @ ss"
  using assms by (induction ss arbitrary: table) (auto split: result.splits)

definition api_inv :: "native_state \<Rightarrow> bool" where
  "api_inv n \<longleftrightarrow>
     (if api_initialized n
      then map fst (api_table n) = data_symbols @ function_symbols
      else api_table n = []) \<and>
     loader_refs n = (if module_handle (api_module n) = None then 0 else 1) \<and>
     (api_initialized n \<longrightarrow> module_handle (api_module n) \<noteq> None) \<and>
     (module_handle (api_module n) \<noteq> None \<longrightarrow> owns_handle (api_module n))"

lemma init_failed_inv:
  assumes "\<not> api_initialized n" "api_module n = empty_module" "loader_refs n = 1"
  shows "api_inv (init_failed J \<lparr>module_handle = Some h, owns_handle = True\<rparr> err n)"
proof -
  obtain ok m refs where c: "jflac_close_library (jv_loader J)
      (Some \<lparr>module_handle = Some h, owns_handle = True\<rparr>) (loader_refs n) = (ok, m, refs)"
    by (metis prod_cases3)
  note c1 = c [unfolded assms(3) One_nat_def]
  from close_library_owned [OF c] assms show ?thesis
    by (cases ok) (simp_all add: init_failed_def api_inv_def Let_def c1 empty_module_def)
qed

lemma init_flac_api_inv:
  assumes "api_table n = []" "api_module n = empty_module" "loader_refs n = 0"
  shows "api_inv (init_flac_api J n)"
proof -
  obtain r refs where o: "jflac_open_sibling_library (jv_loader J) (Some (jv_flac_filename J))
      (Some empty_module) (loader_refs n) = (r, refs)"
    by (metis surj_pair)
  from open_sibling_library_cases [OF o]
  consider msg where "r = Failed msg"
    | h where "r = Done \<lparr>module_handle = Some h, owns_handle = True\<rparr>" "refs = 1"
    using assms by auto
  then show ?thesis
  proof cases
    case 1
    then have "init_flac_api J n = n\<lparr>api_initialized := False, api_init_error := msg\<rparr>"
      using o assms(3) by (simp add: init_flac_api_def)
    then show ?thesis using assms by (simp add: api_inv_def empty_module_def)
  next
    case 2
    let ?m = "\<lparr>module_handle = Some h, owns_handle = True\<rparr>"
    let ?n = "n\<lparr>api_initialized := False, loader_refs := 1\<rparr>"
    have bad: "api_inv (init_failed J ?m err ?n)" for err
      by (rule init_failed_inv) (simp_all add: assms)
    have good: "api_inv (?n\<lparr>api_table := t, api_module := ?m, api_initialized := True\<rparr>)"
      if "map fst t = data_symbols @ function_symbols" for t
      using that by (simp add: api_inv_def)
    show ?thesis using o assms(1,3) 2 bad good
      by (simp add: init_flac_api_def Let_def split: result.splits)
        (auto dest!: resolve_symbols_Done)
  qed
qed

lemma flac_api_ready_native:
  "flac_api_ready J e = (ok, e1) \<Longrightarrow>
   native e1 = (if api_once (native e) then native e
                else init_flac_api J (native e)\<lparr>api_once := True\<rparr>) \<and>
   ok = api_initialized (native e1)"
  by (auto simp: flac_api_ready_def jflac_call_once_def env_simps Let_def split: if_splits)

lemma flac_api_ready_env:
  "flac_api_ready J e = (ok, e1) \<Longrightarrow> same_resources e e1 \<and> calls e1 = calls e \<and>
   decoded e1 = decoded e \<and> (ok \<longrightarrow> pending e1 = pending e \<and> lost e1 = lost e) \<and>
   (\<not> ok \<longrightarrow> exception_check e1)"
  by (auto simp: flac_api_ready_def Let_def env_simps same_resources_def
      split: if_splits prod.splits)

section \<open>Properties\<close>



text \<open>
  C17: libFLAC is resolved once. After a first call of the guard, every later call gives the same
  answer and leaves the resolver state as it is.
\<close>

theorem flac_api_ready_stable:
  assumes "flac_api_ready J e = (ok, e1)" "native e2 = native e1"
    "flac_api_ready J' e2 = (ok', e3)"
  shows "ok' = ok \<and> native e3 = native e1"
proof -
  have "api_once (native e1)"
    using flac_api_ready_native [OF assms(1)] by (auto split: if_splits)
  with flac_api_ready_native [OF assms(1)] flac_api_ready_native [OF assms(3)] assms(2)
  show ?thesis by simp
qed

lemma flac_api_ready_stable_witness:
  "let (ok, e1) = flac_api_ready sample_jvm initial_env; (ok', e3) = flac_api_ready sample_jvm e1
   in ok' = ok \<and> native e3 = native e1"
proof -
  obtain ok e1 ok' e3 where r: "flac_api_ready sample_jvm initial_env = (ok, e1)"
    "flac_api_ready sample_jvm e1 = (ok', e3)"
    by (metis surj_pair)
  from flac_api_ready_stable [OF r(1) refl r(2)] show ?thesis by (simp add: r)
qed

end
