(* ===== verification/Decode_Oneshot.thy ===== *)
theory Decode_Oneshot
  imports Decode_Process Flac_Api
begin

text \<open>
  The one-shot decoders: \<open>decode_file_internal\<close>, \<open>decode_stream_internal\<close>,
  \<open>decode_channel_internal\<close> and the entry points that call them. The three functions repeat the same
  two phases with their own message prefix and their own cleanup: positioning (metadata, range
  checks, seek) and processing with its error translation. A phase is one definition with the
  prefix and the cleanup as arguments, and its instances are named after the function they are
  part of. The result is None if the decoder never stops.
\<close>

section \<open>Configuration\<close>

definition JFLAC_CONTAINER_NATIVE :: jint where "JFLAC_CONTAINER_NATIVE = 0"
definition JFLAC_CONTAINER_OGG :: jint where "JFLAC_CONTAINER_OGG = 1"

definition is_valid_container :: "jint \<Rightarrow> bool" where
  "is_valid_container container \<longleftrightarrow>
     container = JFLAC_CONTAINER_NATIVE \<or> container = JFLAC_CONTAINER_OGG"

definition validate_container :: "jint \<Rightarrow> jenv \<Rightarrow> bool \<times> jenv" where
  "validate_container container e =
     (if \<not> is_valid_container container
      then (False, throw_illegal_argument_exception
              ''FLAC container code must be native or Ogg.'' e)
      else (True, e))"

definition configure_decoder_md5_checking ::
  "'d decoder_api \<Rightarrow> 'd \<Rightarrow> bool \<Rightarrow> jenv \<Rightarrow> bool \<times> 'd \<times> jenv" where
  "configure_decoder_md5_checking A d check_md5 e =
     (if \<not> check_md5 then (True, d, e)
      else
        let (ok, d1) = stream_decoder_set_md5_checking A d
        in if \<not> ok
           then (False, d1, throw_decode_exception
                   ''Failed to enable FLAC MD5 checking before decoder initialisation.'' e)
           else (True, d1, e))"

definition configure_decoder_chaining ::
  "'d decoder_api \<Rightarrow> 'd \<Rightarrow> jint \<Rightarrow> bool \<Rightarrow> jenv \<Rightarrow> bool \<times> 'd \<times> jenv" where
  "configure_decoder_chaining A d container decode_chained e =
     (if \<not> decode_chained then (True, d, e)
      else if container \<noteq> JFLAC_CONTAINER_OGG
      then (False, d, throw_illegal_argument_exception
              ''Chained decoding requires an Ogg FLAC source.'' e)
      else
        let (ok, d1) = stream_decoder_set_decode_chained_stream A d
        in if \<not> ok
           then (False, d1, throw_decode_exception
                   ''Failed to enable chained Ogg FLAC decoding before decoder initialisation.'' e)
           else (True, d1, e))"

text \<open>\<open>||\<close> of the two, as the three functions write it.\<close>

definition configure_decoder ::
  "'d decoder_api \<Rightarrow> 'd \<Rightarrow> jint \<Rightarrow> bool \<Rightarrow> bool \<Rightarrow> jenv \<Rightarrow> bool \<times> 'd \<times> jenv" where
  "configure_decoder A d container decode_chained check_md5 e =
     (let (ok, d1, e1) = configure_decoder_chaining A d container decode_chained e
      in if \<not> ok then (False, d1, e1) else configure_decoder_md5_checking A d1 check_md5 e1)"

definition init_file_decoder_for_container ::
  "'d decoder_api \<Rightarrow> 'd \<Rightarrow> string \<Rightarrow> jint \<Rightarrow> bool \<times> 'd" where
  "init_file_decoder_for_container A d filename container =
     stream_decoder_init A (FileSource filename) (container = JFLAC_CONTAINER_OGG) d"

definition init_stream_decoder_for_container ::
  "'d decoder_api \<Rightarrow> 'd \<Rightarrow> source_kind \<Rightarrow> jint \<Rightarrow> bool \<times> 'd" where
  "init_stream_decoder_for_container A d source container =
     stream_decoder_init A source (container = JFLAC_CONTAINER_OGG) d"

section \<open>Messages\<close>

definition throw_range_after_stream_exception :: "jenv \<Rightarrow> jenv" where
  "throw_range_after_stream_exception e = throw_decode_exception
     ''Requested decode range starts after the end of the FLAC stream.'' e"

definition state_suffix :: "string option \<Rightarrow> string" where
  "state_suffix state = (case state of Some s \<Rightarrow> '': '' @ s | None \<Rightarrow> [])"

definition decode_failure_message :: "string \<Rightarrow> string option \<Rightarrow> decode_context \<Rightarrow> string" where
  "decode_failure_message what state c =
     snprintf_buffer (what @ state_suffix state @
       (if saw_error c
        then '' (decoder error callback: '' @ decoder_error_status_name (first_error_status c) @ '')''
        else []) @ ''.'')"

definition copy_resolved_decoder_state :: "'d decoder_api \<Rightarrow> 'd \<Rightarrow> string" where
  "copy_resolved_decoder_state A d =
     (case stream_decoder_get_resolved_state_string A d of
        None \<Rightarrow> []
      | Some state \<Rightarrow> snprintf_buffer state)"

definition finish_and_delete :: "'d decoder_api \<Rightarrow> 'd \<Rightarrow> jenv \<Rightarrow> jenv" where
  "finish_and_delete A d e = (let (ok, d1) = stream_decoder_finish A d in delete_decoder e)"

section \<open>Positioning\<close>

datatype 'd phase = Stop jenv | Proceed 'd decode_context jenv

definition decode_seek_phase ::
  "string \<Rightarrow> (decode_context \<Rightarrow> jenv \<Rightarrow> jenv) \<Rightarrow> jvm \<Rightarrow> 'd decoder_api \<Rightarrow> jlong \<Rightarrow> 'd \<Rightarrow>
   decode_context \<Rightarrow> jenv \<Rightarrow> 'd phase" where
  "decode_seek_phase what cleanup J A first d c e =
     (let (metadata_success, d1, c1, e1) =
            run_callbacks J (stream_decoder_process_until_end_of_metadata A d) c e;
          e2 = (if \<not> exception_check e1 \<and> (\<not> metadata_success \<or> saw_error c1)
                then throw_decode_exception
                       (decode_failure_message (what @ '' failed while reading metadata'')
                          (stream_decoder_get_resolved_state_string A d1) c1) e1
                else e1)
      in if exception_check e2 \<or> \<not> metadata_success \<or> saw_error c1
         then Stop (cleanup c1 (finish_and_delete A d1 e2))
         else if decode_range_starts_after_stream c1 first
         then Stop (throw_range_after_stream_exception
                      (cleanup c1 (finish_and_delete A d1 e2)))
         else if range_complete c1 \<or> decode_range_starts_at_stream_end c1 first
         then
           let (finish_success, d2) = stream_decoder_finish A d1;
               e3 = (if \<not> exception_check e2 \<and> finish_success then java_call J OnComplete e2
                     else e2)
           in Stop (cleanup c1 (delete_decoder e3))
         else
           let (seek_success, d2, c2, e3) =
                 (if first = 0 then (True, d1, c1, e2)
                  else run_callbacks J (stream_decoder_seek_absolute A d1 first) c1 e2);
               e4 = (if \<not> exception_check e3 \<and> (\<not> seek_success \<or> saw_error c2)
                     then throw_decode_exception
                            (decode_failure_message (what @ '' failed while seeking'')
                               (stream_decoder_get_resolved_state_string A d2) c2) e3
                     else e3)
           in if exception_check e4 \<or> \<not> seek_success \<or> saw_error c2
              then Stop (cleanup c2 (finish_and_delete A d2 e4))
              else Proceed d2 c2 e4)"

section \<open>Processing\<close>

definition decode_finish_phase ::
  "string \<Rightarrow> (decode_context \<Rightarrow> jenv \<Rightarrow> jenv) \<Rightarrow> nat \<Rightarrow> jvm \<Rightarrow> 'd decoder_api \<Rightarrow> bool \<Rightarrow> 'd \<Rightarrow>
   decode_context \<Rightarrow> jenv \<Rightarrow> jenv option" where
  "decode_finish_phase what cleanup fuel J A check_md5 d c e =
     (case process_decode_stream fuel J A d c e of
        None \<Rightarrow> None
      | Some (success, d1, c1, e1) \<Rightarrow>
          let process_state = copy_resolved_decoder_state A d1;
              (finish_success, d2) = stream_decoder_finish A d1;
              state = (if process_state \<noteq> [] then Some process_state else None);
              e2 = (if \<not> exception_check e1 \<and> chained_link_md5_failed c1 \<and> check_md5
                    then throw_decode_exception
                      ''FLAC MD5 verification failed in a non-final chained Ogg link: decoded PCM does not match the STREAMINFO signature.'' e1
                    else e1);
              e3 = (if \<not> exception_check e2 \<and> \<not> success
                    then throw_decode_exception
                      (decode_failure_message (what @ '' failed'') state c1) e2
                    else e2);
              e4 = (if \<not> exception_check e3 \<and> success \<and> \<not> finish_success \<and> check_md5
                    then throw_decode_exception
                      ''FLAC MD5 verification failed: decoded PCM does not match the STREAMINFO signature.'' e3
                    else e3);
              e5 = (if \<not> exception_check e4 \<and> success \<and> \<not> finish_success
                    then throw_decode_exception (snprintf_buffer
                      (what @ '' failed while finishing'' @ state_suffix state @ ''.'')) e4
                    else e4);
              e6 = (if \<not> exception_check e5 \<and> success \<and> finish_success
                    then java_call J OnComplete e5 else e5)
          in Some (cleanup c1 (delete_decoder e6)))"

section \<open>The three sources\<close>

definition no_cleanup :: "decode_context \<Rightarrow> jenv \<Rightarrow> jenv" where
  "no_cleanup c e = e"

definition channel_cleanup :: "decode_context \<Rightarrow> jenv \<Rightarrow> jenv" where
  "channel_cleanup c e = snd (clear_decode_seekable_channel c e)"

definition decode_file_seek ::
  "jvm \<Rightarrow> 'd decoder_api \<Rightarrow> jlong \<Rightarrow> 'd \<Rightarrow> decode_context \<Rightarrow> jenv \<Rightarrow> 'd phase" where
  "decode_file_seek = decode_seek_phase ''FLAC decoding'' no_cleanup"

definition decode_file_finish ::
  "nat \<Rightarrow> jvm \<Rightarrow> 'd decoder_api \<Rightarrow> bool \<Rightarrow> 'd \<Rightarrow> decode_context \<Rightarrow> jenv \<Rightarrow> jenv option" where
  "decode_file_finish = decode_finish_phase ''FLAC decoding'' no_cleanup"

definition decode_stream_finish ::
  "nat \<Rightarrow> jvm \<Rightarrow> 'd decoder_api \<Rightarrow> bool \<Rightarrow> 'd \<Rightarrow> decode_context \<Rightarrow> jenv \<Rightarrow> jenv option" where
  "decode_stream_finish = decode_finish_phase ''FLAC stream decoding'' no_cleanup"

definition decode_channel_seek ::
  "jvm \<Rightarrow> 'd decoder_api \<Rightarrow> jlong \<Rightarrow> 'd \<Rightarrow> decode_context \<Rightarrow> jenv \<Rightarrow> 'd phase" where
  "decode_channel_seek = decode_seek_phase ''FLAC channel decoding'' channel_cleanup"

definition decode_channel_finish ::
  "nat \<Rightarrow> jvm \<Rightarrow> 'd decoder_api \<Rightarrow> bool \<Rightarrow> 'd \<Rightarrow> decode_context \<Rightarrow> jenv \<Rightarrow> jenv option" where
  "decode_channel_finish = decode_finish_phase ''FLAC channel decoding'' channel_cleanup"

definition decode_file_internal ::
  "nat \<Rightarrow> jvm \<Rightarrow> 'd decoder_api \<Rightarrow> string option \<Rightarrow> jint \<Rightarrow> bool \<Rightarrow> bool \<Rightarrow> jlong \<Rightarrow> jlong \<Rightarrow>
   jobject option \<Rightarrow> bool \<Rightarrow> bool \<Rightarrow> jenv \<Rightarrow> jenv option" where
  "decode_file_internal fuel J A path container check_md5 decode_chained first frames consumer'
     seek_before_decode limited e =
     (let (ready, e1) = flac_api_ready J e in if \<not> ready then Some e1 else
      let (valid, e2) = validate_container container e1 in if \<not> valid then Some e2 else
      if path = None \<or> consumer' = None
      then Some (throw_illegal_argument_exception
                   ''Decoder path and consumer must not be null.'' e2) else
      let (request_ok, e3) = (if seek_before_decode \<or> limited
                              then validate_decode_request first limited frames e2
                              else (True, e2)) in
      if \<not> request_ok then Some e3 else
      if decode_chained \<and> (seek_before_decode \<or> limited)
      then Some (throw_illegal_argument_exception
                   ''Chained Ogg decoding is only available for whole-stream decode.'' e3) else
      let (utf8_path, e4) = path_to_utf8 J path e3 in
      if utf8_path = None then Some e4 else
      let c0 = zero_context\<lparr>decode_chained_ogg := decode_chained\<rparr>;
          (prepared, c1, e5) = prepare_decode_context J c0 (the consumer') e4 in
      if \<not> prepared then Some e5 else
      let c2 = configure_decode_range c1 first limited frames;
          (decoder, e6) = new_decoder A e5 in
      case decoder of None \<Rightarrow> Some (throw_decode_exception ''Failed to allocate FLAC decoder.'' e6)
      | Some d \<Rightarrow>
      let (configured, d1, e7) = configure_decoder A d container decode_chained check_md5 e6 in
      if \<not> configured then Some (delete_decoder e7) else
      let (init_ok, d2) = init_file_decoder_for_container A d1 (the utf8_path) container in
      if \<not> init_ok
      then Some (throw_decode_exception ''Failed to initialize FLAC decoder.'' (delete_decoder e7))
      else if seek_before_decode \<or> limited
      then (case decode_file_seek J A first d2 c2 e7 of
              Stop e8 \<Rightarrow> Some e8
            | Proceed d3 c3 e8 \<Rightarrow> decode_file_finish fuel J A check_md5 d3 c3 e8)
      else decode_file_finish fuel J A check_md5 d2 c2 e7)"

definition decode_stream_internal ::
  "nat \<Rightarrow> jvm \<Rightarrow> 'd decoder_api \<Rightarrow> jobject option \<Rightarrow> jint \<Rightarrow> bool \<Rightarrow> bool \<Rightarrow> jobject option \<Rightarrow>
   jenv \<Rightarrow> jenv option" where
  "decode_stream_internal fuel J A stream container check_md5 decode_chained consumer' e =
     (let (ready, e1) = flac_api_ready J e in if \<not> ready then Some e1 else
      let (valid, e2) = validate_container container e1 in if \<not> valid then Some e2 else
      if stream = None \<or> consumer' = None
      then Some (throw_illegal_argument_exception
                   ''Decoder input stream and consumer must not be null.'' e2) else
      let c0 = zero_context\<lparr>decode_chained_ogg := decode_chained\<rparr>;
          (prepared, c1, e3) = prepare_decode_context J c0 (the consumer') e2 in
      if \<not> prepared then Some e3 else
      let (stream_ok, c2, e4) = prepare_decode_input_stream J c1 stream e3 in
      if \<not> stream_ok then Some e4 else
      let (decoder, e5) = new_decoder A e4 in
      case decoder of
        None \<Rightarrow> Some (throw_decode_exception ''Failed to allocate FLAC stream decoder.'' e5)
      | Some d \<Rightarrow>
      let (configured, d1, e6) = configure_decoder A d container decode_chained check_md5 e5 in
      if \<not> configured then Some (delete_decoder e6) else
      let (init_ok, d2) = init_stream_decoder_for_container A d1 StreamSource container in
      if \<not> init_ok
      then Some (throw_decode_exception ''Failed to initialize FLAC stream decoder.''
                   (delete_decoder e6))
      else decode_stream_finish fuel J A check_md5 d2 c2 e6)"

definition decode_channel_internal ::
  "nat \<Rightarrow> jvm \<Rightarrow> 'd decoder_api \<Rightarrow> jobject option \<Rightarrow> jint \<Rightarrow> bool \<Rightarrow> bool \<Rightarrow> jlong \<Rightarrow> jlong \<Rightarrow>
   jobject option \<Rightarrow> bool \<Rightarrow> bool \<Rightarrow> jenv \<Rightarrow> jenv option" where
  "decode_channel_internal fuel J A channel container check_md5 decode_chained first frames consumer'
     seek_before_decode limited e =
     (let (ready, e1) = flac_api_ready J e in if \<not> ready then Some e1 else
      let (valid, e2) = validate_container container e1 in if \<not> valid then Some e2 else
      if channel = None \<or> consumer' = None
      then Some (throw_illegal_argument_exception
                   ''Decoder seekable channel and consumer must not be null.'' e2) else
      let (request_ok, e3) = (if seek_before_decode \<or> limited
                              then validate_decode_request first limited frames e2
                              else (True, e2)) in
      if \<not> request_ok then Some e3 else
      if decode_chained \<and> (seek_before_decode \<or> limited)
      then Some (throw_illegal_argument_exception
                   ''Chained Ogg decoding is only available for whole-stream decode.'' e3) else
      let c0 = zero_context\<lparr>decode_chained_ogg := decode_chained\<rparr>;
          (prepared, c1, e4) = prepare_decode_context J c0 (the consumer') e3 in
      if \<not> prepared then Some (channel_cleanup c1 e4) else
      let (channel_ok, c2, e5) = prepare_decode_seekable_channel J c1 channel e4 in
      if \<not> channel_ok then Some (channel_cleanup c2 e5) else
      let c3 = configure_decode_range c2 first limited frames;
          (decoder, e6) = new_decoder A e5 in
      case decoder of
        None \<Rightarrow> Some (throw_decode_exception ''Failed to allocate FLAC channel decoder.''
                        (channel_cleanup c3 e6))
      | Some d \<Rightarrow>
      let (configured, d1, e7) = configure_decoder A d container decode_chained check_md5 e6 in
      if \<not> configured then Some (channel_cleanup c3 (delete_decoder e7)) else
      let (init_ok, d2) = init_stream_decoder_for_container A d1 ChannelSource container in
      if \<not> init_ok
      then Some (throw_decode_exception ''Failed to initialize FLAC channel decoder.''
                   (channel_cleanup c3 (delete_decoder e7)))
      else if seek_before_decode \<or> limited
      then (case decode_channel_seek J A first d2 c3 e7 of
              Stop e8 \<Rightarrow> Some e8
            | Proceed d3 c4 e8 \<Rightarrow> decode_channel_finish fuel J A check_md5 d3 c4 e8)
      else decode_channel_finish fuel J A check_md5 d2 c3 e7)"

section \<open>Entry points\<close>

definition JFLAC_EMIT_METADATA_CALLBACKS :: bool where "JFLAC_EMIT_METADATA_CALLBACKS = False"
definition JFLAC_SUPPRESS_METADATA_CALLBACKS :: bool where
  "JFLAC_SUPPRESS_METADATA_CALLBACKS = True"
definition JFLAC_UNLIMITED_RANGE :: bool where "JFLAC_UNLIMITED_RANGE = False"
definition JFLAC_LIMITED_RANGE :: bool where "JFLAC_LIMITED_RANGE = True"

definition decodeFile ::
  "nat \<Rightarrow> jvm \<Rightarrow> 'd decoder_api \<Rightarrow> string option \<Rightarrow> jint \<Rightarrow> bool \<Rightarrow> bool \<Rightarrow> jobject option \<Rightarrow> jenv \<Rightarrow>
   jenv option" where
  "decodeFile fuel J A path container check_md5 decode_chained consumer' e =
     decode_file_internal fuel J A path container check_md5 decode_chained 0 0 consumer'
       JFLAC_EMIT_METADATA_CALLBACKS JFLAC_UNLIMITED_RANGE e"

definition decodeStream ::
  "nat \<Rightarrow> jvm \<Rightarrow> 'd decoder_api \<Rightarrow> jobject option \<Rightarrow> jint \<Rightarrow> bool \<Rightarrow> bool \<Rightarrow> jobject option \<Rightarrow> jenv \<Rightarrow>
   jenv option" where
  "decodeStream fuel J A stream container check_md5 decode_chained consumer' e =
     decode_stream_internal fuel J A stream container check_md5 decode_chained consumer' e"

definition decodeChannel ::
  "nat \<Rightarrow> jvm \<Rightarrow> 'd decoder_api \<Rightarrow> jobject option \<Rightarrow> jint \<Rightarrow> bool \<Rightarrow> bool \<Rightarrow> jobject option \<Rightarrow> jenv \<Rightarrow>
   jenv option" where
  "decodeChannel fuel J A channel container check_md5 decode_chained consumer' e =
     decode_channel_internal fuel J A channel container check_md5 decode_chained 0 0 consumer'
       JFLAC_EMIT_METADATA_CALLBACKS JFLAC_UNLIMITED_RANGE e"

definition decodeFileFrom ::
  "nat \<Rightarrow> jvm \<Rightarrow> 'd decoder_api \<Rightarrow> string option \<Rightarrow> jint \<Rightarrow> jlong \<Rightarrow> jobject option \<Rightarrow> jenv \<Rightarrow>
   jenv option" where
  "decodeFileFrom fuel J A path container first consumer' e =
     decode_file_internal fuel J A path container False False first 0 consumer'
       JFLAC_SUPPRESS_METADATA_CALLBACKS JFLAC_UNLIMITED_RANGE e"

definition decodeChannelFrom ::
  "nat \<Rightarrow> jvm \<Rightarrow> 'd decoder_api \<Rightarrow> jobject option \<Rightarrow> jint \<Rightarrow> jlong \<Rightarrow> jobject option \<Rightarrow> jenv \<Rightarrow>
   jenv option" where
  "decodeChannelFrom fuel J A channel container first consumer' e =
     decode_channel_internal fuel J A channel container False False first 0 consumer'
       JFLAC_SUPPRESS_METADATA_CALLBACKS JFLAC_UNLIMITED_RANGE e"

definition decodeFileRange ::
  "nat \<Rightarrow> jvm \<Rightarrow> 'd decoder_api \<Rightarrow> string option \<Rightarrow> jint \<Rightarrow> jlong \<Rightarrow> jlong \<Rightarrow> jobject option \<Rightarrow>
   jenv \<Rightarrow> jenv option" where
  "decodeFileRange fuel J A path container first frames consumer' e =
     decode_file_internal fuel J A path container False False first frames consumer'
       JFLAC_SUPPRESS_METADATA_CALLBACKS JFLAC_LIMITED_RANGE e"

definition decodeChannelRange ::
  "nat \<Rightarrow> jvm \<Rightarrow> 'd decoder_api \<Rightarrow> jobject option \<Rightarrow> jint \<Rightarrow> jlong \<Rightarrow> jlong \<Rightarrow> jobject option \<Rightarrow>
   jenv \<Rightarrow> jenv option" where
  "decodeChannelRange fuel J A channel container first frames consumer' e =
     decode_channel_internal fuel J A channel container False False first frames consumer'
       JFLAC_SUPPRESS_METADATA_CALLBACKS JFLAC_LIMITED_RANGE e"

end
