(* ===== verification/Decode_Delivery.thy ===== *)
theory Decode_Delivery
  imports Decode_Oneshot
begin

text \<open>
  What reaches the Java consumer, and what a run of libFLAC may change. The PCM handed over is read
  off the call history, the decoded frames off \<open>decoded\<close>; the lemmas follow the callbacks, then the
  runs, then the processing loops, up to the frame and the delivered rows of a processed stream.
\<close>


section \<open>What the consumer received\<close>

primrec pcm_of :: "jcall list \<Rightarrow> jint list" where
  "pcm_of [] = []"
| "pcm_of (c # cs) = pcm_of cs @ (case c of OnPcmInterleaved xs n \<Rightarrow> xs | _ \<Rightarrow> [])"

primrec pcm_frames :: "jcall list \<Rightarrow> nat" where
  "pcm_frames [] = 0"
| "pcm_frames (c # cs) = pcm_frames cs + (case c of OnPcmInterleaved xs n \<Rightarrow> unat n | _ \<Rightarrow> 0)"

primrec completions :: "jcall list \<Rightarrow> nat" where
  "completions [] = 0"
| "completions (c # cs) = completions cs + (if c = OnComplete then 1 else 0)"

definition decoded_rows :: "flac_frame list \<Rightarrow> jint list list" where
  "decoded_rows frs = concat (map frame_rows frs)"

lemma decoded_rows_append: "decoded_rows (frs @ frs') = decoded_rows frs @ decoded_rows frs'"
  by (simp add: decoded_rows_def)

text \<open>The part of the decoded rows a range asks for.\<close>

definition range_rows :: "decode_context \<Rightarrow> jint list list \<Rightarrow> jint list list" where
  "range_rows c rs = (if range_limited c then take (unat (max_frames c)) rs else rs)"

section \<open>One write callback\<close>

lemma unat_ucast_u64: "unat (ucast (w :: u32) :: u64) = unat w"
  using unat_u32_less [of w] by (simp add: unsigned_ucast_eq take_bit_nat_eq_self)

lemma unat_sample_count:
  "unat (ucast (a :: u32) * ucast (b :: u32) :: u64) = unat a * unat b"
proof -
  have "unat a * unat b < 4294967296 * 4294967296"
    by (intro mult_strict_mono unat_u32_less) simp_all
  moreover have "unat (ucast a :: u64) = unat a" "unat (ucast b :: u64) = unat b"
    by (simp_all add: unat_ucast_u64)
  ultimately show ?thesis
    by (subst unat_mult_lem [THEN iffD1]) simp_all
qed

text \<open>The number of frames of a block a range still wants.\<close>

definition wanted_frames :: "decode_context \<Rightarrow> flac_frame \<Rightarrow> nat" where
  "wanted_frames c fr =
     (if range_limited c
      then min (unat (max_frames c) - unat (emitted_frames c)) (unat (fh_blocksize fr))
      else unat (fh_blocksize fr))"

lemma wanted_frames_output:
  assumes "range_limited c \<Longrightarrow> emitted_frames c \<le> max_frames c"
  shows "unat (if range_limited c \<and> max_frames c - emitted_frames c < ucast (fh_blocksize fr)
      then ucast (max_frames c - emitted_frames c) else fh_blocksize fr) = wanted_frames c fr"
proof (cases "range_limited c")
  case True
  let ?rem = "max_frames c - emitted_frames c"
  have rem: "unat ?rem = unat (max_frames c) - unat (emitted_frames c)"
    using assms True by (simp add: unat_sub)
  have lt: "?rem < ucast (fh_blocksize fr) \<longleftrightarrow> unat ?rem < unat (fh_blocksize fr)"
    by (simp add: word_less_nat_alt unat_ucast_u64)
  show ?thesis
  proof (cases "?rem < ucast (fh_blocksize fr)")
    case True
    then have "unat ?rem < 4294967296" using lt unat_u32_less [of "fh_blocksize fr"] by simp
    then have "unat (ucast ?rem :: u32) = unat ?rem" by (simp add: unsigned_ucast_eq take_bit_nat_eq_self)
    with True \<open>range_limited c\<close> lt rem show ?thesis by (simp add: wanted_frames_def)
  next
    case False
    with \<open>range_limited c\<close> lt rem show ?thesis by (auto simp: wanted_frames_def)
  qed
qed (simp add: wanted_frames_def)

text \<open>The four ways a write callback of the consumer path can end.\<close>

definition write_refused :: "decode_context \<Rightarrow> jenv \<Rightarrow> decode_context \<Rightarrow> jenv \<Rightarrow> bool" where
  "write_refused c e c1 e1 \<longleftrightarrow>
     c1 = c \<and> decoded e1 = decoded e \<and> pcm_of (calls e1) = pcm_of (calls e) \<and>
     pcm_frames (calls e1) = pcm_frames (calls e) \<and> completions (calls e1) = completions (calls e) \<and>
     same_resources e e1 \<and> (exception_check e1 \<or> e1 = e \<and> saw_error c)"

definition write_thrown :: "flac_frame \<Rightarrow> decode_context \<Rightarrow> jenv \<Rightarrow> decode_context \<Rightarrow> jenv \<Rightarrow> bool" where
  "write_thrown fr c e c1 e1 \<longleftrightarrow>
     c1 = c \<and> \<not> exception_check e \<and> exception_check e1 \<and> decoded e1 = decoded e \<and>
     pcm_frames (calls e1) = pcm_frames (calls e) + wanted_frames c fr \<and>
     completions (calls e1) = completions (calls e) \<and> same_resources e e1"

definition write_skipped :: "decode_context \<Rightarrow> jenv \<Rightarrow> decode_context \<Rightarrow> jenv \<Rightarrow> bool" where
  "write_skipped c e c1 e1 \<longleftrightarrow>
     \<not> exception_check e \<and> range_limited c \<and> emitted_frames c = max_frames c \<and>
     c1 = c\<lparr>range_complete := True\<rparr> \<and> e1 = e"

definition write_delivered ::
  "flac_frame \<Rightarrow> decode_context \<Rightarrow> jenv \<Rightarrow> decode_context \<Rightarrow> jenv \<Rightarrow> bool" where
  "write_delivered fr c e c1 e1 \<longleftrightarrow>
     \<not> exception_check e \<and> \<not> exception_check e1 \<and> decoded e1 = decoded e \<and> \<not> saw_error c \<and>
     same_resources e e1 \<and>
     completions (calls e1) = completions (calls e) \<and>
     pcm_frames (calls e1) = pcm_frames (calls e) + wanted_frames c fr \<and>
     pcm_of (calls e1) = pcm_of (calls e) @ concat (take (wanted_frames c fr) (frame_rows fr)) \<and>
     emitted_frames c1 = emitted_frames c + of_nat (wanted_frames c fr) \<and>
     (range_complete c1 \<longrightarrow> range_complete c \<or> max_frames c \<le> emitted_frames c1) \<and>
     c1 = c\<lparr>emitted_frames := emitted_frames c1, range_complete := range_complete c1\<rparr>"

lemma set_int_array_region_full:
  "length xs = n \<Longrightarrow> set_int_array_region (Some (replicate n 0)) 0 xs e = (Some xs, e)"
  by (simp add: set_int_array_region_def)

lemma write_callback_consumer:
  assumes run: "decode_write_callback J fr c e = (st, c1, e1)" and mode: "\<not> pull_mode c"
    and le: "range_limited c \<Longrightarrow> emitted_frames c \<le> max_frames c"
  shows "(st = WRITE_ABORT \<and> (write_refused c e c1 e1 \<or> write_thrown fr c e c1 e1)) \<or>
    (st = WRITE_CONTINUE \<and> (write_skipped c e c1 e1 \<or> write_delivered fr c e c1 e1))"
proof (cases "exception_check e \<or> saw_error c \<or>
    (range_limited c \<and> max_frames c - emitted_frames c = 0)")
  case True
  then consider "exception_check e" | "\<not> exception_check e" "saw_error c"
    | "\<not> exception_check e" "\<not> saw_error c" "range_limited c" "max_frames c - emitted_frames c = 0"
    by blast
  then show ?thesis
  proof cases
    case 1
    then have "decode_write_callback J fr c e = (WRITE_ABORT, c, e)"
      by (simp add: decode_write_callback_def)
    with run 1 show ?thesis by (simp add: write_refused_def)
  next
    case 2
    then have "decode_write_callback J fr c e = (WRITE_ABORT, c, e)"
      by (simp add: decode_write_callback_def)
    with run 2 show ?thesis by (simp add: write_refused_def)
  next
    case 3
    with mode have "decode_write_callback J fr c e = (WRITE_CONTINUE, c\<lparr>range_complete := True\<rparr>, e)"
      by (simp add: decode_write_callback_def Let_def)
    with run 3 show ?thesis by (simp add: write_skipped_def)
  qed
next
  case False
  let ?rem = "max_frames c - emitted_frames c"
  define out where "out = (if range_limited c \<and> ?rem < ucast (fh_blocksize fr)
    then ucast ?rem else fh_blocksize fr)"
  let ?n = "ucast (fh_channels fr) * ucast out :: u64"
  have w: "unat out = wanted_frames c fr"
    unfolding out_def by (rule wanted_frames_output [OF le])
  have n: "unat ?n = unat (fh_channels fr) * wanted_frames c fr"
    by (simp add: unat_sample_count w)
  let ?pcm = "concat (take (wanted_frames c fr) (frame_rows fr))"
  have wle: "wanted_frames c fr \<le> unat (fh_blocksize fr)" by (auto simp: wanted_frames_def)
  show ?thesis
  proof (cases "fh_channels fr = 0 \<or> out = 0 \<or> uint ?n > INT_MAX")
    case True
    then have "decode_write_callback J fr c e = (WRITE_ABORT, c, throw_decode_exception
        ''Decoded PCM frame is too large for one JVM IntArray.'' e)"
      using False mode by (auto simp: decode_write_callback_def Let_def out_def [symmetric])
    with run show ?thesis by (auto simp: write_refused_def throw_defs env_simps)
  next
    case bounded: False
    obtain ok1 e2 where a: "java_try J (NewIntArray ?n) e = (ok1, e2)" by (cases "java_try J (NewIntArray ?n) e")
    obtain ok2 e3 where m: "plain_alloc J (Malloc (4 * ?n)) e2 = (ok2, e3)"
      by (cases "plain_alloc J (Malloc (4 * ?n)) e2")
    let ?pcm' = "interleave_loop (fr_buffer fr) (fh_channels fr) out"
    let ?e4 = "java_call J (OnPcmInterleaved ?pcm' out) e3"
    have big: "unat (fh_channels fr) * unat out \<le> 4294967295"
    proof -
      have "int (unat ?n) \<le> INT_MAX" using bounded by simp
      then have "int (unat (fh_channels fr) * unat out) \<le> INT_MAX"
        by (simp only: unat_sample_count)
      then show ?thesis by linarith
    qed
    have pcm: "?pcm' = ?pcm"
      using wle by (simp add: interleave_loop_rows [OF big] frame_rows_def take_rows w)
    have len: "length ?pcm' = unat ?n"
      by (simp add: interleave_loop_rows [OF big] length_concat_rows unat_sample_count)
    have e2: "e2 = java_call J (NewIntArray ?n) e" "ok1 \<longleftrightarrow> jv_throws J (NewIntArray ?n # calls e) = None"
      using a by (auto simp: java_try_def)
    have e3: "e3 = e2\<lparr>calls := Malloc (4 * ?n) # calls e2\<rparr>" using m by (auto simp: plain_alloc_def)
    have *: "(st, c1, e1) =
      (if \<not> ok1 then (WRITE_ABORT, c, e2)
       else if \<not> ok2 then (WRITE_ABORT, c, throw_decode_exception ''Failed to allocate PCM buffer.'' e3)
       else if exception_check e3 then (WRITE_ABORT, c, e3)
       else if exception_check ?e4 then (WRITE_ABORT, c, ?e4)
       else let c1 = c\<lparr>emitted_frames := emitted_frames c + ucast out\<rparr>
            in (WRITE_CONTINUE, (if range_limited c1 \<and> emitted_frames c1 \<ge> max_frames c1
                 then c1\<lparr>range_complete := True\<rparr> else c1), ?e4))"
    proof -
      from False have f: "exception_check e = False" "saw_error c = False"
        "(range_limited c \<and> max_frames c - emitted_frames c = 0) = False" by auto
      from bounded have b: "(fh_channels fr = 0 \<or> out = 0 \<or> INT_MAX < uint ?n) = False" by auto
      show ?thesis
        unfolding run [symmetric] decode_write_callback_def Let_def out_def [symmetric] f b a m
          prod.case set_int_array_region_full [OF len] option.sel
        using mode by simp
    qed
    have out: "(ucast out :: u64) = of_nat (wanted_frames c fr)"
      by (simp add: w [symmetric])
    show ?thesis
    proof (cases "ok1 \<and> ok2 \<and> \<not> exception_check e3")
      case True
      then show ?thesis using * e2 e3 False
        by (auto simp: write_thrown_def write_delivered_def Let_def env_simps out w pcm
            same_resources_def split: if_splits)
    next
      case no: False
      then show ?thesis using * e2 e3 False
        by (auto simp: write_refused_def throw_defs env_simps same_resources_def
            exception_check_java_call split: if_splits)
    qed
  qed
qed

section \<open>The other callbacks\<close>

text \<open>An effect that delivers nothing to the consumer.\<close>

definition quiet :: "jenv \<Rightarrow> jenv \<Rightarrow> bool" where
  "quiet e e1 \<longleftrightarrow> decoded e1 = decoded e \<and> pcm_of (calls e1) = pcm_of (calls e) \<and>
     pcm_frames (calls e1) = pcm_frames (calls e) \<and> completions (calls e1) = completions (calls e) \<and>
     same_resources e e1 \<and> (exception_check e \<longrightarrow> exception_check e1)"

lemma quiet_refl [simp, intro]: "quiet e e"
  by (simp add: quiet_def)

lemma quiet_trans: "quiet e e1 \<Longrightarrow> quiet e1 e2 \<Longrightarrow> quiet e e2"
  by (auto simp: quiet_def intro: same_resources_trans)

lemma quiet_raise [intro]: "quiet e e1 \<Longrightarrow> quiet e (raise x e1)"
  by (simp add: quiet_def env_simps)

lemma quiet_throw [intro]:
  "quiet e e1 \<Longrightarrow> quiet e (throw_decode_exception m e1)"
  "quiet e e1 \<Longrightarrow> quiet e (throw_illegal_argument_exception m e1)"
  "quiet e e1 \<Longrightarrow> quiet e (throw_illegal_state_exception m e1)"
  by (simp_all add: throw_defs quiet_raise)

text \<open>A Java call that is neither of the two consumer calls counted here.\<close>

fun silent :: "jcall \<Rightarrow> bool" where
  "silent (OnPcmInterleaved xs n) = False"
| "silent OnComplete = False"
| "silent c = True"

lemma silent_counts:
  "silent c \<Longrightarrow> pcm_of (c # cs) = pcm_of cs"
  "silent c \<Longrightarrow> pcm_frames (c # cs) = pcm_frames cs"
  "silent c \<Longrightarrow> completions (c # cs) = completions cs"
  by (cases c; simp)+

lemma quiet_java_call: "silent c \<Longrightarrow> quiet e (java_call J c e)"
  by (auto simp: quiet_def env_simps silent_counts exception_check_java_call
      simp del: pcm_of.simps pcm_frames.simps completions.simps)

lemma quiet_java_call_after: "silent c \<Longrightarrow> quiet e e1 \<Longrightarrow> quiet e (java_call J c e1)"
  by (rule quiet_trans [OF _ quiet_java_call])

lemma quiet_plain_alloc: "silent c \<Longrightarrow> quiet e (snd (plain_alloc J c e))"
  by (auto simp: quiet_def env_simps silent_counts
      simp del: pcm_of.simps pcm_frames.simps completions.simps)

lemma quiet_java_seq: "list_all silent cs \<Longrightarrow> quiet e (snd (java_seq J cs e))"
proof (induction cs arbitrary: e)
  case (Cons c cs)
  then have "quiet e (java_call J c e)" "quiet (java_call J c e) (snd (java_seq J cs (java_call J c e)))"
    by (auto intro: quiet_java_call)
  then have "quiet e (snd (java_seq J cs (java_call J c e)))" by (rule quiet_trans)
  with Cons.prems show ?case by (auto simp: java_try_def intro: quiet_java_call)
qed simp

lemma quiet_java_try: "silent c \<Longrightarrow> java_try J c e = (ok, e1) \<Longrightarrow> quiet e e1"
  by (auto simp: java_try_def intro: quiet_java_call)

lemma quiet_call:
  "silent c \<Longrightarrow> call_int J c e = (r, e1) \<Longrightarrow> quiet e e1"
  "silent c \<Longrightarrow> call_long J c e = (l, e1) \<Longrightarrow> quiet e e1"
  by (auto simp: call_int_def call_long_def intro: quiet_java_call)

lemma quiet_new_direct_byte_buffer: "new_direct_byte_buffer J n e = (ok, e1) \<Longrightarrow> quiet e e1"
  by (auto simp: new_direct_byte_buffer_def Let_def intro: quiet_java_call)

lemma quiet_channel_read: "decode_channel_read_callback J c b e = (r, e1) \<Longrightarrow> quiet e e1"
  by (fastforce simp: decode_channel_read_callback_def Let_def
      split: if_splits option.splits prod.splits
      intro: quiet_trans dest: quiet_new_direct_byte_buffer quiet_call(1) [rotated])

lemma quiet_read: "decode_read_callback J c b e = (r, e1) \<Longrightarrow> quiet e e1"
  by (fastforce simp: decode_read_callback_def Let_def
      split: if_splits option.splits prod.splits
      intro: quiet_trans dest: quiet_java_try [rotated] quiet_call(1) [rotated] quiet_channel_read)

lemma quiet_seek: "decode_channel_seek_callback J c off e = (r, e1) \<Longrightarrow> quiet e e1"
  by (auto simp: decode_channel_seek_callback_def Let_def split: if_splits intro: quiet_java_call)

lemma quiet_tell: "decode_channel_tell_callback J c p e = (r, e1) \<Longrightarrow> quiet e e1"
  by (auto simp: decode_channel_tell_callback_def Let_def split: if_splits prod.splits
      dest: quiet_call(2) [rotated])

lemma quiet_length: "decode_channel_length_callback J c p e = (r, e1) \<Longrightarrow> quiet e e1"
  by (auto simp: decode_channel_length_callback_def Let_def split: if_splits prod.splits
      dest: quiet_call(2) [rotated])

lemma quiet_eof: "decode_channel_eof_callback J c e = (r, e1) \<Longrightarrow> quiet e e1"
  by (fastforce simp: decode_channel_eof_callback_def Let_def split: if_splits prod.splits
      intro: quiet_trans dest: quiet_call(2) [rotated])

lemma quiet_new_stream_info: "new_stream_info J e = (ok, e1) \<Longrightarrow> quiet e e1"
  using quiet_java_seq [of "[Jni ''PushLocalFrame'', Jni ''FindClass FlacStreamInfo'',
      GetMethodID ''<init>'', NewByteArray 16, Jni ''SetByteArrayRegion'',
      Jni ''NewObject FlacStreamInfo'']" e J]
  by (simp add: new_stream_info_def del: java_seq.simps)

lemma quiet_metadata: "decode_metadata_callback J m c e = (c1, e1) \<Longrightarrow> quiet e e1"
  by (cases m) (auto simp: decode_metadata_callback_def Let_def split: if_splits prod.splits
      intro!: quiet_java_call_after dest: quiet_new_stream_info)

text \<open>The fields a metadata callback does not write.\<close>

definition same_request :: "decode_context \<Rightarrow> decode_context \<Rightarrow> bool" where
  "same_request c c1 \<longleftrightarrow>
     range_limited c1 = range_limited c \<and> max_frames c1 = max_frames c \<and>
     first_sample c1 = first_sample c \<and> pull_mode c1 = pull_mode c \<and>
     consumer c1 = consumer c \<and> seekable_channel c1 = seekable_channel c \<and>
     input_stream c1 = input_stream c \<and> input_stream_is_global c1 = input_stream_is_global c \<and>
     decode_chained_ogg c1 = decode_chained_ogg c"

lemma same_request_refl [simp, intro]: "same_request c c"
  by (simp add: same_request_def)

lemma same_request_trans: "same_request c c1 \<Longrightarrow> same_request c1 c2 \<Longrightarrow> same_request c c2"
  by (simp add: same_request_def)

lemma metadata_fields:
  assumes "decode_metadata_callback J m c e = (c1, e1)"
  shows "same_request c c1" "emitted_frames c1 = emitted_frames c"
    "range_complete c1 = range_complete c" "saw_error c1 = saw_error c"
    "first_error_status c1 = first_error_status c"
  using assms
  by (cases m; auto simp: decode_metadata_callback_def same_request_def Let_def
      split: if_splits prod.splits)+

lemma error_fields:
  "same_request c (decode_error_callback st c)"
  "emitted_frames (decode_error_callback st c) = emitted_frames c"
  "range_complete (decode_error_callback st c) = range_complete c"
  by (simp_all add: decode_error_callback_def same_request_def)

section \<open>What every run keeps\<close>

text \<open>
  What the consumer received since the environment \<open>e0\<close>, with the frames decoded since then: as long
  as no exception is pending, exactly the rows of those frames that the range asks for; and never,
  not even when a consumer call throws, more frames than the range allows.
\<close>

definition consumer_inv :: "jenv \<Rightarrow> decode_context \<Rightarrow> decode_context \<Rightarrow> jenv \<Rightarrow> bool" where
  "consumer_inv e0 c0 c e \<longleftrightarrow>
     same_request c0 c \<and> \<not> pull_mode c \<and>
     (range_limited c \<longrightarrow> emitted_frames c \<le> max_frames c \<and>
        pcm_frames (calls e) \<le> pcm_frames (calls e0) +
          (if exception_check e then unat (max_frames c) else unat (emitted_frames c)) \<and>
        (range_complete c \<longrightarrow> emitted_frames c = max_frames c)) \<and>
     (\<exists>frs. decoded e = decoded e0 @ frs \<and>
        (\<not> exception_check e \<longrightarrow>
           pcm_of (calls e) = pcm_of (calls e0) @ concat (range_rows c (decoded_rows frs)) \<and>
           emitted_frames c = of_nat (length (range_rows c (decoded_rows frs)))))"

lemma consumer_inv_quiet:
  assumes "consumer_inv e0 c0 c e" "quiet e e1" "same_request c c1"
    "emitted_frames c1 = emitted_frames c" "range_complete c1 = range_complete c"
  shows "consumer_inv e0 c0 c1 e1"
proof -
  have "exception_check e \<longrightarrow> exception_check e1" using assms(2) by (simp add: quiet_def)
  moreover have "unat (emitted_frames c) \<le> unat (max_frames c)" if "emitted_frames c \<le> max_frames c"
    using that by (simp add: word_le_nat_alt)
  ultimately show ?thesis using assms
    unfolding consumer_inv_def quiet_def same_request_def range_rows_def
    by (auto split: if_splits)
qed

lemma unat_of_nat_u64: "n < 18446744073709551616 \<Longrightarrow> unat (of_nat n :: u64) = n"
  by (simp add: unat_of_nat)

lemma of_nat_min_unat: "of_nat (min (unat (w :: u64)) n) \<le> w"
proof -
  have "min (unat w) n \<le> unat w" by simp
  then have "unat (of_nat (min (unat w) n) :: u64) = min (unat w) n"
    using unat_u64_less [of w] by (simp add: unat_of_nat_u64)
  then show ?thesis by (simp add: word_le_nat_alt)
qed

lemma wanted_frames_zero:
  "range_limited c \<Longrightarrow> emitted_frames c = max_frames c \<Longrightarrow> wanted_frames c fr = 0"
  by (simp add: wanted_frames_def)

lemma consumer_inv_write:
  assumes inv: "consumer_inv e0 c0 c e" and run: "decode_write_callback J fr c e = (st, c1, e1)"
  shows "consumer_inv e0 c0 c1 (record_frame st fr e1)"
proof -
  have mode: "\<not> pull_mode c" and le: "range_limited c \<Longrightarrow> emitted_frames c \<le> max_frames c"
    using inv by (auto simp: consumer_inv_def)
  obtain frs where frs: "decoded e = decoded e0 @ frs"
    and ok: "\<not> exception_check e \<Longrightarrow>
      pcm_of (calls e) = pcm_of (calls e0) @ concat (range_rows c (decoded_rows frs)) \<and>
      emitted_frames c = of_nat (length (range_rows c (decoded_rows frs)))"
    using inv by (auto simp: consumer_inv_def)
  let ?rs = "decoded_rows frs" and ?max = "unat (max_frames c)"
  have emitted: "unat (emitted_frames c) = min ?max (length ?rs)"
    if "\<not> exception_check e" "range_limited c"
  proof -
    have "min ?max (length ?rs) < 18446744073709551616"
      using unat_u64_less [of "max_frames c"] by simp
    then show ?thesis using ok [OF that(1)] that(2)
      by (simp add: range_rows_def unat_of_nat_u64 min.commute)
  qed
  from write_callback_consumer [OF run mode le]
  consider "st = WRITE_ABORT" "write_refused c e c1 e1" | "st = WRITE_ABORT" "write_thrown fr c e c1 e1"
    | "st = WRITE_CONTINUE" "write_skipped c e c1 e1"
    | "st = WRITE_CONTINUE" "write_delivered fr c e c1 e1"
    by blast
  then show ?thesis
  proof cases
    case 1
    then have "quiet e e1" "c1 = c" by (auto simp: write_refused_def quiet_def)
    with consumer_inv_quiet [OF inv] 1(1) show ?thesis by (simp add: record_frame_def)
  next
    case 2
    then have "range_limited c \<Longrightarrow> wanted_frames c fr \<le> ?max - unat (emitted_frames c)"
      by (simp add: wanted_frames_def)
    with 2 inv show ?thesis
      by (auto simp: consumer_inv_def write_thrown_def record_frame_def word_le_nat_alt)
  next
    case 3
    then have c: "range_limited c" "emitted_frames c = max_frames c" "\<not> exception_check e"
      and e1: "e1 = e" "c1 = c\<lparr>range_complete := True\<rparr>"
      by (auto simp: write_skipped_def)
    have "?max \<le> length ?rs" using emitted [OF c(3,1)] c(2) by simp
    then have "range_rows c (decoded_rows (frs @ [fr])) = range_rows c ?rs"
      using c(1) by (simp add: range_rows_def decoded_rows_append)
    moreover have "range_rows (c\<lparr>range_complete := True\<rparr>) = range_rows c"
      by (simp add: range_rows_def fun_eq_iff)
    moreover have "same_request c0 (c\<lparr>range_complete := True\<rparr>)"
      using inv by (simp add: consumer_inv_def same_request_def)
    ultimately have rr: "range_rows c1 (decoded_rows (frs @ [fr])) = range_rows c ?rs"
      and req: "same_request c0 c1"
      by (simp_all add: e1)
    have R: "decoded (record_frame st fr e1) = decoded e0 @ (frs @ [fr])"
      "calls (record_frame st fr e1) = calls e"
      "exception_check (record_frame st fr e1) = exception_check e"
      using 3(1) frs by (simp_all add: record_frame_def exception_check_def e1)
    have c1s: "range_limited c1 = range_limited c" "max_frames c1 = max_frames c"
      "emitted_frames c1 = emitted_frames c" "pull_mode c1 = pull_mode c"
      by (simp_all add: e1)
    show ?thesis unfolding consumer_inv_def R rr unfolding c1s
    proof (intro conjI impI exI [of _ "frs @ [fr]"] refl)
      show "pcm_frames (calls e) \<le> pcm_frames (calls e0) +
          (if exception_check e then ?max else unat (emitted_frames c))"
        using inv c(1) by (simp add: consumer_inv_def)
    qed (use req mode le c(1,2) ok [OF c(3)] rr in simp_all)
  next
    case 4
    then have d: "\<not> exception_check e" "\<not> exception_check e1" "decoded e1 = decoded e"
      "pcm_frames (calls e1) = pcm_frames (calls e) + wanted_frames c fr"
      "pcm_of (calls e1) = pcm_of (calls e) @ concat (take (wanted_frames c fr) (frame_rows fr))"
      "emitted_frames c1 = emitted_frames c + of_nat (wanted_frames c fr)"
      "range_complete c1 \<Longrightarrow> range_complete c \<or> max_frames c \<le> emitted_frames c1"
      and c1: "c1 = c\<lparr>emitted_frames := emitted_frames c1, range_complete := range_complete c1\<rparr>"
      by (auto simp: write_delivered_def)
    have c1s: "range_limited c1 = range_limited c" "max_frames c1 = max_frames c"
      "same_request c c1" "pull_mode c1 = pull_mode c"
      by (subst c1, simp add: same_request_def)+
    have rr: "range_rows c (decoded_rows (frs @ [fr])) =
        range_rows c ?rs @ take (wanted_frames c fr) (frame_rows fr)"
    proof (cases "range_limited c")
      case True
      then show ?thesis using emitted [OF d(1) True]
        by (auto simp: range_rows_def decoded_rows_append wanted_frames_def decoded_rows_def
            min_def)
    qed (simp add: range_rows_def decoded_rows_append wanted_frames_def decoded_rows_def)
    have lw: "length (take (wanted_frames c fr) (frame_rows fr)) = wanted_frames c fr"
      by (auto simp: wanted_frames_def)
    have em: "emitted_frames c1 = of_nat (length (range_rows c (decoded_rows (frs @ [fr]))))"
      using ok [OF d(1)] lw by (simp add: rr d(6))
    have lim: "emitted_frames c1 \<le> max_frames c"
      "pcm_frames (calls e1) \<le>
        pcm_frames (calls e0) + unat (emitted_frames c1)" if l: "range_limited c"
    proof -
      show "emitted_frames c1 \<le> max_frames c"
        unfolding em using l of_nat_min_unat [of "max_frames c" "length (decoded_rows (frs @ [fr]))"]
        by (simp add: range_rows_def min.commute)
      have "unat (emitted_frames c) + wanted_frames c fr \<le> ?max"
        using le [OF l] l by (simp add: wanted_frames_def word_le_nat_alt)
      then have "unat (emitted_frames c1) = unat (emitted_frames c) + wanted_frames c fr"
        using unat_u64_less [of "max_frames c"] unfolding d(6)
        by (simp add: unat_word_ariths unat_of_nat take_bit_nat_eq_self)
      moreover have "pcm_frames (calls e) \<le> pcm_frames (calls e0) + unat (emitted_frames c)"
        using inv l d(1) by (simp add: consumer_inv_def)
      ultimately show "pcm_frames (calls e1) \<le> pcm_frames (calls e0) + unat (emitted_frames c1)"
        using d(4) by simp
    qed
    have S: "same_request c0 c1" using inv c1s(3) by (auto simp: consumer_inv_def intro: same_request_trans)
    have P: "pcm_of (calls e1) =
        pcm_of (calls e0) @ concat (range_rows c1 (decoded_rows (frs @ [fr])))"
      and E: "emitted_frames c1 = of_nat (length (range_rows c1 (decoded_rows (frs @ [fr]))))"
    proof -
      have "range_rows c1 = range_rows c" using c1s by (simp add: range_rows_def fun_eq_iff)
      then show "pcm_of (calls e1) =
          pcm_of (calls e0) @ concat (range_rows c1 (decoded_rows (frs @ [fr])))"
        "emitted_frames c1 = of_nat (length (range_rows c1 (decoded_rows (frs @ [fr]))))"
        using em rr ok [OF d(1)] d(5) by simp_all
    qed
    have R: "decoded (record_frame st fr e1) = decoded e0 @ (frs @ [fr])"
      "calls (record_frame st fr e1) = calls e1"
      "exception_check (record_frame st fr e1) = exception_check e1"
      using 4(1) d(3) frs by (simp_all add: record_frame_def exception_check_def)
    show ?thesis unfolding consumer_inv_def R
    proof (intro conjI impI exI [of _ "frs @ [fr]"] refl)
      assume "range_limited c1"
      then show "emitted_frames c1 \<le> max_frames c1"
        "pcm_frames (calls e1) \<le> pcm_frames (calls e0) +
           (if exception_check e1 then unat (max_frames c1) else unat (emitted_frames c1))"
        using lim d(2) c1s by simp_all
      assume rc: "range_complete c1"
      have l: "range_limited c" using \<open>range_limited c1\<close> c1s by simp
      have "max_frames c \<le> emitted_frames c1"
      proof (cases "range_complete c")
        case True
        with inv l have em0: "emitted_frames c = max_frames c" by (simp add: consumer_inv_def)
        then have "wanted_frames c fr = 0" by (rule wanted_frames_zero [OF l])
        with d(6) em0 show ?thesis by simp
      qed (use d(7) [OF rc] in simp)
      with lim(1) [OF l] show "emitted_frames c1 = max_frames c1" using c1s by simp
    qed (use S P E mode c1s in simp_all)
  qed
qed

lemma consumer_inv_env: "quiet e e1 \<Longrightarrow> consumer_inv e0 c0 c e \<Longrightarrow> consumer_inv e0 c0 c e1"
  by (rule consumer_inv_quiet) simp_all

lemma consumer_inv_run:
  assumes "consumer_inv e0 c0 c e" "run_callbacks J t c e = (ok, d, c', e')"
  shows "consumer_inv e0 c0 c' e'"
proof (rule run_callbacks_inv [where P = "consumer_inv e0 c0", OF assms(1) _ _ _ _ _ _ _ _ assms(2)])
  fix c e m c1 e1
  assume md: "decode_metadata_callback J m c e = (c1, e1)" and inv: "consumer_inv e0 c0 c e"
  show "consumer_inv e0 c0 c1 e1"
    by (rule consumer_inv_quiet [OF inv quiet_metadata [OF md] metadata_fields(1-3) [OF md]])
next
  fix c e st assume inv: "consumer_inv e0 c0 c e"
  show "consumer_inv e0 c0 (decode_error_callback st c) e"
    by (rule consumer_inv_quiet [OF inv quiet_refl error_fields])
next
  fix c e fr st c1 e1
  assume wr: "decode_write_callback J fr c e = (st, c1, e1)" and inv: "consumer_inv e0 c0 c e"
  show "consumer_inv e0 c0 c1 (record_frame st fr e1)" by (rule consumer_inv_write [OF inv wr])
qed (erule consumer_inv_env [rotated], erule quiet_read quiet_seek quiet_tell quiet_length quiet_eof)+

text \<open>The relation between the two ends of a run, in either mode.\<close>

definition run_frame :: "decode_context \<Rightarrow> jenv \<Rightarrow> decode_context \<Rightarrow> jenv \<Rightarrow> bool" where
  "run_frame c e c1 e1 \<longleftrightarrow>
     same_request c c1 \<and> same_resources e e1 \<and> completions (calls e1) = completions (calls e) \<and>
     (exception_check e \<longrightarrow> exception_check e1) \<and>
     (saw_error c \<longrightarrow> saw_error c1 \<and> first_error_status c1 = first_error_status c \<and>
        pcm_of (calls e1) = pcm_of (calls e) \<and> decoded e1 = decoded e)"

lemma run_frame_refl: "run_frame c e c e"
  by (simp add: run_frame_def)

lemma run_frame_trans: "run_frame c e c1 e1 \<Longrightarrow> run_frame c1 e1 c2 e2 \<Longrightarrow> run_frame c e c2 e2"
  unfolding run_frame_def by (auto intro: same_request_trans same_resources_trans)

lemma run_frame_quiet: "quiet e e1 \<Longrightarrow> run_frame c e c e1"
  by (auto simp: run_frame_def quiet_def)

lemma set_int_array_region_quiet: "set_int_array_region arr off xs e = (arr', e1) \<Longrightarrow> quiet e e1"
  by (auto simp: set_int_array_region_def split: option.splits if_splits)

lemma drain_frame:
  assumes "drain_decode_pull_pending c e = (ok, c1, e1)"
  shows "quiet e e1" "same_request c c1" "saw_error c1 = saw_error c"
    "first_error_status c1 = first_error_status c"
  using assms
  by (auto simp: drain_decode_pull_pending_def clear_decode_pull_pending_def same_request_def
      Let_def dest: set_int_array_region_quiet split: if_splits prod.splits)

lemma pull_write_frame:
  assumes "decode_pull_write_callback J fr c e = (st, c1, e1)"
  shows "quiet e e1 \<and> same_request c c1"
proof -
  have *: "quiet e e2 \<and> same_request c c2"
    if "drain_decode_pull_pending c' e' = (ok, c2, e2)" "same_request c c'" "quiet e e'"
    for c' e' ok c2 e2
    using drain_frame [OF that(1)] that(2,3) by (blast intro: quiet_trans same_request_trans)
  have alloc: "quiet e e2" if "plain_alloc J (Malloc n) e = (ok, e2)" for n ok e2
    using quiet_plain_alloc [of "Malloc n" e J] that by simp
  show ?thesis using assms
    by (auto simp: decode_pull_write_callback_def Let_def same_request_def
        split: if_splits prod.splits dest: alloc *)
qed

text \<open>The tail of the consumer path, for any number of output frames.\<close>

definition deliver_frames ::
  "jvm \<Rightarrow> flac_frame \<Rightarrow> u32 \<Rightarrow> decode_context \<Rightarrow> jenv \<Rightarrow> write_status \<times> decode_context \<times> jenv" where
  "deliver_frames J fr out c e =
     (let n = ucast (fh_channels fr) * ucast out :: u64 in
      if fh_channels fr = 0 \<or> out = 0 \<or> uint n > INT_MAX
      then (WRITE_ABORT, c, throw_decode_exception
              ''Decoded PCM frame is too large for one JVM IntArray.'' e)
      else
        let (array_ok, e1) = java_try J (NewIntArray n) e in
        if \<not> array_ok then (WRITE_ABORT, c, e1) else
        let (malloc_ok, e2) = plain_alloc J (Malloc (4 * n)) e1 in
        if \<not> malloc_ok
        then (WRITE_ABORT, c, throw_decode_exception ''Failed to allocate PCM buffer.'' e2) else
        let (samples, e3) = set_int_array_region (Some (replicate (unat n) 0)) 0
              (interleave_loop (fr_buffer fr) (fh_channels fr) out) e2 in
        if exception_check e3 then (WRITE_ABORT, c, e3) else
        let e4 = java_call J (OnPcmInterleaved (the samples) out) e3 in
        if exception_check e4 then (WRITE_ABORT, c, e4) else
        let c1 = c\<lparr>emitted_frames := emitted_frames c + ucast out\<rparr> in
        (WRITE_CONTINUE, (if range_limited c1 \<and> emitted_frames c1 \<ge> max_frames c1
           then c1\<lparr>range_complete := True\<rparr> else c1), e4))"

lemma write_callback_deliver:
  assumes "\<not> exception_check e" "\<not> saw_error c" "\<not> pull_mode c"
  shows "decode_write_callback J fr c e =
    (if range_limited c \<and> max_frames c - emitted_frames c = 0
     then (WRITE_CONTINUE, c\<lparr>range_complete := True\<rparr>, e)
     else deliver_frames J fr
       (if range_limited c \<and> max_frames c - emitted_frames c < ucast (fh_blocksize fr)
        then ucast (max_frames c - emitted_frames c) else fh_blocksize fr) c e)"
proof -
  from assms have f: "exception_check e = False" "saw_error c = False" "pull_mode c = False"
    by simp_all
  show ?thesis unfolding decode_write_callback_def deliver_frames_def f Let_def if_False ..
qed

lemma deliver_frames_frame:
  assumes "deliver_frames J fr out c e = (st, c1, e1)" "\<not> exception_check e"
  shows "same_resources e e1 \<and> completions (calls e1) = completions (calls e) \<and>
    same_request c c1"
proof -
  have arr: "same_resources e e2 \<and> completions (calls e2) = completions (calls e)"
    if "java_try J (NewIntArray n) e = (ok, e2)" for n ok e2
    using quiet_java_try [OF _ that] by (simp add: quiet_def)
  have alloc: "same_resources e2 e3 \<and> completions (calls e3) = completions (calls e2)"
    if "plain_alloc J (Malloc n) e2 = (ok, e3)" for n ok e2 e3
    using quiet_plain_alloc [of "Malloc n" e2 J] that by (simp add: quiet_def)
  have region: "same_resources e2 e3 \<and> completions (calls e3) = completions (calls e2)"
    if "set_int_array_region a off xs e2 = (r, e3)" for a off xs e2 r e3
    using set_int_array_region_quiet [OF that] by (simp add: quiet_def)
  show ?thesis using assms(1)
    by (auto simp: deliver_frames_def Let_def throw_defs env_simps same_request_def
        split: if_splits prod.splits dest!: arr alloc region intro: same_resources_trans)
qed

lemma write_frame:
  assumes "decode_write_callback J fr c e = (st, c1, e1)"
  shows "run_frame c e c1 (record_frame st fr e1)"
proof -
  have rf: "same_resources e (record_frame st fr e2) = same_resources e e2"
    "calls (record_frame st fr e2) = calls e2"
    "exception_check (record_frame st fr e2) = exception_check e2" for e2
    by (simp_all add: record_frame_def same_resources_def exception_check_def
        split: write_status.splits)
  show ?thesis
  proof (cases "exception_check e \<or> saw_error c")
    case True
    then have "decode_write_callback J fr c e = (WRITE_ABORT, c, e)"
      by (auto simp: decode_write_callback_def)
    with assms show ?thesis by (simp add: record_frame_def run_frame_refl)
  next
    case ok: False
    show ?thesis
    proof (cases "pull_mode c")
      case True
      with ok have "decode_write_callback J fr c e = decode_pull_write_callback J fr c e"
        by (simp add: decode_write_callback_def)
      with assms pull_write_frame have "quiet e e1 \<and> same_request c c1" by metis
      with ok show ?thesis by (auto simp: run_frame_def rf quiet_def)
    next
      case False
      with ok write_callback_deliver have
        "(c1 = c\<lparr>range_complete := True\<rparr> \<and> e1 = e) \<or>
         (\<exists>out. deliver_frames J fr out c e = (st, c1, e1))"
        using assms by (auto split: if_splits)
      then show ?thesis
        using ok deliver_frames_frame by (fastforce simp: run_frame_def rf same_request_def)
    qed
  qed
qed

lemma run_callbacks_frame:
  assumes "run_callbacks J t c e = (ok, d, c', e')"
  shows "run_frame c e c' e'"
proof (rule run_callbacks_rel [where R = run_frame, OF _ _ _ _ _ _ _ _ _ _ assms])
  fix c e m c1 e1
  assume a: "decode_metadata_callback J m c e = (c1, e1)"
  from quiet_metadata [OF a] metadata_fields [OF a] show "run_frame c e c1 e1"
    by (auto simp: run_frame_def quiet_def)
next
  fix c e st show "run_frame c e (decode_error_callback st c) e"
    using error_fields [where c = c and st = st]
    by (simp add: run_frame_def decode_error_callback_def)
qed (fact run_frame_refl | erule (1) run_frame_trans | erule write_frame
    | blast intro: run_frame_quiet quiet_read quiet_seek quiet_tell quiet_length quiet_eof)+

section \<open>Processing\<close>

lemma validate_chained_link_cases:
  assumes "validate_chained_link_sample_count c e = (v, e1)"
  shows "quiet e e1 \<and> (if v then e1 = e else exception_check e1)"
  using assms
  by (auto simp: validate_chained_link_sample_count_def throw_decode_exception_def Let_def
      split: if_splits)

lemma validate_physical_eof_cases:
  assumes "validate_physical_eof_sample_count c e = (v, e1)"
  shows "quiet e e1 \<and> (if v then e1 = e \<and> \<not> exception_check e else exception_check e1)"
  using assms
  by (auto simp: validate_physical_eof_sample_count_def throw_decode_exception_def
      split: if_splits)

text \<open>A relation that runs and quiet effects keep is kept by the processing loops.\<close>

lemma process_chained_links_rel:
  fixes A :: "'d decoder_api"
  assumes refl: "\<And>c e. R c e c e"
    and trans: "\<And>c0 e0 c1 e1 c2 e2. R c0 e0 c1 e1 \<Longrightarrow> R c1 e1 c2 e2 \<Longrightarrow> R c0 e0 c2 e2"
    and run: "\<And>t c e ok (d :: 'd) c1 e1. run_callbacks J t c e = (ok, d, c1, e1) \<Longrightarrow> R c e c1 e1"
    and env: "\<And>c e e1. quiet e e1 \<Longrightarrow> R c e c e1"
    and md5: "\<And>c e. R c e (c\<lparr>chained_link_md5_failed := True\<rparr>) e"
    and res: "process_chained_links n J A d c e = Some (ok, d', c', e')"
  shows "R c e c' e' \<and> (ok \<longrightarrow> \<not> saw_error c' \<and> \<not> exception_check e')"
  using res
proof (induction n arbitrary: d c e)
  case (Suc n)
  obtain ok1 d1 c1 e1 where r1: "run_callbacks J (stream_decoder_process_until_end_of_link A d) c e =
      (ok1, d1, c1, e1)"
    by (metis prod_cases4)
  obtain v e2 where v: "validate_chained_link_sample_count c1 e1 = (v, e2)"
    by (cases "validate_chained_link_sample_count c1 e1")
  obtain ok3 d3 c3 e3 where r3: "run_callbacks J (stream_decoder_finish_link A d1) c1 e2 =
      (ok3, d3, c3, e3)"
    by (metis prod_cases4)
  note R1 = run [OF r1] and V = validate_chained_link_cases [OF v] and R3 = run [OF r3]
  have r3': "run_callbacks J (stream_decoder_finish_link A d1) c1 e1 = (ok3, d3, c3, e3)" if "e2 = e1"
    using r3 that by simp
  have R2: "R c e c1 e2" by (rule trans [OF R1 env]) (use V in simp)
  have R13: "R c e c3 e3" by (rule trans [OF R2 R3])
  show ?case using Suc.prems Suc.IH [of d3 c3 e3] R1 R2 R13 V trans [OF R13] trans [OF R13 md5]
    by (auto simp: r1 v r3' Let_def split: if_splits)
qed simp

lemma process_range_rel:
  fixes A :: "'d decoder_api"
  assumes refl: "\<And>c e. R c e c e"
    and trans: "\<And>c0 e0 c1 e1 c2 e2. R c0 e0 c1 e1 \<Longrightarrow> R c1 e1 c2 e2 \<Longrightarrow> R c0 e0 c2 e2"
    and run: "\<And>t c e ok (d :: 'd) c1 e1. run_callbacks J t c e = (ok, d, c1, e1) \<Longrightarrow> R c e c1 e1"
    and env: "\<And>c e e1. quiet e e1 \<Longrightarrow> R c e c e1"
    and res: "process_range n J A d c e = Some (ok, d', c', e')"
  shows "R c e c' e' \<and>
    (ok \<and> \<not> saw_error c \<and> \<not> exception_check e \<longrightarrow> \<not> saw_error c' \<and> \<not> exception_check e') \<and>
    (ok \<longrightarrow> range_complete c' \<or> stream_decoder_get_state A d' = END_OF_STREAM \<and>
       fst (validate_physical_eof_sample_count c' e'))"
  using res
proof (induction n arbitrary: d c e)
  case (Suc n)
  obtain ok1 d1 c1 e1 where r1: "run_callbacks J (stream_decoder_process_single A d) c e =
      (ok1, d1, c1, e1)"
    by (metis prod_cases4)
  obtain v e2 where v: "validate_physical_eof_sample_count c1 e1 = (v, e2)"
    by (cases "validate_physical_eof_sample_count c1 e1")
  note R1 = run [OF r1] and V = validate_physical_eof_cases [OF v]
  have R2: "R c e c1 e2" by (rule trans [OF R1 env]) (use V in simp)
  show ?case using Suc.prems Suc.IH [of d1 c1 e1] R1 R2 V v refl trans [OF R1]
    by (auto simp: r1 Let_def split: if_splits)
qed simp

lemma process_decode_stream_rel:
  fixes A :: "'d decoder_api"
  assumes refl: "\<And>c e. R c e c e"
    and trans: "\<And>c0 e0 c1 e1 c2 e2. R c0 e0 c1 e1 \<Longrightarrow> R c1 e1 c2 e2 \<Longrightarrow> R c0 e0 c2 e2"
    and run: "\<And>t c e ok (d :: 'd) c1 e1. run_callbacks J t c e = (ok, d, c1, e1) \<Longrightarrow> R c e c1 e1"
    and env: "\<And>c e e1. quiet e e1 \<Longrightarrow> R c e c e1"
    and md5: "\<And>c e. R c e (c\<lparr>chained_link_md5_failed := True\<rparr>) e"
    and res: "process_decode_stream n J A d c e = Some (ok, d', c', e')"
  shows "R c e c' e' \<and>
    (ok \<and> \<not> saw_error c \<and> \<not> exception_check e \<longrightarrow> \<not> saw_error c' \<and> \<not> exception_check e') \<and>
    (ok \<and> range_limited c \<longrightarrow> range_complete c' \<or>
       stream_decoder_get_state A d' = END_OF_STREAM \<and>
       fst (validate_physical_eof_sample_count c' e'))"
proof (cases "range_limited c")
  case True
  with res have "process_range n J A d c e = Some (ok, d', c', e')"
    by (simp add: process_decode_stream_def)
  have "R c e c' e' \<and>
    (ok \<and> \<not> saw_error c \<and> \<not> exception_check e \<longrightarrow> \<not> saw_error c' \<and> \<not> exception_check e') \<and>
    (ok \<longrightarrow> range_complete c' \<or> stream_decoder_get_state A d' = END_OF_STREAM \<and>
       fst (validate_physical_eof_sample_count c' e'))"
    by (rule process_range_rel [where R = R, OF _ _ _ _ \<open>process_range n J A d c e = _\<close>])
      (fact refl trans run env)+
  then show ?thesis by blast
next
  case nolimit: False
  show ?thesis
  proof (cases "decode_chained_ogg c")
    case True
    with nolimit res have "process_chained_links n J A d c e = Some (ok, d', c', e')"
      by (simp add: process_decode_stream_def)
    have "R c e c' e' \<and> (ok \<longrightarrow> \<not> saw_error c' \<and> \<not> exception_check e')"
      by (rule process_chained_links_rel [where R = R, OF _ _ _ _ _
            \<open>process_chained_links n J A d c e = _\<close>]) (fact refl trans run env md5)+
    with nolimit show ?thesis by blast
  next
    case False
    obtain ok1 d1 c1 e1 where
      r1: "run_callbacks J (stream_decoder_process_until_end_of_stream A d) c e = (ok1, d1, c1, e1)"
      by (metis prod_cases4)
    obtain v e2 where v: "validate_physical_eof_sample_count c1 e1 = (v, e2)"
      by (cases "validate_physical_eof_sample_count c1 e1")
    note R1 = run [OF r1] and V = validate_physical_eof_cases [OF v]
    have R2: "R c e c1 e2" by (rule trans [OF R1 env]) (use V in simp)
    show ?thesis using res nolimit False R1 R2 V v
      by (auto simp: process_decode_stream_def r1 Let_def split: if_splits)
  qed
qed

lemma process_frame:
  assumes "process_decode_stream n J A d c e = Some (ok, d', c', e')"
  shows "run_frame c e c' e'"
    and "ok \<Longrightarrow> \<not> saw_error c \<Longrightarrow> \<not> exception_check e \<Longrightarrow> \<not> saw_error c' \<and> \<not> exception_check e'"
    and "ok \<Longrightarrow> range_limited c \<Longrightarrow> range_complete c' \<or>
       stream_decoder_get_state A d' = END_OF_STREAM \<and>
       fst (validate_physical_eof_sample_count c' e')"
proof -
  have md5: "run_frame c e (c\<lparr>chained_link_md5_failed := True\<rparr>) e" for c e
    by (simp add: run_frame_def same_request_def)
  have "run_frame c e c' e' \<and>
    (ok \<and> \<not> saw_error c \<and> \<not> exception_check e \<longrightarrow> \<not> saw_error c' \<and> \<not> exception_check e') \<and>
    (ok \<and> range_limited c \<longrightarrow> range_complete c' \<or>
       stream_decoder_get_state A d' = END_OF_STREAM \<and>
       fst (validate_physical_eof_sample_count c' e'))"
    by (rule process_decode_stream_rel [where R = run_frame, OF _ _ _ _ _ assms])
      (fact run_frame_refl run_frame_trans run_callbacks_frame run_frame_quiet md5)+
  then show "run_frame c e c' e'"
    "ok \<Longrightarrow> \<not> saw_error c \<Longrightarrow> \<not> exception_check e \<Longrightarrow> \<not> saw_error c' \<and> \<not> exception_check e'"
    "ok \<Longrightarrow> range_limited c \<Longrightarrow> range_complete c' \<or>
       stream_decoder_get_state A d' = END_OF_STREAM \<and>
       fst (validate_physical_eof_sample_count c' e')"
    by blast+
qed

lemma consumer_inv_process:
  assumes "consumer_inv e0 c0 c e" "process_decode_stream n J A d c e = Some (ok, d', c', e')"
  shows "consumer_inv e0 c0 c' e'"
proof -
  let ?R = "\<lambda>c e c' e'. consumer_inv e0 c0 c e \<longrightarrow> consumer_inv e0 c0 c' e'"
  have md5: "?R c e (c\<lparr>chained_link_md5_failed := True\<rparr>) e" for c e
    using consumer_inv_quiet [of e0 c0 c e e "c\<lparr>chained_link_md5_failed := True\<rparr>"]
    by (simp add: same_request_def)
  have refl: "?R c e c e" for c e by simp
  have trans: "?R c e c2 e2" if "?R c e c1 e1" "?R c1 e1 c2 e2" for c e c1 e1 c2 e2
    using that by blast
  have run: "?R c e c1 e1" if "run_callbacks J t c e = (ok, d :: 'a, c1, e1)" for t c e ok d c1 e1
    by (intro impI consumer_inv_run [OF _ that])
  have env: "?R c e c e1" if "quiet e e1" for c e e1
    by (intro impI consumer_inv_env [OF that])
  have "?R c e c' e' \<and>
    (ok \<and> \<not> saw_error c \<and> \<not> exception_check e \<longrightarrow> \<not> saw_error c' \<and> \<not> exception_check e') \<and>
    (ok \<and> range_limited c \<longrightarrow> range_complete c' \<or>
       stream_decoder_get_state A d' = END_OF_STREAM \<and>
       fst (validate_physical_eof_sample_count c' e'))"
    by (rule process_decode_stream_rel [where R = ?R, OF _ _ _ _ _ assms(2)])
      (fact refl trans run env md5)+
  with assms(1) show ?thesis by blast
qed

end
