(* ===== verification/Decode_Outcome.thy ===== *)
theory Decode_Outcome
  imports Decode_Delivery
begin

section \<open>Preparing and ending an operation\<close>

text \<open>An effect the consumer does not see, whatever it does to resources.\<close>

definition mute :: "jenv \<Rightarrow> jenv \<Rightarrow> bool" where
  "mute e e1 \<longleftrightarrow> decoded e1 = decoded e \<and> pcm_of (calls e1) = pcm_of (calls e) \<and>
     pcm_frames (calls e1) = pcm_frames (calls e) \<and> (exception_check e \<longrightarrow> exception_check e1)"

lemma mute_refl [simp, intro]: "mute e e"
  by (simp add: mute_def)

lemma mute_trans: "mute e e1 \<Longrightarrow> mute e1 e2 \<Longrightarrow> mute e e2"
  by (simp add: mute_def)

lemma quiet_mute: "quiet e e1 \<Longrightarrow> mute e e1"
  by (simp add: quiet_def mute_def)

lemma mute_simps [simp]:
  "mute e (raise x e1) \<longleftrightarrow> mute e (e1\<lparr>pending := Some x\<rparr>)"
  "mute e (delete_decoder e1) \<longleftrightarrow> mute e e1"
  "mute e (delete_global_ref r e1) \<longleftrightarrow> mute e e1"
  by (simp_all add: mute_def delete_decoder_def delete_global_ref_def exception_check_def env_simps)

lemma mute_throw [intro]:
  "mute e e1 \<Longrightarrow> mute e (throw_decode_exception m e1)"
  "mute e e1 \<Longrightarrow> mute e (throw_illegal_argument_exception m e1)"
  "mute e e1 \<Longrightarrow> mute e (throw_range_after_stream_exception e1)"
  by (simp_all add: mute_def throw_defs throw_range_after_stream_exception_def env_simps)

lemma mute_complete: "mute e e1 \<Longrightarrow> mute e (java_call J OnComplete e1)"
  by (auto simp: mute_def env_simps exception_check_java_call)

lemma consumer_inv_mute:
  assumes "consumer_inv e0 c0 c e" "mute e e1"
  shows "consumer_inv e0 c0 c e1"
proof -
  have "unat (emitted_frames c) \<le> unat (max_frames c)" if "emitted_frames c \<le> max_frames c"
    using that by (simp add: word_le_nat_alt)
  with assms show ?thesis unfolding consumer_inv_def mute_def by (auto split: if_splits)
qed

text \<open>The quiet preparations.\<close>

lemma quiet_flac_api_ready: "flac_api_ready J e = (ok, e1) \<Longrightarrow> quiet e e1"
  using flac_api_ready_env [of J e ok e1]
  by (auto simp: quiet_def flac_api_ready_def Let_def exception_check_def raise_def
      split: if_splits prod.splits)

lemma quiet_validate_container: "validate_container k e = (ok, e1) \<Longrightarrow> quiet e e1"
  by (auto simp: validate_container_def split: if_splits)

lemma quiet_validate_request: "validate_decode_request f l m e = (ok, e1) \<Longrightarrow> quiet e e1"
  by (auto simp: validate_decode_request_def split: if_splits)

lemma quiet_jstring_to_utf8:
  assumes "jstring_to_utf8 J v e = (r, e1)"
  shows "quiet e e1"
proof (cases v)
  case (Some bytes)
  let ?cs = "[Jni ''PushLocalFrame'', Jni ''FindClass String'', GetMethodID ''getBytes'',
    Jni ''FindClass StandardCharsets'', Jni ''GetStaticFieldID UTF_8'']"
  have s: "quiet e e2" if "java_seq J ?cs e = (ok, e2)" for ok e2
    using quiet_java_seq [of ?cs e J] that by (simp del: java_seq.simps)
  have a: "quiet e3 e4" if "plain_alloc J c e3 = (ok, e4)" "silent c" for c e3 ok e4
    using quiet_plain_alloc [of c e3 J] that by simp
  have t: "quiet e3 e4" if "java_try J (Jni x) e3 = (ok, e4)" for x e3 ok e4
    by (rule quiet_java_try [OF _ that]) simp
  from assms Some show ?thesis
    by (auto simp: jstring_to_utf8_def Let_def simp del: java_seq.simps
        split: if_splits prod.splits dest!: s t a) (metis quiet_trans)+
qed (use assms in \<open>simp add: jstring_to_utf8_def\<close>)

lemma quiet_path_to_utf8: "path_to_utf8 J v e = (r, e1) \<Longrightarrow> quiet e e1"
  by (auto simp: path_to_utf8_def Let_def split: prod.splits if_splits
      dest: quiet_jstring_to_utf8)

lemma prepare_decode_context_spec:
  assumes "prepare_decode_context J c cons e = (ok, c1, e1)"
  shows "quiet e e1" "pull_mode c1 = pull_mode c" "seekable_channel c1 = seekable_channel c"
    "input_stream c1 = input_stream c"
    "ok \<Longrightarrow> saw_error c1 = False" "ok \<Longrightarrow> emitted_frames c1 = 0"
    "ok \<Longrightarrow> range_limited c1 = False" "ok \<Longrightarrow> range_complete c1 = False"
proof -
  have a: "quiet e e4" if "plain_alloc J (GetObjectClass cons) e = (ok, e4)" for ok e4
    using quiet_plain_alloc [of "GetObjectClass cons" e J] that by simp
  have t: "quiet e3 e4" if "java_try J (GetMethodID x) e3 = (ok, e4)" for x e3 ok e4
    by (rule quiet_java_try [OF _ that]) simp
  show "quiet e e1" using assms
    by (auto simp: prepare_decode_context_def Let_def split: if_splits prod.splits
        dest!: a t intro: quiet_trans)
qed (use assms in \<open>auto simp: prepare_decode_context_def Let_def split: if_splits prod.splits\<close>)

lemma prepare_decode_input_stream_spec:
  assumes "prepare_decode_input_stream J c s e = (ok, c1, e1)"
  shows "quiet e e1" "seekable_channel c1 = seekable_channel c" "pull_mode c1 = pull_mode c"
    "emitted_frames c1 = emitted_frames c" "range_limited c1 = range_limited c"
    "saw_error c1 = saw_error c" "input_stream_is_global c1 = input_stream_is_global c"
proof -
  have a: "quiet e e4" if "plain_alloc J (GetObjectClass x) e = (ok, e4)" for x ok e4
    using quiet_plain_alloc [of "GetObjectClass x" e J] that by simp
  have t: "quiet e3 e4" if "java_try J (GetMethodID x) e3 = (ok, e4)" for x e3 ok e4
    by (rule quiet_java_try [OF _ that]) simp
  show "quiet e e1" using assms
    by (auto simp: prepare_decode_input_stream_def Let_def split: option.splits if_splits prod.splits
        dest!: a t intro: quiet_trans)
qed (use assms in \<open>auto simp: prepare_decode_input_stream_def Let_def
        split: option.splits if_splits prod.splits\<close>)

text \<open>
  A prepared channel adds one global reference, which the context holds; a failed preparation
  followed by the cleanup leaves the references as they were.
\<close>

lemma prepare_decode_seekable_channel_spec:
  assumes "prepare_decode_seekable_channel J c (Some obj) e = (ok, c1, e1)" "seekable_channel c = None"
  shows "mute e e1 \<and> live_decoders e1 = live_decoders e \<and>
    completions (calls e1) = completions (calls e) \<and>
    pull_mode c1 = pull_mode c \<and> emitted_frames c1 = emitted_frames c \<and>
    range_limited c1 = range_limited c \<and> saw_error c1 = saw_error c \<and>
    input_stream c1 = input_stream c \<and>
    (if ok then seekable_channel c1 = Some obj \<and> global_refs e1 = obj # global_refs e \<and>
        \<not> exception_check e1
     else seekable_channel c1 = None \<and> global_refs e1 = global_refs e)"
proof -
  have t: "quiet e3 e4" if "java_try J (GetMethodID x) e3 = (ok, e4)" for x e3 ok e4
    by (rule quiet_java_try [OF _ that]) simp
  have t': "quiet e3 e4" if "java_try J (Jni x) e3 = (ok, e4)" for x e3 ok e4
    by (rule quiet_java_try [OF _ that]) simp
  obtain k1 e2 where r1: "java_try J (Jni ''FindClass ReadableByteChannel'') e = (k1, e2)"
    by (metis surj_pair)
  obtain k2 e3 where r2: "java_try J (Jni ''FindClass SeekableByteChannel'') e2 = (k2, e3)"
    by (metis surj_pair)
  obtain m1 e4 where r3: "java_try J (GetMethodID ''read'') e3 = (m1, e4)" by (metis surj_pair)
  obtain m2 e5 where r4: "java_try J (GetMethodID ''position()J'') e4 = (m2, e5)"
    by (metis surj_pair)
  obtain m3 e6 where r5: "java_try J (GetMethodID ''position(J)'') e5 = (m3, e6)"
    by (metis surj_pair)
  obtain m4 e7 where r6: "java_try J (GetMethodID ''size'') e6 = (m4, e7)" by (metis surj_pair)
  note rs = r1 r2 r3 r4 r5 r6
  have q3: "quiet e e3" using t' [OF r1] t' [OF r2] by (rule quiet_trans)
  have q7: "quiet e e7"
    using q3 t [OF r3] t [OF r4] t [OF r5] t [OF r6] by (blast intro: quiet_trans)
  let ?c = "c\<lparr>channel_read := m1, channel_position := m2, channel_seek := m3, channel_size := m4\<rparr>"
  show ?thesis
  proof (cases "k1 \<and> k2 \<and> m1 \<and> m2 \<and> m3 \<and> m4")
    case False
    then have "(\<not> ok \<and> e1 = e3 \<and> c1 = c) \<or> (\<not> ok \<and> e1 = e7 \<and> c1 = ?c)"
      using assms(1) by (auto simp: prepare_decode_seekable_channel_def rs Let_def split: if_splits)
    then show ?thesis using q3 q7 assms(2)
      by (auto simp: quiet_mute) (auto simp: quiet_def same_resources_def)
  next
    case True
    obtain ref e8 where r7: "new_global_ref J obj e7 = (ref, e8)" by (metis surj_pair)
    obtain off e9 where r8: "call_long J ChannelPosition e8 = (off, e9)" by (metis surj_pair)
    have q9: "quiet e8 e9" by (rule quiet_call(2) [OF _ r8]) simp
    have g: "mute e7 e8 \<and> live_decoders e8 = live_decoders e7 \<and>
        completions (calls e8) = completions (calls e7) \<and>
        (case ref of None \<Rightarrow> global_refs e8 = global_refs e7
         | Some g \<Rightarrow> g = obj \<and> global_refs e8 = obj # global_refs e7)"
      using r7 by (auto simp: new_global_ref_def plain_alloc_def mute_def exception_check_def
          split: if_splits)
    have c8: "mute e e8" "mute e e9" using quiet_mute [OF q7] g quiet_mute [OF q9]
      by (auto intro: mute_trans)
    show ?thesis
    proof (cases ref)
      case None
      then have "\<not> ok \<and> e1 = e8 \<and> c1 = ?c\<lparr>seekable_channel := None\<rparr>"
        using assms(1) True
        by (simp add: prepare_decode_seekable_channel_def rs r7 Let_def)
      then show ?thesis using c8 g q7 None by (auto simp: quiet_def same_resources_def)
    next
      case (Some a)
      then have a: "a = obj" using g by simp
      from assms(1) True Some have
        "(ok, c1, e1) = (let c3 = ?c\<lparr>seekable_channel := Some a, channel_base_offset := off\<rparr> in
           if exception_check e9
           then (False, c3\<lparr>seekable_channel := None\<rparr>, delete_global_ref a e9)
           else if sint off < 0
           then (False, c3\<lparr>seekable_channel := None\<rparr>, throw_decode_exception
              ''SeekableByteChannel returned a negative position.'' (delete_global_ref a e9))
           else (True, c3, e9))"
        by (cases "exception_check e9"; cases "sint off < 0")
          (simp_all add: prepare_decode_seekable_channel_def rs r7 r8 Let_def
            clear_decode_seekable_channel_def)
      then show ?thesis using c8 g q7 q9 Some a
        by (auto simp: quiet_def same_resources_def Let_def delete_global_ref_def throw_defs
            env_simps mute_def exception_check_def split: if_splits)
    qed
  qed
qed

section \<open>The two phases\<close>

text \<open>What a cleanup does: it may drop global references, by \<open>rm\<close>, and nothing else.\<close>

definition good_cleanup ::
  "(jobject option \<Rightarrow> jobject list \<Rightarrow> jobject list) \<Rightarrow> (decode_context \<Rightarrow> jenv \<Rightarrow> jenv) \<Rightarrow> bool" where
  "good_cleanup rm cleanup \<longleftrightarrow> (\<forall>c e. calls (cleanup c e) = calls e \<and>
     decoded (cleanup c e) = decoded e \<and> pending (cleanup c e) = pending e \<and>
     live_decoders (cleanup c e) = live_decoders e \<and>
     global_refs (cleanup c e) = rm (seekable_channel c) (global_refs e))"

definition drop_channel :: "jobject option \<Rightarrow> jobject list \<Rightarrow> jobject list" where
  "drop_channel ch refs = (case ch of None \<Rightarrow> refs | Some x \<Rightarrow> remove1 x refs)"

lemma good_no_cleanup: "good_cleanup (\<lambda>_ refs. refs) no_cleanup"
  by (simp add: good_cleanup_def no_cleanup_def)

lemma good_channel_cleanup: "good_cleanup drop_channel channel_cleanup"
  by (simp add: good_cleanup_def channel_cleanup_def clear_decode_seekable_channel_def
      delete_global_ref_def drop_channel_def split: option.splits)

lemma good_cleanup_mute: "good_cleanup rm cleanup \<Longrightarrow> mute e (cleanup c e1) \<longleftrightarrow> mute e e1"
  by (simp add: good_cleanup_def mute_def exception_check_def)

text \<open>Whether an environment has the completion call of this operation as its last call.\<close>

definition completed :: "jenv \<Rightarrow> jenv \<Rightarrow> bool" where
  "completed e e1 \<longleftrightarrow> hd (calls e1) = OnComplete \<and>
     completions (calls e1) = Suc (completions (calls e))"

definition ended :: "(jobject option \<Rightarrow> jobject list \<Rightarrow> jobject list) \<Rightarrow> decode_context \<Rightarrow> jenv \<Rightarrow> jenv \<Rightarrow> bool" where
  "ended rm c e e1 \<longleftrightarrow> global_refs e1 = rm (seekable_channel c) (global_refs e) \<and>
     live_decoders e1 = live_decoders e - 1 \<and>
     (completions (calls e1) = completions (calls e) \<or> completed e e1)"

lemma ended_intro:
  assumes "good_cleanup rm cleanup" "same_resources e e1" "seekable_channel c1 = seekable_channel c"
    "completions (calls e1) = completions (calls e)"
  shows "ended rm c e (cleanup c1 (delete_decoder e1))"
    "ended rm c e (throw_range_after_stream_exception (cleanup c1 (delete_decoder e1)))"
    "ended rm c e (cleanup c1 (delete_decoder (java_call J OnComplete e1)))"
  using assms
  by (simp_all add: ended_def good_cleanup_def same_resources_def delete_decoder_def env_simps
      throw_defs throw_range_after_stream_exception_def completed_def)

lemma throw_frame:
  "run_frame c e c1 e1 \<Longrightarrow> run_frame c e c1 (throw_decode_exception m e1)"
  by (rule run_frame_trans [OF _ run_frame_quiet]) (assumption, rule quiet_throw, rule quiet_refl)

lemma decode_seek_phase_spec:
  assumes good: "good_cleanup rm cleanup"
    and ph: "decode_seek_phase what cleanup J A first d c e = ph"
  shows "(case ph of
      Stop e8 \<Rightarrow> ended rm c e e8 \<and>
        (\<exists>c' e'. mute e' e8 \<and> (consumer_inv e0 c0 c e \<longrightarrow> consumer_inv e0 c0 c' e'))
    | Proceed d' c' e8 \<Rightarrow> run_frame c e c' e8 \<and> \<not> saw_error c' \<and> \<not> exception_check e8 \<and>
        (consumer_inv e0 c0 c e \<longrightarrow> consumer_inv e0 c0 c' e8))"
proof -
  obtain m d1 c1 e1 where r1: "run_callbacks J (stream_decoder_process_until_end_of_metadata A d) c e
      = (m, d1, c1, e1)"
    by (metis prod_cases4)
  define e2 where "e2 = (if \<not> exception_check e1 \<and> (\<not> m \<or> saw_error c1)
    then throw_decode_exception (decode_failure_message (what @ '' failed while reading metadata'')
      (stream_decoder_get_resolved_state_string A d1) c1) e1 else e1)"
  obtain sk d2 c2 e3 where r2: "(if first = 0 then (True, d1, c1, e2)
      else run_callbacks J (stream_decoder_seek_absolute A d1 first) c1 e2) = (sk, d2, c2, e3)"
    by (metis prod_cases4)
  define e4 where "e4 = (if \<not> exception_check e3 \<and> (\<not> sk \<or> saw_error c2)
    then throw_decode_exception (decode_failure_message (what @ '' failed while seeking'')
      (stream_decoder_get_resolved_state_string A d2) c2) e3 else e3)"
  obtain fs d3 where f: "stream_decoder_finish A d1 = (fs, d3)" by (metis surj_pair)
  have f1: "run_frame c e c1 e1" by (rule run_callbacks_frame [OF r1])
  then have f2: "run_frame c e c1 e2" by (simp add: e2_def throw_frame)
  have q2: "quiet e1 e2" by (auto simp: e2_def)
  have "run_frame c1 e2 c2 e3"
    using r2 by (auto simp: run_frame_refl split: if_splits dest: run_callbacks_frame)
  with f2 have f3: "run_frame c e c2 e3" by (rule run_frame_trans)
  then have f4: "run_frame c e c2 e4" by (simp add: e4_def throw_frame)
  have q4: "quiet e3 e4" by (auto simp: e4_def)
  have i2: "consumer_inv e0 c0 c1 e2" if "consumer_inv e0 c0 c e"
    by (rule consumer_inv_env [OF q2 consumer_inv_run [OF that r1]])
  have i4: "consumer_inv e0 c0 c2 e4" if "consumer_inv e0 c0 c e"
  proof -
    have "consumer_inv e0 c0 c2 e3"
      using r2 i2 [OF that] by (auto split: if_splits dest: consumer_inv_run)
    then show ?thesis by (rule consumer_inv_env [OF q4])
  qed
  have end2: "ended rm c e (cleanup c1 (delete_decoder e2))"
    "ended rm c e (throw_range_after_stream_exception (cleanup c1 (delete_decoder e2)))"
    "ended rm c e (cleanup c1 (delete_decoder (java_call J OnComplete e2)))"
    using f2 by (auto simp: run_frame_def same_request_def intro!: ended_intro [OF good])
  have end4: "ended rm c e (cleanup c2 (delete_decoder e4))"
    using f4 by (auto simp: run_frame_def same_request_def intro!: ended_intro [OF good])
  have ph': "ph = (if exception_check e2 \<or> \<not> m \<or> saw_error c1
      then Stop (cleanup c1 (delete_decoder e2))
      else if decode_range_starts_after_stream c1 first
      then Stop (throw_range_after_stream_exception (cleanup c1 (delete_decoder e2)))
      else if range_complete c1 \<or> decode_range_starts_at_stream_end c1 first
      then Stop (cleanup c1 (delete_decoder
        (if \<not> exception_check e2 \<and> fs then java_call J OnComplete e2 else e2)))
      else if exception_check e4 \<or> \<not> sk \<or> saw_error c2
      then Stop (cleanup c2 (delete_decoder e4)) else Proceed d2 c2 e4)"
    unfolding ph [symmetric] decode_seek_phase_def Let_def r1 prod.case e2_def [symmetric] f r2
      e4_def [symmetric] finish_and_delete_def
    by (simp add: split_beta)
  have mu: "mute e2 (cleanup c1 (delete_decoder e2))"
    "mute e2 (throw_range_after_stream_exception (cleanup c1 (delete_decoder e2)))"
    "mute e2 (cleanup c1 (delete_decoder (java_call J OnComplete e2)))"
    "mute e4 (cleanup c2 (delete_decoder e4))"
    by (auto simp: good_cleanup_mute [OF good] mute_complete)
  show ?thesis
  proof (cases ph)
    case (Stop e8)
    then have "(\<exists>e'. mute e' e8 \<and> e' = e2) \<or> (\<exists>e'. mute e' e8 \<and> e' = e4)" and "ended rm c e e8"
      using ph' end2 end4 mu by (auto split: if_splits)
    with Stop i2 i4 show ?thesis by auto
  next
    case (Proceed d' c' e8)
    then show ?thesis using ph' f4 i4 by (auto split: if_splits)
  qed
qed

lemma decode_finish_phase_spec:
  assumes good: "good_cleanup rm cleanup"
    and ph: "decode_finish_phase what cleanup fuel J A check_md5 d c e = Some e8"
  shows "ended rm c e e8 \<and> (exception_check e8 \<or> completed e e8) \<and>
    (\<exists>ok d' c' e' e1. process_decode_stream fuel J A d c e = Some (ok, d', c', e') \<and> mute e' e8 \<and>
       (consumer_inv e0 c0 c e \<longrightarrow> consumer_inv e0 c0 c' e') \<and>
       (\<not> exception_check e8 \<longrightarrow> ok))"
proof -
  obtain ok d1 c1 e1 where p: "process_decode_stream fuel J A d c e = Some (ok, d1, c1, e1)"
    using ph by (auto simp: decode_finish_phase_def Let_def split: option.splits prod.splits)
  obtain fs d2 where f: "stream_decoder_finish A d1 = (fs, d2)" by (metis surj_pair)
  have f1: "run_frame c e c1 e1" by (rule process_frame(1) [OF p])
  define st where "st = (if copy_resolved_decoder_state A d1 \<noteq> []
    then Some (copy_resolved_decoder_state A d1) else None)"
  define e2 where "e2 = (if \<not> exception_check e1 \<and> chained_link_md5_failed c1 \<and> check_md5
    then throw_decode_exception ''FLAC MD5 verification failed in a non-final chained Ogg link: decoded PCM does not match the STREAMINFO signature.'' e1 else e1)"
  define e3 where "e3 = (if \<not> exception_check e2 \<and> \<not> ok
    then throw_decode_exception (decode_failure_message (what @ '' failed'') st c1) e2 else e2)"
  define e4 where "e4 = (if \<not> exception_check e3 \<and> ok \<and> \<not> fs \<and> check_md5
    then throw_decode_exception ''FLAC MD5 verification failed: decoded PCM does not match the STREAMINFO signature.'' e3 else e3)"
  define e5 where "e5 = (if \<not> exception_check e4 \<and> ok \<and> \<not> fs
    then throw_decode_exception (snprintf_buffer
      (what @ '' failed while finishing'' @ state_suffix st @ ''.'')) e4 else e4)"
  have e8: "e8 = cleanup c1 (delete_decoder
      (if \<not> exception_check e5 \<and> ok \<and> fs then java_call J OnComplete e5 else e5))"
    using ph unfolding decode_finish_phase_def p option.case prod.case Let_def f
      st_def [symmetric] e2_def [symmetric] e3_def [symmetric] e4_def [symmetric] e5_def [symmetric]
    by simp
  have q12: "quiet e1 e2" and q23: "quiet e2 e3" and q34: "quiet e3 e4" and q45: "quiet e4 e5"
    by (auto simp: e2_def e3_def e4_def e5_def)
  have q: "quiet e1 e5" by (rule quiet_trans [OF q12 quiet_trans [OF q23 quiet_trans [OF q34 q45]]])
  have "\<not> ok \<Longrightarrow> exception_check e3" by (simp add: e3_def throw_decode_exception_def)
  moreover have "exception_check e3 \<Longrightarrow> exception_check e5" using q34 q45 by (simp add: quiet_def)
  moreover have "ok \<Longrightarrow> \<not> fs \<Longrightarrow> exception_check e5"
    by (simp add: e5_def throw_decode_exception_def)
  ultimately have fail: "\<not> ok \<or> \<not> fs \<Longrightarrow> exception_check e5" by blast
  have f5: "run_frame c e c1 e5" by (rule run_frame_trans [OF f1 run_frame_quiet [OF q]])
  have pend: "exception_check (cleanup c1 (delete_decoder e')) = exception_check e'" for e'
    using good by (simp add: good_cleanup_def exception_check_def delete_decoder_def)
  have "ended rm c e e8"
    unfolding e8 using f5 by (auto simp: run_frame_def same_request_def intro!: ended_intro [OF good])
  moreover have "exception_check e8 \<or> completed e e8"
    using fail f5 good unfolding e8 pend
    by (auto simp: completed_def run_frame_def good_cleanup_def delete_decoder_def env_simps)
  moreover have "mute e1 e8"
    unfolding e8 using quiet_mute [OF q]
    by (simp add: good_cleanup_mute [OF good] mute_complete)
  moreover have "\<not> exception_check e8 \<longrightarrow> ok"
    using fail unfolding e8 pend by auto
  ultimately show ?thesis using p consumer_inv_process [OF _ p] by blast
qed


section \<open>Positioning followed by processing\<close>

definition decode_tail ::
  "string \<Rightarrow> (decode_context \<Rightarrow> jenv \<Rightarrow> jenv) \<Rightarrow> nat \<Rightarrow> jvm \<Rightarrow> 'd decoder_api \<Rightarrow> bool \<Rightarrow> jlong \<Rightarrow>
   bool \<Rightarrow> 'd \<Rightarrow> decode_context \<Rightarrow> jenv \<Rightarrow> jenv option" where
  "decode_tail what cleanup fuel J A seek first check_md5 d c e =
     (if seek
      then (case decode_seek_phase what cleanup J A first d c e of
              Stop e8 \<Rightarrow> Some e8
            | Proceed d3 c3 e8 \<Rightarrow> decode_finish_phase what cleanup fuel J A check_md5 d3 c3 e8)
      else decode_finish_phase what cleanup fuel J A check_md5 d c e)"

lemma ended_after_run:
  assumes "run_frame c e c1 e1" "ended rm c1 e1 e2"
  shows "ended rm c e e2"
  using assms
  by (auto simp: run_frame_def ended_def same_request_def same_resources_def completed_def)

lemma decode_tail_spec:
  assumes good: "good_cleanup rm cleanup"
    and tail: "decode_tail what cleanup fuel J A seek first check_md5 d c e = Some e8"
    and inv: "consumer_inv e0 c0 c e"
  shows "ended rm c e e8 \<and> (\<exists>c' e'. mute e' e8 \<and> consumer_inv e0 c0 c' e') \<and>
    (\<not> seek \<longrightarrow> exception_check e8 \<or> completed e e8)"
proof (cases seek)
  case False
  with tail have "decode_finish_phase what cleanup fuel J A check_md5 d c e = Some e8"
    by (simp add: decode_tail_def)
  from decode_finish_phase_spec [OF good this, where ?e0.0 = e0 and ?c0.0 = c0] inv
  show ?thesis by auto
next
  case True
  note S = decode_seek_phase_spec [OF good refl, where ?e0.0 = e0 and ?c0.0 = c0 and what = what
      and J = J and A = A and first = first and d = d and c = c and e = e]
  show ?thesis
  proof (cases "decode_seek_phase what cleanup J A first d c e")
    case (Stop e9)
    then have "e9 = e8" using tail True by (simp add: decode_tail_def)
    with S Stop inv True show ?thesis by auto
  next
    case (Proceed d3 c3 e9)
    then have f: "decode_finish_phase what cleanup fuel J A check_md5 d3 c3 e9 = Some e8"
      using tail True by (simp add: decode_tail_def)
    have p: "run_frame c e c3 e9" "consumer_inv e0 c0 c3 e9"
      using S Proceed inv by auto
    from decode_finish_phase_spec [OF good f, where ?e0.0 = e0 and ?c0.0 = c0] p True
    show ?thesis by (auto intro: ended_after_run)
  qed
qed

section \<open>Whole one-shot operations\<close>

text \<open>
  What a one-shot decode may have done when it returns: nothing is left allocated, the consumer was
  told of completion at most once and then as the last call, and what it received is the consumer
  invariant of the range.
\<close>

definition oneshot_done :: "bool \<Rightarrow> jlong \<Rightarrow> bool \<Rightarrow> jenv \<Rightarrow> jenv \<Rightarrow> bool" where
  "oneshot_done limited frames seek e e8 \<longleftrightarrow>
     global_refs e8 = global_refs e \<and> live_decoders e8 = live_decoders e \<and>
     (completions (calls e8) = completions (calls e) \<or> completed e e8) \<and>
     (\<not> seek \<longrightarrow> exception_check e8 \<or> completed e e8) \<and>
     (\<exists>c0 c' e'. range_limited c0 = limited \<and> (limited \<longrightarrow> max_frames c0 = frames) \<and>
        mute e' e8 \<and> consumer_inv e c0 c' e')"

lemma consumer_inv_start:
  "\<not> pull_mode c \<Longrightarrow> emitted_frames c = 0 \<Longrightarrow>
   (range_limited c \<Longrightarrow> range_complete c \<Longrightarrow> max_frames c = 0) \<Longrightarrow> consumer_inv e c c e"
  by (simp add: consumer_inv_def range_rows_def decoded_rows_def)

lemma configured_inv:
  assumes "\<not> pull_mode c" "quiet e e1"
  shows "consumer_inv e (configure_decode_range c first limited frames)
    (configure_decode_range c first limited frames) e1"
  by (rule consumer_inv_env [OF assms(2) consumer_inv_start])
    (use assms(1) in \<open>simp_all add: configure_decode_range_def\<close>)

lemma oneshot_quiet:
  assumes "quiet e e8" "\<not> seek \<Longrightarrow> exception_check e8"
  shows "oneshot_done limited frames seek e e8"
proof -
  have "consumer_inv e (configure_decode_range zero_context 0 limited frames)
    (configure_decode_range zero_context 0 limited frames) e8"
    by (rule configured_inv [OF _ assms(1)]) (simp add: zero_context_def)
  then have "\<exists>c0 c' e'. range_limited c0 = limited \<and> (limited \<longrightarrow> max_frames c0 = frames) \<and>
        mute e' e8 \<and> consumer_inv e c0 c' e'"
    by (intro exI [of _ "configure_decode_range zero_context 0 limited frames"] exI [of _ e8])
      (simp add: configure_decode_range_def)
  then show ?thesis
    using assms by (auto simp: oneshot_done_def quiet_def same_resources_def)
qed


text \<open>A failed preparation leaves an exception, if JNI gives every object a class.\<close>

definition classes_found :: "jvm \<Rightarrow> bool" where
  "classes_found J \<longleftrightarrow> (\<forall>x cs. jv_alloc J (GetObjectClass x # cs))"

lemma java_try_failed: "java_try J c e = (ok, e1) \<Longrightarrow> \<not> ok \<Longrightarrow> exception_check e1"
  by (auto simp: java_try_def exception_check_java_call)

lemma java_try_keeps: "java_try J c e = (ok, e1) \<Longrightarrow> exception_check e \<Longrightarrow> exception_check e1"
  by (auto simp: java_try_def exception_check_java_call)

lemma prepare_decode_context_failed:
  assumes "prepare_decode_context J c cons e = (False, c1, e1)" "classes_found J"
  shows "exception_check e1"
proof -
  obtain m1 m2 m3 e2 e3 e4 where r: "plain_alloc J (GetObjectClass cons) e = (True, e2)"
    "java_try J (GetMethodID ''onStreamInfo'') e2 = (m1, e3)"
    "java_try J (GetMethodID ''onPcmInterleaved'') e3 = (m2, e4)"
    "java_try J (GetMethodID ''onComplete'') e4 = (m3, e1)" "\<not> (m1 \<and> m2 \<and> m3)"
    using assms by (auto simp: prepare_decode_context_def plain_alloc_def classes_found_def
        split: prod.splits)
  then show ?thesis by (metis java_try_failed java_try_keeps)
qed

lemma prepare_decode_input_stream_failed:
  assumes "prepare_decode_input_stream J c s e = (False, c1, e1)" "classes_found J"
  shows "exception_check e1"
  using assms
  by (auto simp: prepare_decode_input_stream_def plain_alloc_def classes_found_def throw_defs
      split: option.splits prod.splits if_splits dest: java_try_failed)

lemma path_to_utf8_failed: "path_to_utf8 J p e = (None, e1) \<Longrightarrow> exception_check e1"
  by (auto simp: path_to_utf8_def throw_defs split: prod.splits if_splits)

lemma configure_decoder_cases:
  assumes "configure_decoder A d k chained md5 e = (ok, d1, e1)"
  shows "quiet e e1 \<and> (if ok then e1 = e else exception_check e1)"
  using assms
  by (auto simp: configure_decoder_def configure_decoder_chaining_def throw_defs
      configure_decoder_md5_checking_def Let_def split: if_splits prod.splits)

lemma new_decoder_cases:
  "new_decoder A e = (None, e1) \<Longrightarrow> e1 = e"
  "new_decoder A e = (Some d, e1) \<Longrightarrow> e1 = e\<lparr>live_decoders := live_decoders e + 1\<rparr>"
  by (auto simp: new_decoder_def split: option.splits)

lemma oneshot_after_quiet:
  assumes "quiet e e1" "oneshot_done limited frames seek e1 e8"
  shows "oneshot_done limited frames seek e e8"
proof -
  from assms(2) obtain c0 c' e' where c: "range_limited c0 = limited"
    "limited \<longrightarrow> max_frames c0 = frames" "mute e' e8" "consumer_inv e1 c0 c' e'"
    by (auto simp: oneshot_done_def)
  from assms(1) c(4) have "consumer_inv e c0 c' e'"
    by (auto simp: consumer_inv_def quiet_def)
  with c assms show ?thesis
    by (auto simp: oneshot_done_def quiet_def same_resources_def completed_def)
qed

text \<open>
  From the point where the source is ready: allocation, configuration, initialisation and the two
  phases, for the three sources. \<open>held\<close> is the global reference the source keeps.
\<close>

lemma oneshot_tail:
  assumes good: "good_cleanup rm cleanup"
    and tail: "decode_tail what cleanup fuel J A seek first check_md5 d c e1 = Some e8"
    and inv: "consumer_inv e c c e1" and lim: "range_limited c = limited"
    "limited \<longrightarrow> max_frames c = frames"
    and res: "rm (seekable_channel c) (global_refs e1) = global_refs e"
    "live_decoders e1 = live_decoders e + 1"
    "completions (calls e1) = completions (calls e)"
  shows "oneshot_done limited frames seek e e8"
proof -
  note T = decode_tail_spec [OF good tail inv]
  then show ?thesis using lim res
    by (auto simp: oneshot_done_def ended_def completed_def)
qed

end
