(* ===== verification/Decode_Operations.thy ===== *)
theory Decode_Operations
  imports Decode_Outcome
begin

text \<open>
  The one-shot operations as a whole: \<open>decode_file_internal\<close>, \<open>decode_stream_internal\<close> and
  \<open>decode_channel_internal\<close> from the entry to the return. Each ends in \<open>oneshot_done\<close>; the properties
  are read off it.
\<close>

section \<open>From the entry to the return\<close>

lemma range_context:
  "seekable_channel (configure_decode_range c first limited frames) = seekable_channel c"
  "range_limited (configure_decode_range c first limited frames) = limited"
  "limited \<Longrightarrow> max_frames (configure_decode_range c first limited frames) = frames"
  "pull_mode (configure_decode_range c first limited frames) = pull_mode c"
  by (simp_all add: configure_decode_range_def)

lemma zero_chained:
  "seekable_channel (zero_context\<lparr>decode_chained_ogg := b\<rparr>) = None"
  "pull_mode (zero_context\<lparr>decode_chained_ogg := b\<rparr>) = False"
  "input_stream_is_global (zero_context\<lparr>decode_chained_ogg := b\<rparr>) = False"
  by (simp_all add: zero_context_def)

lemma mute_pending: "mute e e1 \<Longrightarrow> mute e (e1\<lparr>pending := Some x\<rparr>)"
  by (simp add: mute_def exception_check_def)

text \<open>
  From the point where a decoder is allocated, for each of the sources: the configuration may fail,
  the initialisation may fail, or the two phases run.
\<close>

lemma oneshot_configured:
  assumes good: "good_cleanup rm cleanup"
    and conf: "configure_decoder A d k chained md5 e6 = (ok7, d1, e7)"
    and res: "(\<not> ok7 \<and> e8 = cleanup c (delete_decoder e7)) \<or>
      (ok7 \<and> (\<exists>m. e8 = throw_decode_exception m (cleanup c (delete_decoder e7)))) \<or>
      (ok7 \<and> decode_tail what cleanup fuel J A seek first md5 d2 c e7 = Some e8)"
    and start: "consumer_inv e c c e6" "range_limited c = limited" "limited \<Longrightarrow> max_frames c = frames"
      "rm (seekable_channel c) (global_refs e6) = global_refs e"
      "live_decoders e6 = live_decoders e + 1"
      "completions (calls e6) = completions (calls e)"
  shows "oneshot_done limited frames seek e e8"
proof -
  note C = configure_decoder_cases [OF conf]
  show ?thesis
  proof (cases "ok7 \<and> decode_tail what cleanup fuel J A seek first md5 d2 c e7 = Some e8")
    case True
    then have "e7 = e6" using C by simp
    with True start show ?thesis by (auto intro!: oneshot_tail [OF good])
  next
    case False
    let ?e = "cleanup c (delete_decoder e7)"
    have m: "mute e7 ?e" by (simp add: good_cleanup_mute [OF good])
    have inv: "consumer_inv e c c e7"
      by (rule consumer_inv_env [OF _ start(1)]) (use C in simp)
    have "global_refs ?e = global_refs e \<and> live_decoders ?e = live_decoders e \<and>
        completions (calls ?e) = completions (calls e)"
      using good C start(4-6)
      by (simp add: good_cleanup_def delete_decoder_def quiet_def same_resources_def)
    moreover have "e8 = ?e \<and> \<not> ok7 \<or> (\<exists>m. e8 = throw_decode_exception m ?e)"
      using res False by blast
    moreover have "exception_check ?e" if "\<not> ok7"
      using C that good by (simp add: good_cleanup_def exception_check_def delete_decoder_def)
    ultimately show ?thesis using inv m start(2,3)
      by (auto simp: oneshot_done_def throw_defs env_simps
          intro!: exI [of _ c] exI [of _ e7] mute_pending)
  qed
qed

lemma file_tail:
  "(if seek \<or> limited
    then (case decode_file_seek J A first d c e of
            Stop e8 \<Rightarrow> Some e8
          | Proceed d3 c3 e8 \<Rightarrow> decode_file_finish fuel J A check_md5 d3 c3 e8)
    else decode_file_finish fuel J A check_md5 d c e) =
   decode_tail ''FLAC decoding'' no_cleanup fuel J A (seek \<or> limited) first check_md5 d c e"
  unfolding decode_tail_def decode_file_seek_def decode_file_finish_def ..

lemma channel_tail:
  "(if seek \<or> limited
    then (case decode_channel_seek J A first d c e of
            Stop e8 \<Rightarrow> Some e8
          | Proceed d3 c3 e8 \<Rightarrow> decode_channel_finish fuel J A check_md5 d3 c3 e8)
    else decode_channel_finish fuel J A check_md5 d c e) =
   decode_tail ''FLAC channel decoding'' channel_cleanup fuel J A (seek \<or> limited) first check_md5
     d c e"
  unfolding decode_tail_def decode_channel_seek_def decode_channel_finish_def ..

lemma stream_tail:
  "decode_stream_finish fuel J A check_md5 d c e =
   decode_tail ''FLAC stream decoding'' no_cleanup fuel J A False 0 check_md5 d c e"
  by (simp add: decode_tail_def decode_stream_finish_def)

lemma oneshot_done_weaken: "oneshot_done l f s e e8 \<Longrightarrow> (s \<Longrightarrow> s') \<Longrightarrow> oneshot_done l f s' e e8"
  by (auto simp: oneshot_done_def)

lemma inv_new_decoder:
  "consumer_inv e0 c0 c e \<Longrightarrow> consumer_inv e0 c0 c (e\<lparr>live_decoders := n\<rparr>)"
  by (erule consumer_inv_mute) (simp add: mute_def exception_check_def)

lemma decode_file_internal_done:
  assumes res: "decode_file_internal fuel J A path k md5 chained first frames cons seek limited e = Some e8"
  shows "oneshot_done limited frames (seek \<or> limited \<or> \<not> classes_found J) e e8"
proof -
  obtain ready e1 where r1: "flac_api_ready J e = (ready, e1)" by (metis surj_pair)
  obtain valid e2 where r2: "validate_container k e1 = (valid, e2)" by (metis surj_pair)
  obtain ok3 e3 where r3: "(if seek \<or> limited then validate_decode_request first limited frames e2
      else (True, e2)) = (ok3, e3)" by (metis surj_pair)
  obtain utf8 e4 where r4: "path_to_utf8 J path e3 = (utf8, e4)" by (metis surj_pair)
  let ?c0 = "zero_context\<lparr>decode_chained_ogg := chained\<rparr>"
  obtain ok5 c1 e5 where r5: "prepare_decode_context J ?c0 (the cons) e4 = (ok5, c1, e5)"
    by (metis prod_cases3)
  let ?c2 = "configure_decode_range c1 first limited frames"
  obtain dec e6 where r6: "new_decoder A e5 = (dec, e6)" by (metis surj_pair)
  have q1: "quiet e e1" by (rule quiet_flac_api_ready [OF r1])
  have q2: "quiet e e2" by (rule quiet_trans [OF q1 quiet_validate_container [OF r2]])
  have q3: "quiet e e3"
    by (rule quiet_trans [OF q2]) (use r3 in \<open>auto dest: quiet_validate_request split: if_splits\<close>)
  have q4: "quiet e e4" by (rule quiet_trans [OF q3 quiet_path_to_utf8 [OF r4]])
  have q5: "quiet e e5" by (rule quiet_trans [OF q4 prepare_decode_context_spec(1) [OF r5]])
  have q6: "quiet e e6" if "dec = None"
    using q5 new_decoder_cases(1) [OF r6 [unfolded that]] by simp
  have x1: "exception_check e1" if "\<not> ready"
    using flac_api_ready_env [OF r1] that by simp
  have x2: "exception_check e2" if "\<not> valid"
    using r2 that by (auto simp: validate_container_def throw_defs split: if_splits)
  have x4: "exception_check e4" if "utf8 = None"
    using path_to_utf8_failed r4 that by simp
  have x5: "exception_check e5" if "\<not> ok5" "classes_found J"
    using prepare_decode_context_failed r5 that by simp
  note res' = res [unfolded decode_file_internal_def Let_def r1 r2 r3 r4 r5 r6 prod.case]
  have o3: "seek \<or> limited" if "\<not> ok3" using r3 that by (simp split: if_splits)
  show ?thesis
  proof (cases "ready \<and> valid \<and> path \<noteq> None \<and> cons \<noteq> None \<and> ok3 \<and>
      \<not> (chained \<and> (seek \<or> limited)) \<and> utf8 \<noteq> None \<and> ok5 \<and> dec \<noteq> None")
    case False
    have "(\<not> ready \<and> e8 = e1) \<or> (\<not> valid \<and> e8 = e2) \<or>
      (\<exists>m. e8 = throw_illegal_argument_exception m e2) \<or> (seek \<or> limited) \<and> e8 = e3 \<or>
      (\<exists>m. e8 = throw_illegal_argument_exception m e3) \<or> (utf8 = None \<and> e8 = e4) \<or>
      (\<not> ok5 \<and> e8 = e5) \<or> (dec = None \<and> (\<exists>m. e8 = throw_decode_exception m e6))"
      using res' False o3 by (auto split: if_splits)
    then show ?thesis
      by (elim disjE conjE exE)
        (use q1 q2 q3 q4 q5 q6 x1 x2 x4 x5 in \<open>auto simp: throw_defs intro!: oneshot_quiet\<close>)
  next
    case True
    then obtain d where d: "dec = Some d" by blast
    obtain ok7 d1 e7 where r7: "configure_decoder A d k chained md5 e6 = (ok7, d1, e7)"
      by (metis prod_cases3)
    obtain ok8 d2 where r8: "init_file_decoder_for_container A d1 (the utf8) k = (ok8, d2)"
      by (metis surj_pair)
    have e6: "e6 = e5\<lparr>live_decoders := live_decoders e5 + 1\<rparr>"
      using new_decoder_cases(2) r6 d by simp
    have c1: "\<not> pull_mode c1" using prepare_decode_context_spec(2) [OF r5] zero_chained by simp
    have "oneshot_done limited frames (seek \<or> limited) e e8"
    proof (rule oneshot_configured [OF good_no_cleanup r7, where c = "?c2" and limited = limited
          and frames = frames])
      show "\<not> ok7 \<and> e8 = no_cleanup ?c2 (delete_decoder e7) \<or>
        ok7 \<and> (\<exists>m. e8 = throw_decode_exception m (no_cleanup ?c2 (delete_decoder e7))) \<or>
        ok7 \<and> decode_tail ''FLAC decoding'' no_cleanup fuel J A (seek \<or> limited) first md5 d2 ?c2
          e7 = Some e8"
        using res' [unfolded d option.case r7 prod.case r8 file_tail] True
        by (auto simp: no_cleanup_def split: if_splits)
      show "consumer_inv e ?c2 ?c2 e6"
        unfolding e6 by (rule inv_new_decoder [OF configured_inv [OF c1 q5]])
    qed (use q5 in \<open>simp_all add: range_context e6 quiet_def same_resources_def\<close>)
    then show ?thesis by (rule oneshot_done_weaken) blast
  qed
qed

lemma decode_stream_internal_done:
  assumes res: "decode_stream_internal fuel J A stream k md5 chained cons e = Some e8"
  shows "oneshot_done False 0 (\<not> classes_found J) e e8"
proof -
  obtain ready e1 where r1: "flac_api_ready J e = (ready, e1)" by (metis surj_pair)
  obtain valid e2 where r2: "validate_container k e1 = (valid, e2)" by (metis surj_pair)
  let ?c0 = "zero_context\<lparr>decode_chained_ogg := chained\<rparr>"
  obtain ok3 c1 e3 where r3: "prepare_decode_context J ?c0 (the cons) e2 = (ok3, c1, e3)"
    by (metis prod_cases3)
  obtain ok4 c2 e4 where r4: "prepare_decode_input_stream J c1 stream e3 = (ok4, c2, e4)"
    by (metis prod_cases3)
  obtain dec e5 where r5: "new_decoder A e4 = (dec, e5)" by (metis surj_pair)
  have q1: "quiet e e1" by (rule quiet_flac_api_ready [OF r1])
  have q2: "quiet e e2" by (rule quiet_trans [OF q1 quiet_validate_container [OF r2]])
  have q3: "quiet e e3" by (rule quiet_trans [OF q2 prepare_decode_context_spec(1) [OF r3]])
  have q4: "quiet e e4" by (rule quiet_trans [OF q3 prepare_decode_input_stream_spec(1) [OF r4]])
  have q5: "quiet e e5" if "dec = None"
    using q4 new_decoder_cases(1) [OF r5 [unfolded that]] by simp
  have x1: "exception_check e1" if "\<not> ready"
    using flac_api_ready_env [OF r1] that by simp
  have x2: "exception_check e2" if "\<not> valid"
    using r2 that by (auto simp: validate_container_def throw_defs split: if_splits)
  have x3: "exception_check e3" if "\<not> ok3" "classes_found J"
    using prepare_decode_context_failed r3 that by simp
  have x4: "exception_check e4" if "\<not> ok4" "classes_found J"
    using prepare_decode_input_stream_failed r4 that by simp
  note res' = res [unfolded decode_stream_internal_def Let_def r1 r2 r3 r4 r5 prod.case]
  show ?thesis
  proof (cases "ready \<and> valid \<and> stream \<noteq> None \<and> cons \<noteq> None \<and> ok3 \<and> ok4 \<and> dec \<noteq> None")
    case False
    have "(\<not> ready \<and> e8 = e1) \<or> (\<not> valid \<and> e8 = e2) \<or>
      (\<exists>m. e8 = throw_illegal_argument_exception m e2) \<or> (\<not> ok3 \<and> e8 = e3) \<or>
      (\<not> ok4 \<and> e8 = e4) \<or> (dec = None \<and> (\<exists>m. e8 = throw_decode_exception m e5))"
      using res' False by (auto split: if_splits)
    then show ?thesis
      by (elim disjE conjE exE)
        (use q1 q2 q3 q4 q5 x1 x2 x3 x4 in \<open>auto simp: throw_defs intro!: oneshot_quiet\<close>)
  next
    case True
    then obtain d where d: "dec = Some d" by blast
    obtain ok7 d1 e7 where r7: "configure_decoder A d k chained md5 e5 = (ok7, d1, e7)"
      by (metis prod_cases3)
    obtain ok8 d2 where r8: "init_stream_decoder_for_container A d1 StreamSource k = (ok8, d2)"
      by (metis surj_pair)
    have e5: "e5 = e4\<lparr>live_decoders := live_decoders e4 + 1\<rparr>"
      using new_decoder_cases(2) r5 d by simp
    have c1: "\<not> pull_mode c2" "emitted_frames c2 = 0" "range_limited c2 = False"
      using prepare_decode_context_spec [OF r3] prepare_decode_input_stream_spec [OF r4] True
      by (simp_all add: zero_chained)
    have "oneshot_done False 0 False e e8"
    proof (rule oneshot_configured [OF good_no_cleanup r7, where c = c2])
      show "\<not> ok7 \<and> e8 = no_cleanup c2 (delete_decoder e7) \<or>
        ok7 \<and> (\<exists>m. e8 = throw_decode_exception m (no_cleanup c2 (delete_decoder e7))) \<or>
        ok7 \<and> decode_tail ''FLAC stream decoding'' no_cleanup fuel J A False 0 md5 d2 c2
          e7 = Some e8"
        using res' [unfolded d option.case r7 prod.case r8 stream_tail] True
        by (auto simp: no_cleanup_def split: if_splits)
      show "consumer_inv e c2 c2 e5"
        unfolding e5
        by (rule inv_new_decoder [OF consumer_inv_env [OF q4 consumer_inv_start]])
          (use c1 in simp_all)
    qed (use q4 c1 in \<open>simp_all add: e5 quiet_def same_resources_def\<close>)
    then show ?thesis by (rule oneshot_done_weaken) blast
  qed
qed

lemma oneshot_mute:
  assumes "mute e e8" "global_refs e8 = global_refs e" "live_decoders e8 = live_decoders e"
    "completions (calls e8) = completions (calls e)" "\<not> seek \<Longrightarrow> exception_check e8"
  shows "oneshot_done limited frames seek e e8"
proof -
  let ?c = "configure_decode_range zero_context 0 limited frames"
  have "consumer_inv e ?c ?c e"
    by (rule configured_inv [OF _ quiet_refl]) (simp add: zero_context_def)
  then have "\<exists>c0 c' e'. range_limited c0 = limited \<and> (limited \<longrightarrow> max_frames c0 = frames) \<and>
        mute e' e8 \<and> consumer_inv e c0 c' e'"
    using assms(1) by (intro exI [of _ ?c] exI [of _ e]) (simp add: range_context)
  then show ?thesis using assms(2-5) by (auto simp: oneshot_done_def)
qed

text \<open>
  For a channel also \<open>NewGlobalRef\<close> may answer NULL with no exception; a whole-stream decode is sure
  to report only if it does not.
\<close>

definition refs_found :: "jvm \<Rightarrow> bool" where
  "refs_found J \<longleftrightarrow> (\<forall>x cs. jv_alloc J (NewGlobalRef x # cs))"

lemma prepare_decode_seekable_channel_failed:
  assumes "prepare_decode_seekable_channel J c (Some obj) e = (False, c1, e1)" "refs_found J"
  shows "exception_check e1"
proof -
  obtain k1 e2 where r1: "java_try J (Jni ''FindClass ReadableByteChannel'') e = (k1, e2)"
    by (metis surj_pair)
  obtain k2 e3 where r2: "java_try J (Jni ''FindClass SeekableByteChannel'') e2 = (k2, e3)"
    by (metis surj_pair)
  obtain m1 e4 where r3: "java_try J (GetMethodID ''read'') e3 = (m1, e4)" by (metis surj_pair)
  obtain m2 e5 where r4: "java_try J (GetMethodID ''position()J'') e4 = (m2, e5)"
    by (metis surj_pair)
  obtain m3 e6 where r5: "java_try J (GetMethodID ''position(J)'') e5 = (m3, e6)"
    by (metis surj_pair)
  obtain m4 e7 where r6: "java_try J (GetMethodID ''size'') e6 = (m4, e7)" by (metis surj_pair)
  obtain off e9 where r8: "call_long J ChannelPosition
      (snd (new_global_ref J obj e7)) = (off, e9)" by (metis surj_pair)
  have g: "new_global_ref J obj e7 = (Some obj, snd (new_global_ref J obj e7))"
    using assms(2) by (simp add: new_global_ref_def plain_alloc_def refs_found_def)
  note F = java_try_failed [OF r1] java_try_failed [OF r2] java_try_keeps [OF r2]
    java_try_failed [OF r3] java_try_keeps [OF r3] java_try_failed [OF r4] java_try_keeps [OF r4]
    java_try_failed [OF r5] java_try_keeps [OF r5] java_try_failed [OF r6] java_try_keeps [OF r6]
  show ?thesis
  proof (cases "k1 \<and> k2 \<and> m1 \<and> m2 \<and> m3 \<and> m4")
    case False
    then have "(\<not> (k1 \<and> k2) \<and> e1 = e3) \<or> (\<not> (m1 \<and> m2 \<and> m3 \<and> m4) \<and> e1 = e7)"
      using assms(1) unfolding prepare_decode_seekable_channel_def
      by (simp add: r1 r2 r3 r4 r5 r6 Let_def split: if_splits)
    then show ?thesis using F by metis
  next
    case True
    note a = assms(1) [unfolded prepare_decode_seekable_channel_def option.case r1 r2 r3 r4 r5 r6
        prod.case Let_def]
    from a True show ?thesis
      by (subst (asm) g) (auto simp: r8 clear_decode_seekable_channel_def delete_global_ref_def
          throw_defs env_simps exception_check_def split: if_splits)
  qed
qed

lemma cleanup_none: "seekable_channel c = None \<Longrightarrow> channel_cleanup c e = e"
  by (simp add: channel_cleanup_def clear_decode_seekable_channel_def)

lemma decode_channel_internal_done:
  assumes res: "decode_channel_internal fuel J A channel k md5 chained first frames cons seek limited e
    = Some e8"
  shows "oneshot_done limited frames (seek \<or> limited \<or> \<not> classes_found J \<or> \<not> refs_found J) e e8"
proof -
  obtain ready e1 where r1: "flac_api_ready J e = (ready, e1)" by (metis surj_pair)
  obtain valid e2 where r2: "validate_container k e1 = (valid, e2)" by (metis surj_pair)
  obtain ok3 e3 where r3: "(if seek \<or> limited then validate_decode_request first limited frames e2
      else (True, e2)) = (ok3, e3)" by (metis surj_pair)
  let ?c0 = "zero_context\<lparr>decode_chained_ogg := chained\<rparr>"
  obtain ok4 c1 e4 where r4: "prepare_decode_context J ?c0 (the cons) e3 = (ok4, c1, e4)"
    by (metis prod_cases3)
  obtain ok5 c2 e5 where r5: "prepare_decode_seekable_channel J c1 channel e4 = (ok5, c2, e5)"
    by (metis prod_cases3)
  let ?c3 = "configure_decode_range c2 first limited frames"
  obtain dec e6 where r6: "new_decoder A e5 = (dec, e6)" by (metis surj_pair)
  have q1: "quiet e e1" by (rule quiet_flac_api_ready [OF r1])
  have q2: "quiet e e2" by (rule quiet_trans [OF q1 quiet_validate_container [OF r2]])
  have q3: "quiet e e3"
    by (rule quiet_trans [OF q2]) (use r3 in \<open>auto dest: quiet_validate_request split: if_splits\<close>)
  have q4: "quiet e e4" by (rule quiet_trans [OF q3 prepare_decode_context_spec(1) [OF r4]])
  have x1: "exception_check e1" if "\<not> ready"
    using flac_api_ready_env [OF r1] that by simp
  have x2: "exception_check e2" if "\<not> valid"
    using r2 that by (auto simp: validate_container_def throw_defs split: if_splits)
  have x4: "exception_check e4" if "\<not> ok4" "classes_found J"
    using prepare_decode_context_failed r4 that by simp
  have c1: "seekable_channel c1 = None" "\<not> pull_mode c1"
    using prepare_decode_context_spec [OF r4] by (simp_all add: zero_chained)
  note res' = res [unfolded decode_channel_internal_def Let_def r1 r2 r3 r4 r5 r6 prod.case]
  have o3: "seek \<or> limited" if "\<not> ok3" using r3 that by (simp split: if_splits)
  let ?sure = "seek \<or> limited \<or> \<not> classes_found J \<or> \<not> refs_found J"
  show ?thesis
  proof (cases "ready \<and> valid \<and> channel \<noteq> None \<and> cons \<noteq> None \<and> ok3 \<and>
      \<not> (chained \<and> (seek \<or> limited)) \<and> ok4")
    case False
    have "(\<not> ready \<and> e8 = e1) \<or> (\<not> valid \<and> e8 = e2) \<or>
      (\<exists>m. e8 = throw_illegal_argument_exception m e2) \<or> (seek \<or> limited) \<and> e8 = e3 \<or>
      (\<exists>m. e8 = throw_illegal_argument_exception m e3) \<or> (\<not> ok4 \<and> e8 = e4)"
      using res' False o3 by (auto simp: cleanup_none [OF c1(1)] split: if_splits)
    then show ?thesis
      by (elim disjE conjE exE)
        (use q1 q2 q3 q4 x1 x2 x4 in \<open>auto simp: throw_defs intro!: oneshot_quiet\<close>)
  next
    case True
    then obtain obj where obj: "channel = Some obj" by blast
    note S = prepare_decode_seekable_channel_spec [OF r5 [unfolded obj] c1(1)]
    have m5: "mute e e5" using mute_trans [OF quiet_mute [OF q4]] S by blast
    have r5s: "live_decoders e5 = live_decoders e" "completions (calls e5) = completions (calls e)"
      using S q4 by (auto simp: quiet_def same_resources_def)
    show ?thesis
    proof (cases ok5)
      case False
      then have "e8 = e5" using res' True S by (auto simp: cleanup_none split: if_splits)
      moreover have "exception_check e5" if "refs_found J"
        using prepare_decode_seekable_channel_failed r5 obj False that by simp
      ultimately show ?thesis using m5 r5s S False q4
        by (auto simp: quiet_def same_resources_def intro!: oneshot_mute)
    next
      case ok5: True
      have g: "drop_channel (seekable_channel ?c3) (global_refs e5) = global_refs e"
        using S ok5 q4 by (simp add: drop_channel_def quiet_def same_resources_def range_context)
      show ?thesis
      proof (cases dec)
        case None
        then have e6: "e6 = e5" using new_decoder_cases(1) r6 by simp
        have "e8 = throw_decode_exception ''Failed to allocate FLAC channel decoder.''
            (channel_cleanup ?c3 e5)"
          using res' True ok5 None by (auto simp: e6)
        then show ?thesis
          using good_channel_cleanup g r5s m5 good_cleanup_mute [OF good_channel_cleanup, of e ?c3 e5]
          by (auto simp: good_cleanup_def throw_defs env_simps intro!: oneshot_mute mute_pending)
      next
        case (Some d)
        obtain ok7 d1 e7 where r7: "configure_decoder A d k chained md5 e6 = (ok7, d1, e7)"
          by (metis prod_cases3)
        obtain ok8 d2 where r8: "init_stream_decoder_for_container A d1 ChannelSource k = (ok8, d2)"
          by (metis surj_pair)
        have e6: "e6 = e5\<lparr>live_decoders := live_decoders e5 + 1\<rparr>"
          using new_decoder_cases(2) r6 Some by simp
        have "oneshot_done limited frames (seek \<or> limited) e e8"
        proof (rule oneshot_configured [OF good_channel_cleanup r7, where c = "?c3" and limited = limited
              and frames = frames])
          show "\<not> ok7 \<and> e8 = channel_cleanup ?c3 (delete_decoder e7) \<or>
            ok7 \<and> (\<exists>m. e8 = throw_decode_exception m (channel_cleanup ?c3 (delete_decoder e7))) \<or>
            ok7 \<and> decode_tail ''FLAC channel decoding'' channel_cleanup fuel J A (seek \<or> limited)
              first md5 d2 ?c3 e7 = Some e8"
            using res' [unfolded Some option.case r7 prod.case r8 channel_tail] True ok5
            by (auto split: if_splits)
          have "consumer_inv e ?c3 ?c3 e"
            by (rule configured_inv [OF _ quiet_refl]) (use S c1 in simp)
          then show "consumer_inv e ?c3 ?c3 e6"
            unfolding e6 by (intro inv_new_decoder consumer_inv_mute [OF _ m5])
        qed (use g r5s in \<open>simp_all add: range_context e6\<close>)
        then show ?thesis by (rule oneshot_done_weaken) blast
      qed
    qed
  qed
qed

end
