(* ===== verification/Decode_Guarantees.thy ===== *)
theory Decode_Guarantees
  imports Decode_Operations
begin

text \<open>
  The properties of the one-shot operations, with a sample decoder and a sample Java side for their
  witnesses.
\<close>

section \<open>A sample decode\<close>

text \<open>
  The resolver has run; the Java side of \<open>sample_jvm\<close> never throws; the stream has three blocks of
  two stereo frames, and the decoder's state counts the blocks it delivered.
\<close>

definition ready_env :: jenv where
  "ready_env = initial_env\<lparr>native := initial_native\<lparr>api_once := True, api_initialized := True\<rparr>\<rparr>"

definition sample_info :: stream_info where
  "sample_info = empty_stream_info\<lparr>si_channels := 2, si_sample_rate := 44100,
     si_bits_per_sample := 16, si_total_samples := 6\<rparr>"

definition sample_frame :: "nat \<Rightarrow> flac_frame" where
  "sample_frame i = \<lparr>fh_channels = 2, fh_blocksize = 2,
     fr_buffer = [[of_nat (10 * i), of_nat (10 * i + 1)], [of_nat (100 * i), of_nat (100 * i + 1)]]\<rparr>"

text \<open>A decoder with three blocks of two stereo frames; the state counts the blocks delivered.\<close>

definition sample_decoder :: "nat decoder_api" where
  "sample_decoder = \<lparr>stream_decoder_new = Some 0,
     stream_decoder_set_decode_chained_stream = (\<lambda>d. (True, d)),
     stream_decoder_set_md5_checking = (\<lambda>d. (True, d)),
     stream_decoder_init = (\<lambda>_ _ d. (True, d)),
     stream_decoder_process_until_end_of_metadata =
       (\<lambda>d. MetadataCallback (StreamInfoBlock sample_info) (Return True d)),
     stream_decoder_seek_absolute = (\<lambda>d n. Return True (unat n div 2)),
     stream_decoder_process_single = (\<lambda>d. if d < 3
       then WriteCallback (sample_frame d) (\<lambda>st. Return (st = WRITE_CONTINUE) (d + 1))
       else Return True 4),
     stream_decoder_process_until_end_of_link = (\<lambda>d. Return False d),
     stream_decoder_process_until_end_of_stream = (\<lambda>d.
       MetadataCallback (StreamInfoBlock sample_info)
       (WriteCallback (sample_frame 0) (\<lambda>_. WriteCallback (sample_frame 1)
         (\<lambda>_. WriteCallback (sample_frame 2) (\<lambda>st. Return (st = WRITE_CONTINUE) 4))))),
     stream_decoder_finish_link = (\<lambda>d. Return True d),
     stream_decoder_finish = (\<lambda>d. (True, 0)),
     stream_decoder_get_state = (\<lambda>d. if d = 4 then END_OF_STREAM else OTHER_STATE 0),
     stream_decoder_get_resolved_state_string = (\<lambda>_. None)\<rparr>"


lemma sample_java:
  "jv_throws sample_jvm cs = None" "jv_alloc sample_jvm cs = True" "jv_long sample_jvm cs = 0"
  by (simp_all add: sample_jvm_def)

lemma sample_calls:
  "java_call sample_jvm c e = e\<lparr>calls := c # calls e\<rparr>"
  "java_try sample_jvm c e = (True, e\<lparr>calls := c # calls e\<rparr>)"
  "plain_alloc sample_jvm c e = (True, e\<lparr>calls := c # calls e\<rparr>)"
  by (simp_all add: java_call_def java_try_def plain_alloc_def sample_java)



lemmas sample_defs = ready_env_def initial_env_def initial_native_def zero_context_def
  sample_info_def empty_stream_info_def sample_decoder_def exception_check_def

lemmas oneshot_defs = flac_api_ready_def jflac_call_once_def validate_container_def
  is_valid_container_def JFLAC_CONTAINER_NATIVE_def validate_decode_request_def path_to_utf8_def
  jstring_to_utf8_def prepare_decode_context_def prepare_decode_input_stream_def new_decoder_def
  configure_decoder_def configure_decoder_chaining_def configure_decoder_md5_checking_def
  init_file_decoder_for_container_def init_stream_decoder_for_container_def
  configure_decode_range_def decode_metadata_callback_def new_stream_info_def
  decode_range_starts_after_stream_def decode_range_starts_at_stream_end_def
  process_decode_stream_def record_frame_def copy_resolved_decoder_state_def no_cleanup_def
  delete_decoder_def validate_physical_eof_sample_count_def

lemma sample_rows:
  "interleave_loop (fr_buffer (sample_frame 0)) 2 2 = [0, 0, 1, 1]"
  "interleave_loop (fr_buffer (sample_frame (Suc 0))) 2 1 = [10, 100]"
  "interleave_loop (fr_buffer (sample_frame (Suc 0))) 2 2 = [10, 100, 11, 101]"
  "interleave_loop (fr_buffer (sample_frame 2)) 2 2 = [20, 200, 21, 201]"
  "fh_channels (sample_frame i) = 2" "fh_blocksize (sample_frame i) = 2"
  by (simp_all add: sample_frame_def interleave_loop_rows rows_def row_def upt_rec)

lemmas sample_write = decode_write_callback_def sample_rows set_int_array_region_def Let_def

lemma sample_range_run:
  "\<exists>e8. decodeFileRange (Suc (Suc (Suc 0))) sample_jvm sample_decoder (Some ''a.flac'') 0 0 3 (Some 1)
     ready_env = Some e8 \<and> \<not> exception_check e8 \<and> pcm_of (calls e8) = [0, 0, 1, 1, 10, 100]"
  by (simp add: decodeFileRange_def decode_file_internal_def JFLAC_SUPPRESS_METADATA_CALLBACKS_def
      JFLAC_LIMITED_RANGE_def oneshot_defs sample_calls sample_java sample_defs sample_write
      decode_file_seek_def decode_seek_phase_def decode_file_finish_def decode_finish_phase_def)

lemma sample_stream_run:
  "\<exists>e8. decodeStream 0 sample_jvm sample_decoder (Some 5) 0 False False (Some 1) ready_env = Some e8 \<and>
     \<not> exception_check e8 \<and>
     pcm_of (calls e8) = [0, 0, 1, 1, 10, 100, 11, 101, 20, 200, 21, 201]"
  by (simp add: decodeStream_def decode_stream_internal_def oneshot_defs sample_calls sample_java
      sample_defs sample_write decode_stream_finish_def decode_finish_phase_def)

text \<open>The same Java side when \<open>NewGlobalRef\<close> is out of memory, and a decoder whose finish fails.\<close>

definition no_refs_jvm :: jvm where
  "no_refs_jvm = sample_jvm\<lparr>jv_alloc := (\<lambda>cs. case cs of NewGlobalRef _ # _ \<Rightarrow> False | _ \<Rightarrow> True)\<rparr>"

lemma no_refs_java:
  "jv_throws no_refs_jvm cs = None"
  "java_call no_refs_jvm c e = e\<lparr>calls := c # calls e\<rparr>"
  "java_try no_refs_jvm c e = (True, e\<lparr>calls := c # calls e\<rparr>)"
  "plain_alloc no_refs_jvm (GetObjectClass x) e = (True, e\<lparr>calls := GetObjectClass x # calls e\<rparr>)"
  "plain_alloc no_refs_jvm (NewGlobalRef x) e = (False, e\<lparr>calls := NewGlobalRef x # calls e\<rparr>)"
  by (simp_all add: java_call_def java_try_def plain_alloc_def no_refs_jvm_def sample_jvm_def)

definition failing_finish_decoder :: "nat decoder_api" where
  "failing_finish_decoder = sample_decoder\<lparr>stream_decoder_finish := (\<lambda>d. (False, 0))\<rparr>"

section \<open>Properties of the one-shot operations\<close>

text \<open>
  C2: a range decode of a file that returns without an exception has delivered to the consumer,
  interleaved and in order, exactly the first \<open>maxFrames\<close> of the frames libFLAC decoded (all of them
  if there are fewer): no sample is dropped, repeated or reordered at a block boundary.
\<close>

theorem decodeFileRange_delivers:
  assumes "decodeFileRange fuel J A path container first frames cons e = Some e8"
    "\<not> exception_check e8"
  shows "\<exists>frs. decoded e8 = decoded e @ frs \<and>
    pcm_of (calls e8) = pcm_of (calls e) @ concat (take (unat frames) (decoded_rows frs))"
proof -
  have "decode_file_internal fuel J A path container False False first frames cons True True e =
      Some e8"
    using assms(1)
    by (simp add: decodeFileRange_def JFLAC_LIMITED_RANGE_def JFLAC_SUPPRESS_METADATA_CALLBACKS_def)
  from decode_file_internal_done [OF this] have "oneshot_done True frames True e e8" by simp
  with assms(2) show ?thesis
    by (auto simp: oneshot_done_def mute_def consumer_inv_def same_request_def range_rows_def)
qed

lemma decodeFileRange_delivers_witness:
  "\<exists>e8 frs. decodeFileRange (Suc (Suc (Suc 0))) sample_jvm sample_decoder (Some ''a.flac'') 0 0 3
     (Some 1) ready_env = Some e8 \<and> pcm_of (calls e8) = [0, 0, 1, 1, 10, 100] \<and>
     pcm_of (calls e8) = concat (take (unat (3 :: jlong)) (decoded_rows frs)) \<and>
     decoded e8 = decoded ready_env @ frs"
proof -
  obtain e8 where r: "decodeFileRange (Suc (Suc (Suc 0))) sample_jvm sample_decoder (Some ''a.flac'')
      0 0 3 (Some 1) ready_env = Some e8" "\<not> exception_check e8"
    "pcm_of (calls e8) = [0, 0, 1, 1, 10, 100]"
    using sample_range_run by blast
  from decodeFileRange_delivers [OF r(1,2)] r show ?thesis
    by (auto simp: ready_env_def initial_env_def)
qed

text \<open>
  C4: a whole-stream decode of an input stream, if every object has a class, ends with an exception
  pending or with \<open>onComplete\<close> as its last call, made exactly once; and without an exception the
  consumer has every decoded sample.
\<close>

theorem decodeStream_reports:
  assumes "decodeStream fuel J A stream container check_md5 chained cons e = Some e8"
    "classes_found J"
  shows "(exception_check e8 \<or> completed e e8) \<and>
    (\<exists>frs. decoded e8 = decoded e @ frs \<and> (exception_check e8 \<or>
       pcm_of (calls e8) = pcm_of (calls e) @ concat (decoded_rows frs)))"
  using decode_stream_internal_done assms
  by (auto simp: decodeStream_def oneshot_done_def mute_def consumer_inv_def same_request_def
      range_rows_def dest!: decode_stream_internal_done)

lemma decodeStream_reports_witness:
  "\<exists>e8. decodeStream 0 sample_jvm sample_decoder (Some 5) 0 False False (Some 1) ready_env = Some e8 \<and>
     completed ready_env e8 \<and>
     pcm_of (calls e8) = [0, 0, 1, 1, 10, 100, 11, 101, 20, 200, 21, 201]"
proof -
  obtain e8 where r: "decodeStream 0 sample_jvm sample_decoder (Some 5) 0 False False (Some 1)
      ready_env = Some e8" "\<not> exception_check e8"
    "pcm_of (calls e8) = [0, 0, 1, 1, 10, 100, 11, 101, 20, 200, 21, 201]"
    using sample_stream_run by blast
  have "classes_found sample_jvm" by (simp add: classes_found_def sample_java)
  from decodeStream_reports [OF r(1) this] r show ?thesis by simp
qed

text \<open>
  C3: a decode of a seekable channel never gives the consumer more frames than the range allows,
  not even when the consumer throws or libFLAC delivers oversized blocks; and however it ends, every
  global reference and decoder it took is released.
\<close>

theorem decodeChannelRange_bounded:
  assumes "decodeChannelRange fuel J A channel container first frames cons e = Some e8"
  shows "pcm_frames (calls e8) \<le> pcm_frames (calls e) + unat frames \<and>
    global_refs e8 = global_refs e \<and> live_decoders e8 = live_decoders e"
proof -
  have "decode_channel_internal fuel J A channel container False False first frames cons True True e =
      Some e8"
    using assms
    by (simp add: decodeChannelRange_def JFLAC_LIMITED_RANGE_def
        JFLAC_SUPPRESS_METADATA_CALLBACKS_def)
  from decode_channel_internal_done [OF this] have "oneshot_done True frames True e e8" by simp
  then obtain c0 c e' where c: "range_limited c0" "max_frames c0 = frames" "mute e' e8"
    "consumer_inv e c0 c e'" "global_refs e8 = global_refs e" "live_decoders e8 = live_decoders e"
    by (auto simp: oneshot_done_def)
  then have "pcm_frames (calls e') \<le> pcm_frames (calls e) +
      (if exception_check e' then unat frames else unat (emitted_frames c))"
    and "emitted_frames c \<le> frames"
    by (auto simp: consumer_inv_def same_request_def)
  with c show ?thesis by (auto simp: mute_def word_le_nat_alt split: if_splits)
qed

lemma sample_channel_run:
  "decodeChannelRange (Suc (Suc (Suc 0))) sample_jvm sample_decoder (Some 5) 0 0 3 (Some 1)
     ready_env \<noteq> None"
  by (simp add: decodeChannelRange_def decode_channel_internal_def
      JFLAC_SUPPRESS_METADATA_CALLBACKS_def prepare_decode_seekable_channel_def
      JFLAC_LIMITED_RANGE_def oneshot_defs sample_calls sample_java sample_defs sample_write
      decode_channel_seek_def decode_seek_phase_def decode_channel_finish_def decode_finish_phase_def
      new_global_ref_def call_long_def)

lemma decodeChannelRange_bounded_witness:
  "\<exists>e8. decodeChannelRange (Suc (Suc (Suc 0))) sample_jvm sample_decoder (Some 5) 0 0 3 (Some 1)
     ready_env = Some e8 \<and> pcm_frames (calls e8) \<le> 3 \<and> global_refs e8 = []"
proof -
  obtain e8 where r: "decodeChannelRange (Suc (Suc (Suc 0))) sample_jvm sample_decoder (Some 5) 0 0 3
      (Some 1) ready_env = Some e8"
    using sample_channel_run by blast
  from decodeChannelRange_bounded [OF this] r show ?thesis
    by (simp add: ready_env_def initial_env_def)
qed



end
