(* ===== verification/Process_Guarantees.thy ===== *)
theory Process_Guarantees
  imports Decode_Guarantees
begin

text \<open>
  Termination and outcome of the processing loops, the effect of a decoder error, and the layout of
  the PCM the write callbacks build.
\<close>

section \<open>Termination\<close>

text \<open>
  libFLAC makes progress by a measure: a successful step that does not end the stream (or abort, or
  for a chain end the link in between) makes the measure smaller.
\<close>

definition decoder_progress :: "jvm \<Rightarrow> 'd decoder_api \<Rightarrow> ('d \<Rightarrow> nat) \<Rightarrow> bool" where
  "decoder_progress J A m \<longleftrightarrow>
     (\<forall>d c e ok d1 c1 e1. run_callbacks J (stream_decoder_process_single A d) c e = (ok, d1, c1, e1) \<longrightarrow>
        ok \<longrightarrow> stream_decoder_get_state A d1 = END_OF_STREAM \<or>
          stream_decoder_get_state A d1 = ABORTED \<or> m d1 < m d) \<and>
     (\<forall>d c e ok d1 c1 e1. run_callbacks J (stream_decoder_process_until_end_of_link A d) c e = (ok, d1, c1, e1) \<longrightarrow>
        ok \<longrightarrow> stream_decoder_get_state A d1 \<noteq> END_OF_LINK \<or> m d1 < m d) \<and>
     (\<forall>d c e ok d1 c1 e1. run_callbacks J (stream_decoder_finish_link A d) c e = (ok, d1, c1, e1) \<longrightarrow>
        m d1 \<le> m d)"

lemma decoder_progressD:
  assumes "decoder_progress J A m"
  shows "run_callbacks J (stream_decoder_process_single A d) c e = (True, d1, c1, e1) \<Longrightarrow>
      stream_decoder_get_state A d1 \<noteq> END_OF_STREAM \<Longrightarrow>
      stream_decoder_get_state A d1 \<noteq> ABORTED \<Longrightarrow> m d1 < m d"
    and "run_callbacks J (stream_decoder_process_until_end_of_link A d) c e = (True, d1, c1, e1) \<Longrightarrow>
      stream_decoder_get_state A d1 = END_OF_LINK \<Longrightarrow> m d1 < m d"
    and "run_callbacks J (stream_decoder_finish_link A d) c e = (ok, d1, c1, e1) \<Longrightarrow> m d1 \<le> m d"
  using assms unfolding decoder_progress_def by metis+

lemma process_range_total:
  assumes "decoder_progress J A m" "m d < n"
  shows "process_range n J A d c e \<noteq> None"
  using assms(2)
proof (induction n arbitrary: d c e)
  case (Suc n)
  obtain ok d1 c1 e1 where r: "run_callbacks J (stream_decoder_process_single A d) c e = (ok, d1, c1, e1)"
    by (metis prod_cases4)
  have "process_range n J A d1 c1 e1 \<noteq> None"
    if "ok" "stream_decoder_get_state A d1 \<noteq> END_OF_STREAM" "stream_decoder_get_state A d1 \<noteq> ABORTED"
  proof -
    have "m d1 < m d" using decoder_progressD(1) [OF assms(1)] r that by simp
    with Suc show ?thesis by simp
  qed
  then show ?case by (auto simp: r Let_def split: prod.splits)
qed simp

lemma process_chained_links_total:
  assumes "decoder_progress J A m" "m d < n"
  shows "process_chained_links n J A d c e \<noteq> None"
  using assms(2)
proof (induction n arbitrary: d c e)
  case (Suc n)
  obtain ok d1 c1 e1 where r: "run_callbacks J (stream_decoder_process_until_end_of_link A d) c e =
      (ok, d1, c1, e1)"
    by (metis prod_cases4)
  obtain v e2 where v: "validate_chained_link_sample_count c1 e1 = (v, e2)" by (metis surj_pair)
  obtain ok3 d3 c3 e3 where r3: "run_callbacks J (stream_decoder_finish_link A d1) c1 e2 =
      (ok3, d3, c3, e3)"
    by (metis prod_cases4)
  have "process_chained_links n J A d3 c3 e3 \<noteq> None"
    if "ok" "stream_decoder_get_state A d1 = END_OF_LINK"
  proof -
    have "m d1 < m d" "m d3 \<le> m d1"
      using decoder_progressD(2) [OF assms(1)] decoder_progressD(3) [OF assms(1) r3] r that by simp_all
    with Suc show ?thesis by simp
  qed
  then show ?case by (auto simp: r r3 v Let_def)
qed simp

section \<open>Properties of processing\<close>

text \<open>
  C8: \<open>process_decode_stream\<close> returns: if libFLAC's steps make progress by a measure, fuel above the
  measure is enough for each of its three paths.
\<close>

theorem process_decode_stream_returns:
  assumes "decoder_progress J A m" "m d < fuel"
  shows "\<exists>ok d' c' e'. process_decode_stream fuel J A d c e = Some (ok, d', c', e')"
proof -
  have "process_decode_stream fuel J A d c e \<noteq> None"
    using process_range_total [OF assms] process_chained_links_total [OF assms]
    by (auto simp: process_decode_stream_def Let_def split: prod.splits)
  then show ?thesis by (metis not_None_eq prod_cases4)
qed

lemma sample_progress: "decoder_progress sample_jvm sample_decoder (\<lambda>d. 4 - d)"
  by (auto simp: decoder_progress_def sample_decoder_def split: prod.splits if_splits)

lemma process_decode_stream_returns_witness:
  "\<exists>ok d' c' e'. process_decode_stream 5 sample_jvm sample_decoder 0
     (configure_decode_range zero_context 0 True 3) ready_env = Some (ok, d', c', e')"
  by (rule process_decode_stream_returns [OF sample_progress]) simp

text \<open>
  C7: when \<open>process_decode_stream\<close> reports success for an operation that started clean, libFLAC
  reported no error, no exception is pending, and a bounded range is either complete, with exactly
  \<open>maxFrames\<close> frames delivered, or ended at a physical end of stream whose sample count is right.
\<close>

theorem process_decode_stream_success:
  assumes "process_decode_stream fuel J A d c e = Some (True, d', c', e')"
    "\<not> saw_error c" "\<not> exception_check e" "\<not> pull_mode c" "emitted_frames c = 0"
    "range_limited c" "\<not> range_complete c"
  shows "\<not> saw_error c' \<and> \<not> exception_check e' \<and>
    (emitted_frames c' = max_frames c \<or>
     stream_decoder_get_state A d' = END_OF_STREAM \<and>
     \<not> (saw_stream_info c' \<and>
        unat (first_sample c') + unat (emitted_frames c') < unat (stream_total_samples c')))"
proof -
  have "consumer_inv e c c e" by (rule consumer_inv_start) (use assms in simp_all)
  then have inv: "consumer_inv e c c' e'" by (rule consumer_inv_process [OF _ assms(1)])
  note P = process_frame [OF assms(1)]
  have "range_complete c' \<Longrightarrow> emitted_frames c' = max_frames c"
    using inv assms(6) by (auto simp: consumer_inv_def same_request_def)
  moreover have "\<not> saw_error c' \<and> \<not> exception_check e'" using P(2) assms(2,3) by simp
  moreover have "fst (validate_physical_eof_sample_count c' e') \<Longrightarrow>
      \<not> (saw_stream_info c' \<and>
        unat (first_sample c') + unat (emitted_frames c') < unat (stream_total_samples c'))"
    using physical_eof_iff by blast
  ultimately show ?thesis using P(3) assms(6) by blast
qed

lemma process_decode_stream_success_witness:
  "\<exists>d' c' e'. process_decode_stream (Suc (Suc (Suc 0))) sample_jvm sample_decoder 0
     (configure_decode_range zero_context 0 True 3) ready_env = Some (True, d', c', e') \<and>
     \<not> saw_error c' \<and> \<not> exception_check e'"
proof -
  let ?c = "configure_decode_range zero_context 0 True 3"
  have "\<exists>d' c' e'. process_decode_stream (Suc (Suc (Suc 0))) sample_jvm sample_decoder 0 ?c ready_env =
      Some (True, d', c', e')"
    by (simp add: oneshot_defs sample_calls sample_java sample_defs sample_write)
  then obtain d' c' e' where r: "process_decode_stream (Suc (Suc (Suc 0))) sample_jvm sample_decoder 0
      ?c ready_env = Some (True, d', c', e')"
    by blast
  from process_decode_stream_success [OF r] r show ?thesis
    by (simp add: configure_decode_range_def zero_context_def ready_env_def initial_env_def
        exception_check_def)
qed

text \<open>
  C10: once libFLAC has reported an error, whatever it calls afterwards, no more PCM reaches the
  consumer, no frame is accepted, and the status reported to Java stays the first one.
\<close>

theorem run_callbacks_after_error:
  assumes "run_callbacks J (ErrorCallback st t) c e = (ok, d, c', e')" "\<not> saw_error c"
  shows "saw_error c' \<and> first_error_status c' = st \<and> pcm_of (calls e') = pcm_of (calls e) \<and>
    decoded e' = decoded e"
proof -
  have "run_callbacks J t (decode_error_callback st c) e = (ok, d, c', e')"
    using assms(1) by simp
  from run_callbacks_frame [OF this] assms(2) show ?thesis
    by (simp add: run_frame_def decode_error_callback_def)
qed

lemma run_callbacks_after_error_witness:
  "let (ok, d, c', e') = run_callbacks sample_jvm (ErrorCallback BAD_HEADER (ErrorCallback LOST_SYNC
     (Return True (0 :: nat)))) zero_context initial_env in first_error_status c' = BAD_HEADER"
proof -
  obtain ok d c' e' where r: "run_callbacks sample_jvm (ErrorCallback BAD_HEADER (ErrorCallback
      LOST_SYNC (Return True (0 :: nat)))) zero_context initial_env = (ok, d, c', e')"
    by (metis prod_cases4)
  have "\<not> saw_error zero_context" by (simp add: zero_context_def)
  from run_callbacks_after_error [OF r this] show ?thesis using r by simp
qed


text \<open>
  C11: the two nested loops that interleave a decoded block produce the frames one after the other,
  each with one sample per channel in channel order, for every block whose samples fit in 32 bits;
  the index arithmetic in \<open>unsigned\<close> never wraps there.
\<close>

theorem interleave_loop_is_rows:
  assumes "unat channels * unat frames \<le> 4294967295"
  shows "interleave_loop buf channels frames =
    concat (map (\<lambda>i. map (\<lambda>ch. buf ! ch ! i) [0..<unat channels]) [0..<unat frames])"
  using interleave_loop_rows [OF assms, of buf] by (simp add: rows_def row_def [abs_def])

lemma interleave_loop_is_rows_witness:
  "interleave_loop [[1, 2, 3], [10, 20, 30]] 2 3 = [1, 10, 2, 20, 3, 30]"
proof -
  have "unat (2 :: u32) * unat (3 :: u32) \<le> 4294967295" by simp
  from interleave_loop_is_rows [OF this, of "[[1, 2, 3], [10, 20, 30]]"] show ?thesis
    by (simp add: upt_rec)
qed

end
