(* ===== verification/Handle_Table.thy ===== *)
theory Handle_Table
  imports Prelude
begin

text \<open>
  The linked list of registry entries and the handle counter. \<open>jflac_jni.c\<close> has two copies of this
  code, for decoder sessions and for encoder contexts, equal line by line; an entry is a node of
  either list, the handle with the address of the object, and the list is in the order of the
  \<open>next\<close> pointers. A node pointer is a position in the list; NULL is None.
\<close>

section \<open>Searching and unlinking\<close>

type_synonym registry_entry = "jlong \<times> nat"

abbreviation entry_handle :: "registry_entry \<Rightarrow> jlong" where "entry_handle \<equiv> fst"
abbreviation entry_object :: "registry_entry \<Rightarrow> nat" where "entry_object \<equiv> snd"

text \<open>The \<open>while\<close> loop of the two \<open>find\<close> functions: the entry found and its predecessor.\<close>

fun find_entry_from ::
  "nat option \<Rightarrow> nat \<Rightarrow> registry_entry list \<Rightarrow> jlong \<Rightarrow> (nat \<times> nat option) option" where
  "find_entry_from prev entry [] handle = None"
| "find_entry_from prev entry (e # es) handle =
     (if entry_handle e = handle then Some (entry, prev)
      else find_entry_from (Some entry) (Suc entry) es handle)"

definition find_entry :: "registry_entry list \<Rightarrow> jlong \<Rightarrow> (nat \<times> nat option) option" where
  "find_entry registry handle = find_entry_from None 0 registry handle"

text \<open>Unlinking a node through the list head or through its predecessor.\<close>

definition unlink_entry :: "registry_entry list \<Rightarrow> nat \<Rightarrow> nat option \<Rightarrow> registry_entry list" where
  "unlink_entry registry entry previous =
     (case previous of
        None \<Rightarrow> drop (Suc entry) registry
      | Some p \<Rightarrow> take (Suc p) registry @ drop (Suc entry) registry)"

lemma find_entry_from_None:
  "find_entry_from prev i es h = None \<longleftrightarrow> h \<notin> fst ` set es"
  by (induction es arbitrary: prev i) auto

lemma find_entry_from_Some:
  assumes "find_entry_from prev i es h = Some (k, p)"
  shows "\<exists>xs a ys. es = xs @ (h, a) # ys \<and> h \<notin> fst ` set xs \<and> k = i + length xs \<and>
    p = (if xs = [] then prev else Some (k - 1))"
  using assms
proof (induction es arbitrary: prev i)
  case (Cons e es)
  show ?case
  proof (cases "fst e = h")
    case True
    with Cons.prems show ?thesis by (intro exI [of _ "[]"] exI [of _ "snd e"]
        exI [of _ es]) auto
  next
    case False
    with Cons.prems obtain xs a ys where
      "es = xs @ (h, a) # ys" "h \<notin> fst ` set xs" "k = Suc i + length xs"
      "p = (if xs = [] then Some i else Some (k - 1))"
      using Cons.IH [of "Some i" "Suc i"] by auto
    with False show ?thesis
      by (intro exI [of _ "e # xs"] exI [of _ a] exI [of _ ys]) auto
  qed
qed simp

lemma find_entry_None: "find_entry es h = None \<longleftrightarrow> map_of es h = None"
  by (simp add: find_entry_def find_entry_from_None map_of_eq_None_iff)

lemma find_entry_Some:
  assumes "find_entry es h = Some (k, p)"
  obtains xs a ys where "es = xs @ (h, a) # ys" "h \<notin> fst ` set xs" "k = length xs"
    "p = (if xs = [] then None else Some (k - 1))"
  using find_entry_from_Some [OF assms [unfolded find_entry_def]] by auto

text \<open>The walk is a lookup, and unlinking what it found removes the first entry of the handle.\<close>

lemma find_entry_lookup:
  assumes "find_entry es h = Some (k, p)"
  shows "map_of es h = Some (entry_object (es ! k))"
  using assms
  by (rule find_entry_Some) (auto simp: map_add_def map_of_eq_None_iff [symmetric])

lemma unlink_found:
  assumes "find_entry es h = Some (k, p)"
  shows "unlink_entry es k p = remove1 (h, entry_object (es ! k)) es"
  using assms
proof (rule find_entry_Some)
  fix xs a ys
  assume es: "es = xs @ (h, a) # ys" and new: "h \<notin> fst ` set xs" and k: "k = length xs"
    and p: "p = (if xs = [] then None else Some (k - 1))"
  have "(h, a) \<notin> set xs" using new by force
  then have "remove1 (h, a) es = xs @ ys" by (simp add: es remove1_append)
  moreover have "unlink_entry es k p = xs @ ys"
    by (cases xs rule: rev_cases) (simp_all add: unlink_entry_def es k p)
  ultimately show ?thesis by (simp add: es k)
qed

section \<open>The handle counter\<close>

definition JFLAC_FIRST_VALID_HANDLE :: jlong where "JFLAC_FIRST_VALID_HANDLE = 1"

text \<open>
  The increment of the counter with its restart: past the largest \<open>jlong\<close> the counter becomes
  negative (two's complement) and is set back to the first valid handle.
\<close>

definition advance_handle :: "jlong \<Rightarrow> jlong" where
  "advance_handle h = (let h1 = h + 1 in if sint h1 \<le> 0 then JFLAC_FIRST_VALID_HANDLE else h1)"

text \<open>The \<open>for (;;)\<close> of the two \<open>reserve\<close> functions: None if it never returns.\<close>

partial_function (option) reserve_handle ::
  "registry_entry list \<Rightarrow> jlong \<Rightarrow> (jlong \<times> jlong) option" where
  "reserve_handle registry next =
     (let handle = next; next1 = advance_handle next
      in if 0 < sint handle \<and> find_entry registry handle = None then Some (handle, next1)
         else reserve_handle registry next1)"

lemma sint_advance_handle:
  assumes "0 < sint h"
  shows "sint (advance_handle h) = sint h mod 9223372036854775807 + 1"
proof (cases "sint h = 9223372036854775807")
  case True
  have "h = of_int (sint h)" by simp
  then have "h = 9223372036854775807" unfolding True by simp
  then show ?thesis by (simp add: advance_handle_def JFLAC_FIRST_VALID_HANDLE_def)
next
  case False
  with sint_jlong_bounds(2) [of h] have lt: "sint h < 9223372036854775807" by simp
  then have "sint (h + 1) = sint h + 1"
    using assms by (subst sint_word_ariths) (auto simp: signed_take_bit_int_eq_self)
  then show ?thesis using assms lt by (simp add: advance_handle_def)
qed

lemma sint_advance_funpow:
  assumes "0 < sint h"
  shows "sint ((advance_handle ^^ i) h) = (sint h - 1 + int i) mod 9223372036854775807 + 1"
proof (induction i)
  case 0
  then show ?case using assms sint_jlong_bounds(2) [of h] by simp
next
  case (Suc i)
  have "0 < sint ((advance_handle ^^ i) h)" using Suc by simp
  then have "sint ((advance_handle ^^ Suc i) h)
      = ((sint h - 1 + int i) mod 9223372036854775807 + 1) mod 9223372036854775807 + 1"
    by (simp add: sint_advance_handle Suc)
  also have "\<dots> = (sint h - 1 + int (Suc i)) mod 9223372036854775807 + 1"
    using mod_add_left_eq [of "sint h - 1 + int i" 9223372036854775807 1]
    by (simp add: algebra_simps)
  finally show ?case .
qed

text \<open>Fewer entries than positive handles leave a free handle ahead of the counter.\<close>

lemma free_handle_ahead:
  assumes pos: "0 < sint h" and room: "length es < 9223372036854775807"
  shows "\<exists>i. find_entry es ((advance_handle ^^ i) h) = None"
proof (rule ccontr)
  assume none: "\<not> ?thesis"
  let ?f = "\<lambda>i. (advance_handle ^^ i) h"
  have inj: "inj_on ?f {..<9223372036854775807}"
  proof (rule inj_onI)
    fix i j :: nat
    assume ij: "i \<in> {..<9223372036854775807}" "j \<in> {..<9223372036854775807}" and "?f i = ?f j"
    then have "(sint h - 1 + int i) mod 9223372036854775807
        = (sint h - 1 + int j) mod 9223372036854775807"
      using sint_advance_funpow [OF pos, of i] sint_advance_funpow [OF pos, of j] by simp
    then have "int i mod 9223372036854775807 = int j mod 9223372036854775807"
      by (simp add: mod_eq_dvd_iff)
    then show "i = j" using ij by simp
  qed
  have "?f ` {..<9223372036854775807} \<subseteq> fst ` set es"
    using none by (auto simp: find_entry_None map_of_eq_None_iff)
  then have "card (?f ` {..<9223372036854775807}) \<le> card (fst ` set es)"
    by (intro card_mono) auto
  also have "\<dots> \<le> length es"
    using card_image_le [of "set es" fst] card_length [of es] by simp
  finally show False using room by (simp add: card_image [OF inj])
qed

lemma reserve_handle_returns:
  assumes "0 < sint h" "length es < 9223372036854775807"
  shows "\<exists>handle next. reserve_handle es h = Some (handle, next)"
proof -
  obtain i where "find_entry es ((advance_handle ^^ i) h) = None"
    using free_handle_ahead [OF assms] by auto
  with assms(1) show ?thesis
  proof (induction i arbitrary: h)
    case 0
    then show ?case by (subst reserve_handle.simps) simp
  next
    case (Suc i)
    have "0 < sint (advance_handle h)"
      using sint_advance_handle [OF Suc.prems(1)] by simp
    with Suc have "\<exists>handle next. reserve_handle es (advance_handle h) = Some (handle, next)"
      by (simp add: funpow_swap1)
    then show ?case using Suc.prems(1) by (subst reserve_handle.simps) (auto simp: Let_def)
  qed
qed

lemma reserve_handle_fresh:
  assumes "reserve_handle es h = Some (handle, next)"
  shows "0 < sint handle \<and> find_entry es handle = None \<and> 0 < sint next"
proof -
  have pos: "0 < sint (advance_handle k)" for k
    by (simp add: advance_handle_def JFLAC_FIRST_VALID_HANDLE_def Let_def not_le)
  let ?P = "\<lambda>es (r :: jlong \<times> jlong).
    0 < sint (fst r) \<and> find_entry es (fst r) = None \<and> 0 < sint (snd r)"
  have "?P es (handle, next)"
  proof (rule reserve_handle.raw_induct [where P = "\<lambda>es h r. ?P es r", OF _ assms])
    fix rec es h r
    assume IH: "\<And>es h r. rec es h = Some r \<Longrightarrow> ?P es r"
      and eq: "(let handle = h; next1 = advance_handle h
        in if 0 < sint handle \<and> find_entry es handle = None then Some (handle, next1)
           else rec es next1) = Some r"
    show "?P es r"
    proof (cases "0 < sint h \<and> find_entry es h = None")
      case True
      with eq pos [of h] show ?thesis by (auto simp: Let_def)
    next
      case False
      with eq have "rec es (advance_handle h) = Some r" by (simp add: Let_def)
      then show ?thesis by (rule IH)
    qed
  qed
  then show ?thesis by simp
qed

section \<open>Counting\<close>

text \<open>The loop of the two \<open>active_..._count\<close> diagnostics.\<close>

fun count_entries :: "registry_entry list \<Rightarrow> jlong \<Rightarrow> jlong" where
  "count_entries [] count = count"
| "count_entries (entry # next) count = count_entries next (count + 1)"

lemma count_entries_length:
  "count_entries es n = n + of_nat (length es)"
  by (induction es arbitrary: n) (simp_all add: algebra_simps)

end
