(* ===== verification/Handle_Registry.thy ===== *)
theory Handle_Registry
  imports Handle_Table
begin

text \<open>
  What a process-wide table of opaque handles promises, for any number of native calls running
  at the same time. The decoder sessions and the encoder contexts of \<open>jflac_jni.c\<close> each implement
  it. Objects live at addresses of a heap and carry a reference count, a released flag and an
  in-use flag; the table maps positive handles to addresses. Dereferencing an address that is not
  allocated sets \<open>a_fault\<close>. Each section the code runs under its registry lock is one step, and so
  is each use of an object outside the lock; an \<open>activity\<close> is one native call in progress (a call
  made from a Java callback of another is an activity of its own).
\<close>

section \<open>The abstract table\<close>

record cell =
  c_refs :: int
  c_released :: bool
  c_in_use :: bool
  c_usable :: bool

record areg =
  a_entries :: "(jlong \<times> nat) list"
  a_cells :: "nat \<Rightarrow> cell option"
  a_fault :: bool

definition fresh_handle :: "jlong \<Rightarrow> areg \<Rightarrow> bool" where
  "fresh_handle h r \<longleftrightarrow> 0 < sint h \<and> h \<notin> fst ` set (a_entries r)"

definition fresh_cell :: "bool \<Rightarrow> cell" where
  "fresh_cell usable =
     \<lparr>c_refs = 0, c_released = False, c_in_use = False, c_usable = usable\<rparr>"

definition a_create :: "bool \<Rightarrow> nat \<Rightarrow> areg \<Rightarrow> areg" where
  "a_create usable a r = r\<lparr>a_cells := (a_cells r)(a \<mapsto> fresh_cell usable)\<rparr>"

definition a_register :: "jlong \<Rightarrow> nat \<Rightarrow> areg \<Rightarrow> areg" where
  "a_register h a r =
     (case a_cells r a of
        None \<Rightarrow> r\<lparr>a_fault := True\<rparr>
      | Some x \<Rightarrow> r\<lparr>a_entries := (h, a) # a_entries r,
                    a_cells := (a_cells r)(a \<mapsto> fresh_cell (c_usable x))\<rparr>)"

definition a_acquire :: "jlong \<Rightarrow> areg \<Rightarrow> nat option \<times> areg" where
  "a_acquire h r =
     (if 0 < sint h
      then
        case map_of (a_entries r) h of
          None \<Rightarrow> (None, r)
        | Some a \<Rightarrow>
            (case a_cells r a of
               None \<Rightarrow> (None, r\<lparr>a_fault := True\<rparr>)
             | Some x \<Rightarrow>
                 if \<not> c_released x \<and> \<not> c_in_use x \<and> c_usable x
                 then (Some a, r\<lparr>a_cells := (a_cells r)(a \<mapsto>
                         x\<lparr>c_refs := c_refs x + 1, c_in_use := True\<rparr>)\<rparr>)
                 else (None, r))
      else (None, r))"

definition a_release :: "nat \<Rightarrow> areg \<Rightarrow> bool \<times> areg" where
  "a_release a r =
     (case a_cells r a of
        None \<Rightarrow> (False, r\<lparr>a_fault := True\<rparr>)
      | Some x \<Rightarrow>
          let refs = (if c_refs x > 0 then c_refs x - 1 else c_refs x)
          in (c_released x \<and> refs = 0,
              r\<lparr>a_cells := (a_cells r)(a \<mapsto> x\<lparr>c_refs := refs, c_in_use := False\<rparr>)\<rparr>))"

definition a_remove :: "jlong \<Rightarrow> areg \<Rightarrow> nat option \<times> areg" where
  "a_remove h r =
     (if 0 < sint h
      then
        case map_of (a_entries r) h of
          None \<Rightarrow> (None, r)
        | Some a \<Rightarrow>
            let r1 = r\<lparr>a_entries := remove1 (h, a) (a_entries r)\<rparr>
            in (case a_cells r a of
                  None \<Rightarrow> (None, r1\<lparr>a_fault := True\<rparr>)
                | Some x \<Rightarrow>
                    ((if c_refs x = 0 then Some a else None),
                     r1\<lparr>a_cells := (a_cells r)(a \<mapsto> x\<lparr>c_released := True\<rparr>)\<rparr>))
      else (None, r))"

definition a_destroy :: "nat \<Rightarrow> areg \<Rightarrow> areg" where
  "a_destroy a r =
     (case a_cells r a of
        None \<Rightarrow> r\<lparr>a_fault := True\<rparr>
      | Some x \<Rightarrow> r\<lparr>a_cells := (a_cells r)(a := None)\<rparr>)"

definition a_touch :: "bool \<Rightarrow> nat \<Rightarrow> areg \<Rightarrow> areg" where
  "a_touch usable a r =
     (case a_cells r a of
        None \<Rightarrow> r\<lparr>a_fault := True\<rparr>
      | Some x \<Rightarrow> r\<lparr>a_cells := (a_cells r)(a \<mapsto> x\<lparr>c_usable := usable\<rparr>)\<rparr>)"

section \<open>Activities\<close>

datatype activity = Idle | Opening nat | Using nat | Destroying nat

fun holds :: "activity \<Rightarrow> nat \<Rightarrow> bool" where
  "holds Idle a = False"
| "holds (Opening b) a = (a = b)"
| "holds (Using b) a = (a = b)"
| "holds (Destroying b) a = (a = b)"

record asys =
  a_reg :: areg
  a_acts :: "nat \<Rightarrow> activity"

definition a_init :: asys where
  "a_init = \<lparr>a_reg = \<lparr>a_entries = [], a_cells = Map.empty, a_fault = False\<rparr>,
     a_acts = (\<lambda>_. Idle)\<rparr>"

abbreviation set_act :: "nat \<Rightarrow> activity \<Rightarrow> (nat \<Rightarrow> activity) \<Rightarrow> (nat \<Rightarrow> activity)" where
  "set_act t x acts \<equiv> acts(t := x)"

inductive a_step :: "asys \<Rightarrow> asys \<Rightarrow> bool" where
  create: "a_acts s t = Idle \<Longrightarrow> a_cells (a_reg s) a = None \<Longrightarrow>
    a_step s \<lparr>a_reg = a_create usable a (a_reg s), a_acts = set_act t (Opening a) (a_acts s)\<rparr>"
| register: "a_acts s t = Opening a \<Longrightarrow> fresh_handle h (a_reg s) \<Longrightarrow>
    a_step s \<lparr>a_reg = a_register h a (a_reg s), a_acts = set_act t Idle (a_acts s)\<rparr>"
| abandon: "a_acts s t = Opening a \<Longrightarrow>
    a_step s (s\<lparr>a_acts := set_act t (Destroying a) (a_acts s)\<rparr>)"
| acquire: "a_acts s t = Idle \<Longrightarrow> a_acquire h (a_reg s) = (Some a, r) \<Longrightarrow>
    a_step s \<lparr>a_reg = r, a_acts = set_act t (Using a) (a_acts s)\<rparr>"
| reject: "a_acts s t = Idle \<Longrightarrow> a_acquire h (a_reg s) = (None, r) \<Longrightarrow>
    a_step s (s\<lparr>a_reg := r\<rparr>)"
| touch: "holds (a_acts s t) a \<Longrightarrow> a_step s (s\<lparr>a_reg := a_touch usable a (a_reg s)\<rparr>)"
| release: "a_acts s t = Using a \<Longrightarrow> a_release a (a_reg s) = (dead, r) \<Longrightarrow>
    a_step s \<lparr>a_reg = r,
      a_acts = set_act t (if dead then Destroying a else Idle) (a_acts s)\<rparr>"
| remove: "a_acts s t = Idle \<Longrightarrow> a_remove h (a_reg s) = (victim, r) \<Longrightarrow>
    a_step s \<lparr>a_reg = r,
      a_acts = set_act t (case victim of Some a \<Rightarrow> Destroying a | None \<Rightarrow> Idle) (a_acts s)\<rparr>"
| destroy: "a_acts s t = Destroying a \<Longrightarrow>
    a_step s \<lparr>a_reg = a_destroy a (a_reg s), a_acts = set_act t Idle (a_acts s)\<rparr>"

inductive a_reachable :: "asys \<Rightarrow> bool" where
  start: "a_reachable a_init"
| step: "a_reachable s \<Longrightarrow> a_step s s' \<Longrightarrow> a_reachable s'"

section \<open>The invariant\<close>

definition in_table :: "areg \<Rightarrow> nat \<Rightarrow> bool" where
  "in_table r a \<longleftrightarrow> a \<in> snd ` set (a_entries r)"

definition used :: "asys \<Rightarrow> nat \<Rightarrow> bool" where
  "used s a \<longleftrightarrow> (\<exists>t. a_acts s t = Using a)"

text \<open>The table: distinct positive handles, distinct live objects that are not released.\<close>

definition table_inv :: "areg \<Rightarrow> bool" where
  "table_inv r \<longleftrightarrow> distinct (map fst (a_entries r)) \<and> distinct (map snd (a_entries r)) \<and>
     (\<forall>(h, a) \<in> set (a_entries r). 0 < sint h \<and>
        (\<exists>x. a_cells r a = Some x \<and> \<not> c_released x))"

text \<open>
  The activities: each object has at most one holder, and it is live; an opening or destroying
  holder owns an object outside the table; the count and the in-use flag say whether the object is
  in use; an object outside the table has a holder (nothing leaks), and when that holder uses it,
  it is released.
\<close>

definition act_inv :: "asys \<Rightarrow> bool" where
  "act_inv s \<longleftrightarrow>
     (\<forall>t a. holds (a_acts s t) a \<longrightarrow> a_cells (a_reg s) a \<noteq> None) \<and>
     (\<forall>t t' a. holds (a_acts s t) a \<longrightarrow> holds (a_acts s t') a \<longrightarrow> t = t') \<and>
     (\<forall>t a. a_acts s t = Opening a \<or> a_acts s t = Destroying a \<longrightarrow> \<not> in_table (a_reg s) a) \<and>
     (\<forall>a x. a_cells (a_reg s) a = Some x \<longrightarrow>
        c_refs x = (if used s a then 1 else 0) \<and> c_in_use x = used s a) \<and>
     (\<forall>a x. a_cells (a_reg s) a = Some x \<longrightarrow> \<not> in_table (a_reg s) a \<longrightarrow>
        (\<exists>t. holds (a_acts s t) a) \<and> (used s a \<longrightarrow> c_released x))"

definition sys_inv :: "asys \<Rightarrow> bool" where
  "sys_inv s \<longleftrightarrow> \<not> a_fault (a_reg s) \<and> table_inv (a_reg s) \<and> act_inv s"

lemma sys_invI:
  assumes "\<not> a_fault (a_reg s)" "table_inv (a_reg s)"
    and "\<And>t a. holds (a_acts s t) a \<Longrightarrow> a_cells (a_reg s) a \<noteq> None"
    and "\<And>t t' a. holds (a_acts s t) a \<Longrightarrow> holds (a_acts s t') a \<Longrightarrow> t = t'"
    and "\<And>t a. a_acts s t = Opening a \<or> a_acts s t = Destroying a \<Longrightarrow> \<not> in_table (a_reg s) a"
    and "\<And>a x. a_cells (a_reg s) a = Some x \<Longrightarrow> c_refs x = (if used s a then 1 else 0)"
    and "\<And>a x. a_cells (a_reg s) a = Some x \<Longrightarrow> c_in_use x = used s a"
    and "\<And>a x. a_cells (a_reg s) a = Some x \<Longrightarrow> \<not> in_table (a_reg s) a \<Longrightarrow>
           \<exists>t. holds (a_acts s t) a"
    and "\<And>a x. a_cells (a_reg s) a = Some x \<Longrightarrow> \<not> in_table (a_reg s) a \<Longrightarrow> used s a \<Longrightarrow>
           c_released x"
  shows "sys_inv s"
  using assms unfolding sys_inv_def act_inv_def by blast

lemma sys_invD:
  assumes "sys_inv s"
  shows "\<not> a_fault (a_reg s)" "table_inv (a_reg s)"
    and "holds (a_acts s t) a \<Longrightarrow> \<exists>x. a_cells (a_reg s) a = Some x"
    and "holds (a_acts s t) a \<Longrightarrow> holds (a_acts s t') a \<Longrightarrow> t = t'"
    and "a_acts s t = Opening a \<Longrightarrow> \<not> in_table (a_reg s) a"
    and "a_acts s t = Destroying a \<Longrightarrow> \<not> in_table (a_reg s) a"
    and "a_cells (a_reg s) a = Some x \<Longrightarrow> c_refs x = (if used s a then 1 else 0)"
    and "a_cells (a_reg s) a = Some x \<Longrightarrow> c_in_use x = used s a"
    and "a_cells (a_reg s) a = Some x \<Longrightarrow> \<not> in_table (a_reg s) a \<Longrightarrow> \<exists>t. holds (a_acts s t) a"
    and "a_cells (a_reg s) a = Some x \<Longrightarrow> \<not> in_table (a_reg s) a \<Longrightarrow> used s a \<Longrightarrow>
           c_released x"
  using assms unfolding sys_inv_def act_inv_def by blast+

lemma holds_Using [simp]: "x = Using a \<Longrightarrow> holds x a"
  by simp

lemma used_holds: "used s a \<Longrightarrow> \<exists>t. holds (a_acts s t) a"
  unfolding used_def by (metis holds.simps(3))

lemma used_update:
  "used \<lparr>a_reg = r, a_acts = acts(t := x)\<rparr> a \<longleftrightarrow> x = Using a \<or> (\<exists>t'. t' \<noteq> t \<and> acts t' = Using a)"
  by (auto simp: used_def)

lemma table_lookup:
  assumes "table_inv r" "map_of (a_entries r) h = Some a"
  shows "in_table r a" "\<exists>x. a_cells r a = Some x \<and> \<not> c_released x" "0 < sint h"
    "(h, a) \<in> set (a_entries r)"
  using assms map_of_SomeD [OF assms(2)]
  by (force simp: table_inv_def in_table_def)+

lemma table_cell:
  assumes "table_inv r" "in_table r a" "a_cells r a = Some x"
  shows "\<not> c_released x"
  using assms by (force simp: table_inv_def in_table_def)

lemma in_table_live:
  assumes "table_inv r" "in_table r a"
  shows "\<exists>x. a_cells r a = Some x"
  using assms by (force simp: table_inv_def in_table_def)

lemma in_table_fields [simp]:
  "in_table (r\<lparr>a_cells := cs\<rparr>) a = in_table r a"
  "in_table (r\<lparr>a_fault := f\<rparr>) a = in_table r a"
  by (auto simp: in_table_def)

lemma used_change:
  assumes "a_acts s t \<noteq> Using b" "x \<noteq> Using b"
  shows "used \<lparr>a_reg = r, a_acts = (a_acts s)(t := x)\<rparr> b = used s b"
proof
  assume "used s b"
  then obtain t' where "a_acts s t' = Using b" by (auto simp: used_def)
  with assms(1) have "((a_acts s)(t := x)) t' = Using b" by auto
  then show "used \<lparr>a_reg = r, a_acts = (a_acts s)(t := x)\<rparr> b"
    by (auto simp: used_def simp del: fun_upd_apply)
qed (use assms in \<open>auto simp: used_def split: if_splits\<close>)

lemma holder_kept:
  assumes "holds (a_acts s t') b" "\<not> holds (a_acts s t) b"
  shows "\<exists>t''. holds (((a_acts s)(t := x)) t'') b"
proof -
  from assms have "t' \<noteq> t" by auto
  with assms(1) show ?thesis by (auto intro!: exI [of _ t'])
qed

lemma other_holder:
  assumes "sys_inv s" "a_cells (a_reg s) b = Some y" "\<not> in_table (a_reg s) b"
    "\<not> holds (a_acts s t) b"
  shows "\<exists>t'. holds (((a_acts s)(t := x)) t') b"
  using sys_invD(9) [OF assms(1-3)] holder_kept [of s _ b t] assms(4) by blast

lemma inv_create:
  assumes inv: "sys_inv s" and idle: "a_acts s t = Idle" and new: "a_cells (a_reg s) a = None"
  shows "sys_inv \<lparr>a_reg = a_create usable a (a_reg s), a_acts = (a_acts s)(t := Opening a)\<rparr>"
proof -
  have nh: "\<not> holds (a_acts s t') a" for t'
    using sys_invD(3) [OF inv] new by force
  have nu: "\<not> used s a" using nh used_holds by blast
  have nt: "\<not> in_table (a_reg s) a"
    using in_table_live [OF sys_invD(2) [OF inv]] new by force
  have tab: "in_table (a_create usable a (a_reg s)) b = in_table (a_reg s) b" for b
    by (simp add: a_create_def in_table_def)
  have use: "used \<lparr>a_reg = r, a_acts = (a_acts s)(t := Opening a)\<rparr> b = used s b" for r b
    by (rule used_change) (use idle in auto)
  show ?thesis
  proof (rule sys_invI, goal_cases)
    case 2
    have "table_inv (a_reg s)" by (rule sys_invD(2) [OF inv])
    then show ?case using nt unfolding table_inv_def a_create_def in_table_def
      by (auto simp: image_iff split: if_splits) 
  next
    case (8 b x)
    show ?case
    proof (cases "b = a")
      case True
      then show ?thesis by (auto intro: exI [of _ t])
    next
      case False
      from 8(2) have "\<not> in_table (a_reg s) b" by (simp add: tab)
      with 8(1) False obtain t' where "holds (a_acts s t') b"
        using sys_invD(9) [OF inv, of b] by (auto simp: a_create_def)
      then show ?thesis using idle by (auto intro!: exI [of _ t'])
    qed
  next
    case (3 t' b)
    then show ?case using sys_invD(3) [OF inv, of t' b] by (auto simp: a_create_def split: if_splits)
  next
    case (4 t' t'' b)
    then show ?case using sys_invD(4) [OF inv, of t' b t''] nh by (auto split: if_splits)
  next
    case (5 t' b)
    then show ?case using sys_invD(5,6) [OF inv, of t' b] nt by (auto simp: tab split: if_splits)
  next
    case (6 b y)
    then show ?case using sys_invD(7) [OF inv, of b] nu
      by (auto simp: a_create_def fresh_cell_def use split: if_splits)
  next
    case (7 b y)
    then show ?case using sys_invD(8) [OF inv, of b] nu
      by (auto simp: a_create_def fresh_cell_def use split: if_splits)
  next
    case (9 b y)
    then show ?case using sys_invD(10) [OF inv, of b] nu
      by (auto simp: a_create_def use split: if_splits)
  qed (use sys_invD(1) [OF inv] in \<open>simp add: a_create_def\<close>)
qed


text \<open>The holder of an object, and nobody else, decides whether it is used.\<close>

lemma used_iff_holder:
  assumes "sys_inv s" "holds (a_acts s t) a"
  shows "used s a \<longleftrightarrow> a_acts s t = Using a"
proof
  assume "used s a"
  then obtain t' where t': "a_acts s t' = Using a" by (auto simp: used_def)
  then have "holds (a_acts s t') a" by simp
  with sys_invD(4) [OF assms(1)] assms(2) have "t' = t" by blast
  with t' show "a_acts s t = Using a" by simp
qed (auto simp: used_def)

lemma inv_abandon:
  assumes inv: "sys_inv s" and op: "a_acts s t = Opening a"
  shows "sys_inv (s\<lparr>a_acts := (a_acts s)(t := Destroying a)\<rparr>)"
proof -
  have hold: "holds (((a_acts s)(t := Destroying a)) t') b = holds (a_acts s t') b" for t' b
    using op by simp
  have use: "used (s\<lparr>a_acts := (a_acts s)(t := Destroying a)\<rparr>) b = used s b" for b
    using used_change [of s t b "Destroying a" "a_reg s"] op by (cases s) simp
  show ?thesis
  proof (rule sys_invI, goal_cases)
    case (5 t' b)
    then show ?case using sys_invD(5,6) [OF inv] op by (auto split: if_splits)
  qed (use sys_invD [OF inv] in \<open>simp_all add: use hold del: fun_upd_apply\<close>)
qed


text \<open>Changing one live cell and the table entries does not touch the others.\<close>

lemma inv_acquire:
  assumes inv: "sys_inv s" and op: "a_acts s t = Idle"
    and acq: "a_acquire h (a_reg s) = (Some a, r)"
  shows "sys_inv \<lparr>a_reg = r, a_acts = (a_acts s)(t := Using a)\<rparr>"
proof -
  from acq obtain x where h: "map_of (a_entries (a_reg s)) h = Some a"
    and x: "a_cells (a_reg s) a = Some x" "\<not> c_in_use x"
    and r: "r = (a_reg s)\<lparr>a_cells := (a_cells (a_reg s))(a \<mapsto>
                    x\<lparr>c_refs := c_refs x + 1, c_in_use := True\<rparr>)\<rparr>"
    by (auto simp: a_acquire_def split: if_splits option.splits)
  note T = table_lookup [OF sys_invD(2) [OF inv] h]
  have nu: "\<not> used s a" using sys_invD(8) [OF inv x(1)] x(2) by simp
  have nh: "\<not> holds (a_acts s t') a" for t'
    using sys_invD(5,6) [OF inv, of t' a] nu T(1) by (cases "a_acts s t'") (auto simp: used_def)
  have tab: "in_table r b = in_table (a_reg s) b" for b
    by (simp add: r in_table_def)
  have use: "used \<lparr>a_reg = r', a_acts = (a_acts s)(t := Using a)\<rparr> b \<longleftrightarrow> b = a \<or> used s b" for r' b
    using used_change [of s t b "Using a" r'] op by (cases "b = a") (auto simp: used_def)
  show ?thesis
  proof (rule sys_invI, goal_cases)
    case 2
    show ?case using sys_invD(2) [OF inv] x T(2) unfolding table_inv_def r
      by (force split: if_splits)
  next
    case (8 b y)
    show ?case
    proof (cases "b = a")
      case True
      then show ?thesis by (auto intro: exI [of _ t])
    next
      case False
      with 8 obtain t' where "holds (a_acts s t') b"
        using sys_invD(9) [OF inv, of b] tab by (auto simp: r in_table_def)
      then show ?thesis using op by (auto intro!: exI [of _ t'])
    qed
  next
    case (5 t' b)
    then show ?case using sys_invD(5,6) [OF inv, of t' b] by (auto simp: tab split: if_splits)
  next
    case (9 b y)
    then show ?case using sys_invD(10) [OF inv, of b] T(1) by (auto simp: tab use r split: if_splits)
  next
    case (4 t' t'' b)
    then show ?case using sys_invD(4) [OF inv, of t' b t''] nh by (auto split: if_splits)
  next
    case (3 t' b)
    then show ?case using sys_invD(3) [OF inv, of t' b] x by (auto simp: r split: if_splits)
  next
    case (6 b y)
    then show ?case using sys_invD(7) [OF inv, of b] nu x by (auto simp: r use split: if_splits)
  next
    case (7 b y)
    then show ?case using sys_invD(8) [OF inv, of b] nu by (auto simp: r use split: if_splits)
  qed (use sys_invD(1) [OF inv] in \<open>simp add: r\<close>)
qed

lemma inv_reject:
  assumes inv: "sys_inv s" and acq: "a_acquire h (a_reg s) = (None, r)"
  shows "r = a_reg s"
  using acq table_lookup(2) [OF sys_invD(2) [OF inv]]
  by (force simp: a_acquire_def split: if_splits option.splits)

lemma inv_touch:
  assumes inv: "sys_inv s" and op: "holds (a_acts s t) a"
  shows "sys_inv (s\<lparr>a_reg := a_touch usable a (a_reg s)\<rparr>)"
proof -
  obtain x where x: "a_cells (a_reg s) a = Some x"
    using sys_invD(3) [OF inv op] by auto
  have reg: "a_touch usable a (a_reg s) = (a_reg s)\<lparr>a_cells := (a_cells (a_reg s))(a \<mapsto>
      x\<lparr>c_usable := usable\<rparr>)\<rparr>"
    by (simp add: a_touch_def x)
  have use: "used (s\<lparr>a_reg := r\<rparr>) b = used s b" for r b
    by (simp add: used_def)
  show ?thesis unfolding reg
  proof (rule sys_invI, goal_cases)
    case 2
    have "table_inv (a_reg s)" by (rule sys_invD(2) [OF inv])
    then show ?case using x unfolding table_inv_def by (force split: if_splits)
  next
    case (6 b y)
    then show ?case using sys_invD(7) [OF inv, of b] x by (auto simp: use split: if_splits)
  next
    case (7 b y)
    then show ?case using sys_invD(8) [OF inv, of b] x by (auto simp: use split: if_splits)
  next
    case (8 b y)
    then have "\<exists>y. a_cells (a_reg s) b = Some y" "\<not> in_table (a_reg s) b"
      using x by (auto split: if_splits)
    with sys_invD(9) [OF inv, of b] show ?case by auto
  next
    case (9 b y)
    then show ?case using sys_invD(10) [OF inv, of b] x by (auto simp: use split: if_splits)
  qed (use sys_invD [OF inv] x in \<open>auto split: if_splits\<close>)
qed

lemma inv_register:
  assumes inv: "sys_inv s" and op: "a_acts s t = Opening a" and fr: "fresh_handle h (a_reg s)"
  shows "sys_inv \<lparr>a_reg = a_register h a (a_reg s), a_acts = (a_acts s)(t := Idle)\<rparr>"
proof -
  obtain x where x: "a_cells (a_reg s) a = Some x"
    using sys_invD(3) [OF inv, of t a] op by auto
  have nt: "\<not> in_table (a_reg s) a" by (rule sys_invD(5) [OF inv op])
  have alone: "t' \<noteq> t \<Longrightarrow> \<not> holds (a_acts s t') a" for t'
    using sys_invD(4) [OF inv, of t' a t] op by auto
  have nu: "\<not> used s a" using used_iff_holder [OF inv, of t a] op by simp
  have reg: "a_register h a (a_reg s) = (a_reg s)\<lparr>a_entries := (h, a) # a_entries (a_reg s),
      a_cells := (a_cells (a_reg s))(a \<mapsto> fresh_cell (c_usable x))\<rparr>" (is "_ = ?r")
    by (simp add: a_register_def x)
  have tab: "in_table ((a_reg s)\<lparr>a_entries := (h, a) # a_entries (a_reg s)\<rparr>) b \<longleftrightarrow>
      b = a \<or> in_table (a_reg s) b" for b
    by (auto simp: in_table_def)
  have use: "used \<lparr>a_reg = r, a_acts = (a_acts s)(t := Idle)\<rparr> b = used s b" for r b
    by (rule used_change) (use op in auto)
  show ?thesis unfolding reg
  proof (rule sys_invI, goal_cases)
    case 2
    have "table_inv (a_reg s)" by (rule sys_invD(2) [OF inv])
    then show ?case using nt fr unfolding table_inv_def in_table_def fresh_handle_def
      by (auto simp: image_iff fresh_cell_def split: if_splits)
  next
    case (8 b y)
    then have b: "a_cells (a_reg s) b = Some y" "\<not> in_table (a_reg s) b" and "a \<noteq> b"
      by (auto simp: tab split: if_splits)
    with op have "\<not> holds (a_acts s t) b" by simp
    then show ?case unfolding asys.select_convs by (rule other_holder [OF inv b])
  next
    case (3 t' b)
    then show ?case using sys_invD(3) [OF inv, of t' b] by (auto split: if_splits)
  next
    case (4 t' t'' b)
    then show ?case using sys_invD(4) [OF inv, of t' b t''] by (auto split: if_splits)
  next
    case (5 t' b)
    then show ?case using sys_invD(5,6) [OF inv, of t' b] alone [of t']
      by (auto simp: tab split: if_splits)
  next
    case (6 b y)
    then show ?case using sys_invD(7) [OF inv, of b] nu
      by (auto simp: fresh_cell_def use split: if_splits)
  next
    case (7 b y)
    then show ?case using sys_invD(8) [OF inv, of b] nu
      by (auto simp: fresh_cell_def use split: if_splits)
  next
    case (9 b y)
    then show ?case using sys_invD(10) [OF inv, of b] nu
      by (auto simp: tab use split: if_splits)
  qed (use sys_invD(1) [OF inv] in simp)
qed


lemma inv_release:
  assumes inv: "sys_inv s" and op: "a_acts s t = Using a"
    and rel: "a_release a (a_reg s) = (dead, r)"
  shows "sys_inv \<lparr>a_reg = r,
    a_acts = (a_acts s)(t := (if dead then Destroying a else Idle))\<rparr>" (is "sys_inv ?s'")
proof -
  have use0: "used s a" using op by (auto simp: used_def)
  obtain x where x: "a_cells (a_reg s) a = Some x"
    using sys_invD(3) [OF inv, of t a] op by auto
  have refs: "c_refs x = 1" using sys_invD(7) [OF inv x] use0 by simp
  have r: "r = (a_reg s)\<lparr>a_cells := (a_cells (a_reg s))(a \<mapsto>
      x\<lparr>c_refs := 0, c_in_use := False\<rparr>)\<rparr>" and dead: "dead = c_released x"
    using rel refs by (auto simp: a_release_def x)
  have alone: "t' \<noteq> t \<Longrightarrow> \<not> holds (a_acts s t') a" for t'
    using sys_invD(4) [OF inv, of t' a t] op by auto
  have rel_tab: "in_table (a_reg s) a \<longleftrightarrow> \<not> c_released x"
    using table_cell [OF sys_invD(2) [OF inv] _ x] sys_invD(10) [OF inv x] use0 by blast
  have tab: "in_table r b = in_table (a_reg s) b" for b
    by (simp add: r in_table_def)
  have nua: "\<not> used ?s' a" using alone holds_Using by (fastforce simp: used_def split: if_splits)
  have use: "b \<noteq> a \<Longrightarrow> used ?s' b = used s b" for b
    by (rule used_change) (use op in auto)
  show ?thesis
  proof (rule sys_invI, goal_cases)
    case 2
    have "table_inv (a_reg s)" by (rule sys_invD(2) [OF inv])
    then show ?case using x unfolding table_inv_def r
      by (force split: if_splits)
  next
    case (8 b y)
    show ?case
    proof (cases "b = a")
      case True
      then show ?thesis using 8 rel_tab by (auto simp: tab dead intro!: exI [of _ t])
    next
      case False
      with 8 have b: "a_cells (a_reg s) b = Some y" "\<not> in_table (a_reg s) b"
        by (auto simp: tab r)
      from op False have "\<not> holds (a_acts s t) b" by simp
      then show ?thesis unfolding asys.select_convs by (rule other_holder [OF inv b])
    qed
  next
    case (3 t' b)
    then show ?case using sys_invD(3) [OF inv, of t' b] x by (auto simp: r split: if_splits)
  next
    case (4 t' t'' b)
    then show ?case using sys_invD(4) [OF inv, of t' b t''] alone [of t'] alone [of t'']
      by (auto split: if_splits)
  next
    case (5 t' b)
    then show ?case using sys_invD(5,6) [OF inv, of t' b] rel_tab
      by (auto simp: tab dead split: if_splits)
  next
    case (6 b y)
    then show ?case using sys_invD(7) [OF inv, of b y] nua use [of b]
      by (cases "b = a") (auto simp: r)
  next
    case (7 b y)
    then show ?case using sys_invD(8) [OF inv, of b y] nua use [of b]
      by (cases "b = a") (auto simp: r)
  next
    case (9 b y)
    then show ?case using sys_invD(10) [OF inv, of b y] nua use [of b]
      by (cases "b = a") (auto simp: r tab)
  qed (use sys_invD(1) [OF inv] in \<open>simp add: r\<close>)
qed

text \<open>Taking an entry out of the table leaves the others.\<close>

lemma remove_entry:
  assumes "table_inv r" "map_of (a_entries r) h = Some a"
  shows "set (remove1 (h, a) (a_entries r)) = {e \<in> set (a_entries r). snd e \<noteq> a}"
proof -
  have "distinct (a_entries r)" using assms(1) by (auto simp: table_inv_def distinct_map)
  then have *: "set (remove1 (h, a) (a_entries r)) = set (a_entries r) - {(h, a)}" by simp
  have inj: "inj_on snd (set (a_entries r))"
    using assms(1) by (simp add: table_inv_def distinct_map)
  have only: "e = (h, a)" if "e \<in> set (a_entries r)" "snd e = a" for e
    using inj by (rule inj_onD) (use that table_lookup(4) [OF assms] in simp_all)
  show ?thesis unfolding *
  proof (intro equalityI subsetI)
    fix e assume "e \<in> set (a_entries r) - {(h, a)}"
    then show "e \<in> {e \<in> set (a_entries r). snd e \<noteq> a}" using only [of e] by blast
  qed auto
qed

lemma inv_remove:
  assumes inv: "sys_inv s" and op: "a_acts s t = Idle"
    and rm: "a_remove h (a_reg s) = (victim, r)"
  shows "sys_inv \<lparr>a_reg = r,
    a_acts = (a_acts s)(t := (case victim of Some a \<Rightarrow> Destroying a | None \<Rightarrow> Idle))\<rparr>"
    (is "sys_inv ?s'")
proof (cases "0 < sint h \<and> map_of (a_entries (a_reg s)) h \<noteq> None")
  case False
  then have "victim = None" "r = a_reg s"
    using rm by (auto simp: a_remove_def split: if_splits option.splits)
  moreover have "(a_acts s)(t := Idle) = a_acts s" using op by auto
  ultimately show ?thesis using inv by (cases s) (simp del: fun_upd_apply)
next
  case True
  then obtain a where h: "map_of (a_entries (a_reg s)) h = Some a" by auto
  note T = table_lookup [OF sys_invD(2) [OF inv] h]
  note E = remove_entry [OF sys_invD(2) [OF inv] h]
  obtain x where x: "a_cells (a_reg s) a = Some x" using T(2) by auto
  have r: "r = (a_reg s)\<lparr>a_entries := remove1 (h, a) (a_entries (a_reg s)),
        a_cells := (a_cells (a_reg s))(a \<mapsto> x\<lparr>c_released := True\<rparr>)\<rparr>"
    and victim: "victim = (if c_refs x = 0 then Some a else None)"
    using rm True by (auto simp: a_remove_def h x Let_def)
  have refs: "c_refs x = 0 \<longleftrightarrow> \<not> used s a" using sys_invD(7) [OF inv x] by simp
  have tab: "in_table r b \<longleftrightarrow> in_table (a_reg s) b \<and> b \<noteq> a" for b
    by (auto simp: r in_table_def E)
  note tab' = tab [unfolded r in_table_fields]
  have only_use: "holds (a_acts s t') a \<Longrightarrow> used s a" for t'
    using sys_invD(5,6) [OF inv, of t' a] T(1) by (cases "a_acts s t'") (auto simp: used_def)
  have use: "used ?s' b = used s b" for b
    by (rule used_change) (use op in \<open>auto simp: victim\<close>)
  note use' = use [unfolded r]
  show ?thesis
  proof (rule sys_invI, goal_cases)
    case 2
    have "table_inv (a_reg s)" by (rule sys_invD(2) [OF inv])
    then have "distinct (map fst es) \<and> distinct (map snd es)"
      if "es = remove1 (h, a) (a_entries (a_reg s))" for es
      using that E distinct_remove1 [of "a_entries (a_reg s)" "(h, a)"]
      by (auto simp: table_inv_def distinct_map intro: inj_on_subset)
    moreover have "0 < sint h'" "b \<noteq> a \<Longrightarrow> \<exists>x. a_cells (a_reg s) b = Some x \<and> \<not> c_released x"
      if "(h', b) \<in> set (a_entries (a_reg s))" for h' b
      using that \<open>table_inv (a_reg s)\<close> by (auto simp: table_inv_def)
    ultimately show ?case unfolding table_inv_def r by (auto simp: E)
  next
    case (8 b y)
    show ?case
    proof (cases "b = a")
      case True
      show ?thesis
      proof (cases "used s a")
        case True
        then obtain t' where "a_acts s t' = Using a" by (auto simp: used_def)
        with op \<open>b = a\<close> show ?thesis by (auto intro!: exI [of _ t'])
      qed (use True refs victim in \<open>auto intro!: exI [of _ t]\<close>)
    next
      case False
      with 8 have b: "a_cells (a_reg s) b = Some y" "\<not> in_table (a_reg s) b"
        by (auto simp: tab' r)
      from op False have "\<not> holds (a_acts s t) b" by simp
      then show ?thesis unfolding asys.select_convs by (rule other_holder [OF inv b])
    qed
  next
    case (3 t' b)
    then show ?case using sys_invD(3) [OF inv, of t' b] x
      by (auto simp: r victim split: if_splits)
  next
    case (4 t' t'' b)
    then show ?case using sys_invD(4) [OF inv, of t' b t''] only_use [of t'] only_use [of t''] refs
      by (auto simp: victim split: if_splits)
  next
    case (5 t' b)
    then show ?case using sys_invD(5,6) [OF inv, of t' b]
      by (auto simp: tab victim split: if_splits)
  next
    case (6 b y)
    then show ?case using sys_invD(7) [OF inv, of b] x by (auto simp: r use' split: if_splits)
  next
    case (7 b y)
    then show ?case using sys_invD(8) [OF inv, of b] x by (auto simp: r use' split: if_splits)
  next
    case (9 b y)
    then show ?case using sys_invD(10) [OF inv, of b] by (auto simp: r tab' use' split: if_splits)
  qed (use sys_invD(1) [OF inv] in \<open>simp add: r\<close>)
qed

lemma inv_destroy:
  assumes inv: "sys_inv s" and op: "a_acts s t = Destroying a"
  shows "sys_inv \<lparr>a_reg = a_destroy a (a_reg s), a_acts = (a_acts s)(t := Idle)\<rparr>"
proof -
  obtain x where x: "a_cells (a_reg s) a = Some x"
    using sys_invD(3) [OF inv, of t a] op by auto
  have nt: "\<not> in_table (a_reg s) a" by (rule sys_invD(6) [OF inv op])
  have alone: "t' \<noteq> t \<Longrightarrow> \<not> holds (a_acts s t') a" for t'
    using sys_invD(4) [OF inv, of t' a t] op by auto
  have reg: "a_destroy a (a_reg s) = (a_reg s)\<lparr>a_cells := (a_cells (a_reg s))(a := None)\<rparr>"
    by (simp add: a_destroy_def x)
  have use: "used \<lparr>a_reg = r, a_acts = (a_acts s)(t := Idle)\<rparr> b = used s b" for r b
    by (rule used_change) (use op in auto)
  show ?thesis unfolding reg
  proof (rule sys_invI, goal_cases)
    case 2
    have "table_inv (a_reg s)" by (rule sys_invD(2) [OF inv])
    then show ?case using nt unfolding table_inv_def in_table_def
      by (fastforce simp: image_iff)
  next
    case (8 b y)
    then have b: "a_cells (a_reg s) b = Some y" "\<not> in_table (a_reg s) b" and "a \<noteq> b"
      by (auto split: if_splits)
    with op have "\<not> holds (a_acts s t) b" by simp
    then show ?case unfolding asys.select_convs by (rule other_holder [OF inv b])
  next
    case (3 t' b)
    then show ?case using sys_invD(3) [OF inv, of t' b] alone [of t'] by (auto split: if_splits)
  next
    case (4 t' t'' b)
    then show ?case using sys_invD(4) [OF inv, of t' b t''] by (auto split: if_splits)
  next
    case (5 t' b)
    then show ?case using sys_invD(5,6) [OF inv, of t' b] by (auto split: if_splits)
  next
    case (6 b y)
    then show ?case using sys_invD(7) [OF inv, of b] by (auto simp: use split: if_splits)
  next
    case (7 b y)
    then show ?case using sys_invD(8) [OF inv, of b] by (auto simp: use split: if_splits)
  next
    case (9 b y)
    then show ?case using sys_invD(10) [OF inv, of b] by (auto simp: use split: if_splits)
  qed (use sys_invD(1) [OF inv] in simp)
qed

lemma a_init_inv: "sys_inv a_init"
  by (rule sys_invI) (auto simp: a_init_def table_inv_def)

lemma a_step_inv:
  assumes "a_step s s'" "sys_inv s"
  shows "sys_inv s'"
  using assms
proof (induction rule: a_step.induct)
  case (create s t a usable)
  then show ?case by (intro inv_create)
next
  case (register s t a h)
  then show ?case by (intro inv_register)
next
  case (abandon s t a)
  then show ?case by (intro inv_abandon)
next
  case (acquire s t h a r)
  then show ?case by (intro inv_acquire)
next
  case (reject s t h r)
  then show ?case using inv_reject [of s h r] by simp
next
  case (touch s t a)
  then show ?case by (intro inv_touch)
next
  case (release s t a dead r)
  then show ?case by (intro inv_release)
next
  case (remove s t h victim r)
  then show ?case by (intro inv_remove)
next
  case (destroy s t a)
  then show ?case by (intro inv_destroy)
qed

lemma a_reachable_inv: "a_reachable s \<Longrightarrow> sys_inv s"
  by (induction rule: a_reachable.induct) (auto intro: a_init_inv a_step_inv)

section \<open>What the invariant gives\<close>

lemma exclusive_use:
  "sys_inv s \<Longrightarrow> holds (a_acts s t) a \<Longrightarrow> holds (a_acts s t') a \<Longrightarrow> t = t'"
  by (rule sys_invD(4))

lemma quiescent_cells:
  assumes "sys_inv s" "\<forall>t. a_acts s t = Idle"
  shows "dom (a_cells (a_reg s)) = snd ` set (a_entries (a_reg s))"
proof (intro equalityI subsetI)
  fix a assume "a \<in> dom (a_cells (a_reg s))"
  then show "a \<in> snd ` set (a_entries (a_reg s))"
    using sys_invD(9) [OF assms(1), of a] assms(2) by (auto simp: in_table_def)
next
  fix a assume "a \<in> snd ` set (a_entries (a_reg s))"
  then show "a \<in> dom (a_cells (a_reg s))"
    using in_table_live [OF sys_invD(2) [OF assms(1)], of a] by (auto simp: in_table_def)
qed

section \<open>Implementations\<close>

text \<open>
  An implementation works on a state \<open>'s\<close>; \<open>'o\<close> is what an object holds besides its registry
  fields. \<open>op_register\<close> is None when it does not return, \<open>op_update\<close> stands for everything a call
  does to an object outside the lock, and the result of \<open>op_release\<close> says whether the caller has
  to destroy the object.
\<close>

record ('s, 'o) reg_ops =
  op_init :: 's
  op_allocated :: "nat \<Rightarrow> 's \<Rightarrow> bool"
  op_create :: "'o \<Rightarrow> nat \<Rightarrow> 's \<Rightarrow> 's"
  op_register :: "nat \<Rightarrow> 's \<Rightarrow> (jlong \<times> 's) option"
  op_acquire :: "jlong \<Rightarrow> 's \<Rightarrow> nat option \<times> 's"
  op_update :: "'o \<Rightarrow> nat \<Rightarrow> 's \<Rightarrow> 's"
  op_release :: "nat \<Rightarrow> 's \<Rightarrow> bool \<times> 's"
  op_remove :: "jlong \<Rightarrow> 's \<Rightarrow> nat option \<times> 's"
  op_destroy :: "nat \<Rightarrow> 's \<Rightarrow> 's"

record 's reg_sys =
  rs_reg :: 's
  rs_acts :: "nat \<Rightarrow> activity"

definition reg_start :: "('s, 'o) reg_ops \<Rightarrow> 's reg_sys" where
  "reg_start ops = \<lparr>rs_reg = op_init ops, rs_acts = (\<lambda>_. Idle)\<rparr>"

inductive reg_step :: "('s, 'o) reg_ops \<Rightarrow> 's reg_sys \<Rightarrow> 's reg_sys \<Rightarrow> bool" for ops where
  create: "rs_acts s t = Idle \<Longrightarrow> \<not> op_allocated ops a (rs_reg s) \<Longrightarrow>
    reg_step ops s \<lparr>rs_reg = op_create ops x a (rs_reg s),
      rs_acts = set_act t (Opening a) (rs_acts s)\<rparr>"
| register: "rs_acts s t = Opening a \<Longrightarrow> op_register ops a (rs_reg s) = Some (h, r) \<Longrightarrow>
    reg_step ops s \<lparr>rs_reg = r, rs_acts = set_act t Idle (rs_acts s)\<rparr>"
| abandon: "rs_acts s t = Opening a \<Longrightarrow>
    reg_step ops s (s\<lparr>rs_acts := set_act t (Destroying a) (rs_acts s)\<rparr>)"
| acquire: "rs_acts s t = Idle \<Longrightarrow> op_acquire ops h (rs_reg s) = (Some a, r) \<Longrightarrow>
    reg_step ops s \<lparr>rs_reg = r, rs_acts = set_act t (Using a) (rs_acts s)\<rparr>"
| reject: "rs_acts s t = Idle \<Longrightarrow> op_acquire ops h (rs_reg s) = (None, r) \<Longrightarrow>
    reg_step ops s (s\<lparr>rs_reg := r\<rparr>)"
| update: "holds (rs_acts s t) a \<Longrightarrow>
    reg_step ops s (s\<lparr>rs_reg := op_update ops x a (rs_reg s)\<rparr>)"
| release: "rs_acts s t = Using a \<Longrightarrow> op_release ops a (rs_reg s) = (dead, r) \<Longrightarrow>
    reg_step ops s \<lparr>rs_reg = r,
      rs_acts = set_act t (if dead then Destroying a else Idle) (rs_acts s)\<rparr>"
| remove: "rs_acts s t = Idle \<Longrightarrow> op_remove ops h (rs_reg s) = (victim, r) \<Longrightarrow>
    reg_step ops s \<lparr>rs_reg = r,
      rs_acts = set_act t (case victim of Some a \<Rightarrow> Destroying a | None \<Rightarrow> Idle) (rs_acts s)\<rparr>"
| destroy: "rs_acts s t = Destroying a \<Longrightarrow>
    reg_step ops s \<lparr>rs_reg = op_destroy ops a (rs_reg s), rs_acts = set_act t Idle (rs_acts s)\<rparr>"

inductive reg_reachable :: "('s, 'o) reg_ops \<Rightarrow> 's reg_sys \<Rightarrow> bool" for ops where
  start: "reg_reachable ops (reg_start ops)"
| step: "reg_reachable ops s \<Longrightarrow> reg_step ops s s' \<Longrightarrow> reg_reachable ops s'"

section \<open>The contract of an implementation\<close>

locale session_registry =
  fixes ops :: "('s, 'o) reg_ops"
    and abs :: "'s \<Rightarrow> areg"
    and ok :: "'s \<Rightarrow> bool"
    and usable :: "'o \<Rightarrow> bool"
  assumes law_init: "abs (op_init ops) = a_reg a_init" "ok (op_init ops)"
    and law_allocated: "op_allocated ops a s \<longleftrightarrow> a_cells (abs s) a \<noteq> None"
    and law_create: "abs (op_create ops x a s) = a_create (usable x) a (abs s)"
      "ok (op_create ops x a s) = ok s"
    and law_register: "ok s \<Longrightarrow> op_register ops a s = Some (h, s') \<Longrightarrow>
      fresh_handle h (abs s) \<and> abs s' = a_register h a (abs s) \<and> ok s'"
    and law_register_returns: "ok s \<Longrightarrow> length (a_entries (abs s)) < 9223372036854775807 \<Longrightarrow>
      op_register ops a s \<noteq> None"
    and law_acquire: "op_acquire ops h s = (x', s') \<Longrightarrow> a_acquire h (abs s) = (x', abs s') \<and> ok s' = ok s"
    and law_update: "abs (op_update ops x a s) = a_touch (usable x) a (abs s)"
      "ok (op_update ops x a s) = ok s"
    and law_release: "op_release ops a s = (d, s') \<Longrightarrow> a_release a (abs s) = (d, abs s') \<and> ok s' = ok s"
    and law_remove: "op_remove ops h s = (x', s') \<Longrightarrow> a_remove h (abs s) = (x', abs s') \<and> ok s' = ok s"
    and law_destroy: "abs (op_destroy ops a s) = a_destroy a (abs s)"
      "ok (op_destroy ops a s) = ok s"
begin

definition abs_sys :: "'s reg_sys \<Rightarrow> asys" where
  "abs_sys s = \<lparr>a_reg = abs (rs_reg s), a_acts = rs_acts s\<rparr>"

lemma abs_sys_sel [simp]: "a_reg (abs_sys s) = abs (rs_reg s)" "a_acts (abs_sys s) = rs_acts s"
  by (simp_all add: abs_sys_def)

lemma ok_step: "reg_step ops s s' \<Longrightarrow> ok (rs_reg s) \<Longrightarrow> ok (rs_reg s')"
  by (induction rule: reg_step.induct)
    (auto simp: law_create law_update law_destroy
      dest: law_register law_acquire law_release law_remove)

text \<open>Every step of the implementation is a step of the specification.\<close>

lemma simulation:
  assumes "reg_step ops s s'" "ok (rs_reg s)"
  shows "a_step (abs_sys s) (abs_sys s')"
  using assms
proof (induction rule: reg_step.induct)
  case (create s t a x)
  then show ?case
    using a_step.create [of "abs_sys s" t a "usable x"]
    by (simp add: abs_sys_def law_allocated law_create)
next
  case (register s t a h r)
  with law_register [of "rs_reg s" a h r] show ?case
    using a_step.register [of "abs_sys s" t a h] by (simp add: abs_sys_def)
next
  case (abandon s t a)
  then show ?case using a_step.abandon [of "abs_sys s" t a] by (simp add: abs_sys_def)
next
  case (acquire s t h a r)
  with law_acquire [of h "rs_reg s" "Some a" r] show ?case
    using a_step.acquire [of "abs_sys s" t h a "abs r"] by (simp add: abs_sys_def)
next
  case (reject s t h r)
  with law_acquire [of h "rs_reg s" None r] show ?case
    using a_step.reject [of "abs_sys s" t h "abs r"] by (simp add: abs_sys_def)
next
  case (update s t a x)
  then show ?case
    using a_step.touch [of "abs_sys s" t a "usable x"] by (simp add: abs_sys_def law_update)
next
  case (release s t a dead r)
  with law_release [of a "rs_reg s" dead r] show ?case
    using a_step.release [of "abs_sys s" t a dead "abs r"] by (simp add: abs_sys_def)
next
  case (remove s t h victim r)
  with law_remove [of h "rs_reg s" victim r] show ?case
    using a_step.remove [of "abs_sys s" t h victim "abs r"] by (simp add: abs_sys_def)
next
  case (destroy s t a)
  then show ?case
    using a_step.destroy [of "abs_sys s" t a] by (simp add: abs_sys_def law_destroy)
qed

lemma reachable_refines:
  "reg_reachable ops s \<Longrightarrow> ok (rs_reg s) \<and> a_reachable (abs_sys s)"
proof (induction rule: reg_reachable.induct)
  case start
  have "abs_sys (reg_start ops) = a_init"
    by (simp add: abs_sys_def reg_start_def law_init a_init_def)
  then show ?case by (simp add: a_reachable.start reg_start_def law_init)
next
  case (step s s')
  then show ?case using ok_step simulation a_reachable.step by blast
qed

text \<open>The lemmas the two registries use.\<close>

lemma reachable_inv: "reg_reachable ops s \<Longrightarrow> sys_inv (abs_sys s)"
  using reachable_refines a_reachable_inv by blast

lemma no_fault: "reg_reachable ops s \<Longrightarrow> \<not> a_fault (abs (rs_reg s))"
  using sys_invD(1) [OF reachable_inv] by simp

lemma one_holder:
  "reg_reachable ops s \<Longrightarrow> holds (rs_acts s t) a \<Longrightarrow> holds (rs_acts s t') a \<Longrightarrow> t = t'"
  using sys_invD(4) [OF reachable_inv] by simp

lemma held_allocated:
  "reg_reachable ops s \<Longrightarrow> holds (rs_acts s t) a \<Longrightarrow> op_allocated ops a (rs_reg s)"
  using sys_invD(3) [OF reachable_inv, of s t a] by (simp add: law_allocated)

lemma no_leak:
  "reg_reachable ops s \<Longrightarrow> \<forall>t. rs_acts s t = Idle \<Longrightarrow>
   op_allocated ops a (rs_reg s) \<longleftrightarrow> a \<in> snd ` set (a_entries (abs (rs_reg s)))"
  using quiescent_cells [OF reachable_inv, of s] by (auto simp: law_allocated dom_def)

lemma stale_handle:
  assumes "h \<notin> fst ` set (a_entries (abs s))"
  shows "\<exists>s'. op_acquire ops h s = (None, s') \<and> abs s' = abs s"
    "\<exists>s'. op_remove ops h s = (None, s') \<and> abs s' = abs s"
proof -
  have "map_of (a_entries (abs s)) h = None" using assms by (simp add: map_of_eq_None_iff)
  then have "a_acquire h (abs s) = (None, abs s)" "a_remove h (abs s) = (None, abs s)"
    by (simp_all add: a_acquire_def a_remove_def)
  then show "\<exists>s'. op_acquire ops h s = (None, s') \<and> abs s' = abs s"
    "\<exists>s'. op_remove ops h s = (None, s') \<and> abs s' = abs s"
    using law_acquire [of h s] law_remove [of h s]
    by (metis Pair_inject surj_pair)+
qed

end

end
