(* ===== verification/Decode_Registry.thy ===== *)
theory Decode_Registry
  imports Libflac Handle_Registry
begin

text \<open>
  The registry of reusable decoder sessions (\<open>DecodeSession\<close> and the functions around
  \<open>g_decode_session_registry\<close> in \<open>jflac_jni.c\<close>). Sessions are heap objects: a session pointer is an
  address of \<open>dr_sessions\<close>, and a dereference of an address that is not allocated sets \<open>dr_fault\<close>.
  The functions named \<open>..._locked\<close> are the sections between \<open>lock_decode_session_registry\<close> and
  \<open>unlock_decode_session_registry\<close>; the last part shows that they implement \<open>Handle_Registry\<close>.
\<close>

section \<open>The model\<close>

record 'd decode_session =
  ds_decoder :: "'d option"
  ds_context :: decode_context
  ds_handle :: jlong
  ds_reference_count :: int
  ds_released :: bool
  ds_in_use :: bool

record 'd decode_registry =
  dr_entries :: "registry_entry list"
  dr_next_handle :: jlong
  dr_sessions :: "nat \<Rightarrow> 'd decode_session option"
  dr_fault :: bool

definition initial_decode_registry :: "'d decode_registry" where
  "initial_decode_registry = \<lparr>dr_entries = [], dr_next_handle = JFLAC_FIRST_VALID_HANDLE,
     dr_sessions = Map.empty, dr_fault = False\<rparr>"

text \<open>Writing through a session pointer.\<close>

definition store_decode_session ::
  "nat \<Rightarrow> 'd decode_session \<Rightarrow> 'd decode_registry \<Rightarrow> 'd decode_registry" where
  "store_decode_session a s r = r\<lparr>dr_sessions := (dr_sessions r)(a \<mapsto> s)\<rparr>"

text \<open>\<open>calloc\<close> of a session, with the decoder and the context the open path then fills in.\<close>

definition new_decode_session ::
  "'d option \<times> decode_context \<Rightarrow> nat \<Rightarrow> 'd decode_registry \<Rightarrow> 'd decode_registry" where
  "new_decode_session x a r =
     store_decode_session a \<lparr>ds_decoder = fst x, ds_context = snd x, ds_handle = 0,
       ds_reference_count = 0, ds_released = False, ds_in_use = False\<rparr> r"

text \<open>What an operation changes in a session it holds: the decoder's state and the context.\<close>

definition update_decode_session ::
  "'d option \<times> decode_context \<Rightarrow> nat \<Rightarrow> 'd decode_registry \<Rightarrow> 'd decode_registry" where
  "update_decode_session x a r =
     (case dr_sessions r a of
        None \<Rightarrow> r\<lparr>dr_fault := True\<rparr>
      | Some s \<Rightarrow> store_decode_session a (s\<lparr>ds_decoder := fst x, ds_context := snd x\<rparr>) r)"

definition find_decode_session_entry_locked ::
  "jlong \<Rightarrow> 'd decode_registry \<Rightarrow> (nat \<times> nat option) option" where
  "find_decode_session_entry_locked handle r = find_entry (dr_entries r) handle"

definition reserve_decode_session_handle_locked ::
  "'d decode_registry \<Rightarrow> (jlong \<times> 'd decode_registry) option" where
  "reserve_decode_session_handle_locked r =
     map_option (\<lambda>(handle, next). (handle, r\<lparr>dr_next_handle := next\<rparr>))
       (reserve_handle (dr_entries r) (dr_next_handle r))"

text \<open>The session freed, and what its destruction does to the environment.\<close>

definition destroy_decode_session_parts ::
  "'d decoder_api \<Rightarrow> 'd decode_session \<Rightarrow> jenv \<Rightarrow> jenv" where
  "destroy_decode_session_parts A s e =
     (let e1 = (case ds_decoder s of
                  None \<Rightarrow> e
                | Some d \<Rightarrow> let (finish_success, d1) = stream_decoder_finish A d
                            in delete_decoder e);
          (c1, e2) = clear_decode_seekable_channel (ds_context s) e1;
          (c2, e3) = clear_decode_input_stream c1 e2
      in e3)"

definition free_decode_session :: "nat \<Rightarrow> 'd decode_registry \<Rightarrow> 'd decode_registry" where
  "free_decode_session a r =
     (case dr_sessions r a of
        None \<Rightarrow> r\<lparr>dr_fault := True\<rparr>
      | Some s \<Rightarrow> r\<lparr>dr_sessions := (dr_sessions r)(a := None)\<rparr>)"

definition destroy_decode_session ::
  "'d decoder_api \<Rightarrow> nat option \<Rightarrow> 'd decode_registry \<Rightarrow> jenv \<Rightarrow> 'd decode_registry \<times> jenv" where
  "destroy_decode_session A session r e =
     (case session of
        None \<Rightarrow> (r, e)
      | Some a \<Rightarrow>
          (free_decode_session a r,
           (case dr_sessions r a of
              None \<Rightarrow> e
            | Some s \<Rightarrow> destroy_decode_session_parts A s e)))"

definition register_decode_session_locked ::
  "nat \<Rightarrow> 'd decode_registry \<Rightarrow> (jlong \<times> 'd decode_registry) option" where
  "register_decode_session_locked a r =
     (case reserve_decode_session_handle_locked r of
        None \<Rightarrow> None
      | Some (handle, r1) \<Rightarrow>
          Some (handle,
            (case dr_sessions r1 a of
               None \<Rightarrow> r1\<lparr>dr_fault := True\<rparr>
             | Some s \<Rightarrow>
                 (store_decode_session a
                   (s\<lparr>ds_handle := handle, ds_reference_count := 0, ds_released := False,
                      ds_in_use := False\<rparr>) r1)
                 \<lparr>dr_entries := (handle, a) # dr_entries r1\<rparr>)))"

definition register_decode_session ::
  "jvm \<Rightarrow> nat \<Rightarrow> 'd decode_registry \<Rightarrow> jenv \<Rightarrow> (jlong \<times> 'd decode_registry \<times> jenv) option" where
  "register_decode_session J a r e =
     (let (entry_ok, e1) = plain_alloc J (Malloc 24) e
      in if \<not> entry_ok then Some (0, r, e1)
         else map_option (\<lambda>(handle, r1). (handle, r1, e1)) (register_decode_session_locked a r))"

definition acquire_decode_session_locked ::
  "jlong \<Rightarrow> 'd decode_registry \<Rightarrow> nat option \<times> 'd decode_registry" where
  "acquire_decode_session_locked handle r =
     (if 0 < sint handle
      then
        (case find_decode_session_entry_locked handle r of
           None \<Rightarrow> (None, r)
         | Some (entry, previous) \<Rightarrow>
             let candidate = entry_object (dr_entries r ! entry)
             in (case dr_sessions r candidate of
                   None \<Rightarrow> (None, r\<lparr>dr_fault := True\<rparr>)
                 | Some s \<Rightarrow>
                     if \<not> ds_released s \<and> \<not> ds_in_use s \<and> ds_decoder s \<noteq> None
                     then (Some candidate, store_decode_session candidate
                            (s\<lparr>ds_reference_count := ds_reference_count s + 1,
                               ds_in_use := True\<rparr>) r)
                     else (None, r)))
      else (None, r))"

definition acquire_decode_session ::
  "jlong \<Rightarrow> 'd decode_registry \<Rightarrow> jenv \<Rightarrow> nat option \<times> 'd decode_registry \<times> jenv" where
  "acquire_decode_session handle r e =
     (let (session, r1) = acquire_decode_session_locked handle r
      in (session, r1,
          (if session = None
           then throw_illegal_state_exception
                  ''The native FLAC decoder handle is not active.'' e
           else e)))"

definition release_decode_session_reference_locked ::
  "nat \<Rightarrow> 'd decode_registry \<Rightarrow> bool \<times> 'd decode_registry" where
  "release_decode_session_reference_locked a r =
     (case dr_sessions r a of
        None \<Rightarrow> (False, r\<lparr>dr_fault := True\<rparr>)
      | Some s \<Rightarrow>
          let s1 = (if ds_reference_count s > 0
                    then s\<lparr>ds_reference_count := ds_reference_count s - 1\<rparr> else s);
              s2 = s1\<lparr>ds_in_use := False\<rparr>
          in (ds_released s2 \<and> ds_reference_count s2 = 0, store_decode_session a s2 r))"

definition release_decode_session_reference ::
  "'d decoder_api \<Rightarrow> nat option \<Rightarrow> 'd decode_registry \<Rightarrow> jenv \<Rightarrow> 'd decode_registry \<times> jenv" where
  "release_decode_session_reference A session r e =
     (case session of
        None \<Rightarrow> (r, e)
      | Some a \<Rightarrow>
          let (should_destroy, r1) = release_decode_session_reference_locked a r
          in if should_destroy then destroy_decode_session A (Some a) r1 e else (r1, e))"

definition remove_decode_session ::
  "jlong \<Rightarrow> 'd decode_registry \<Rightarrow> nat option \<times> 'd decode_registry" where
  "remove_decode_session handle r =
     (if sint handle \<le> 0 then (None, r)
      else
        (case find_decode_session_entry_locked handle r of
           None \<Rightarrow> (None, r)
         | Some (entry, previous) \<Rightarrow>
             let session = entry_object (dr_entries r ! entry);
                 r1 = r\<lparr>dr_entries := unlink_entry (dr_entries r) entry previous\<rparr>
             in (case dr_sessions r1 session of
                   None \<Rightarrow> (None, r1\<lparr>dr_fault := True\<rparr>)
                 | Some s \<Rightarrow>
                     ((if ds_reference_count s = 0 then Some session else None),
                      store_decode_session session (s\<lparr>ds_released := True\<rparr>) r1))))"

fun destroy_decode_entries ::
  "'d decoder_api \<Rightarrow> registry_entry list \<Rightarrow> 'd decode_registry \<Rightarrow> jenv \<Rightarrow>
   'd decode_registry \<times> jenv" where
  "destroy_decode_entries A [] r e = (r, e)"
| "destroy_decode_entries A (entry # next) r e =
     (let (r1, e1) = destroy_decode_session A (Some (entry_object entry)) r e
      in destroy_decode_entries A next r1 e1)"

definition destroy_all_decode_sessions ::
  "'d decoder_api \<Rightarrow> 'd decode_registry \<Rightarrow> jenv \<Rightarrow> 'd decode_registry \<times> jenv" where
  "destroy_all_decode_sessions A r e =
     destroy_decode_entries A (dr_entries r) (r\<lparr>dr_entries := []\<rparr>) e"

definition active_decode_session_count :: "'d decode_registry \<Rightarrow> jlong" where
  "active_decode_session_count r = count_entries (dr_entries r) 0"

section \<open>Refinement\<close>

definition decode_cell :: "'d decode_session \<Rightarrow> cell" where
  "decode_cell s = \<lparr>c_refs = ds_reference_count s, c_released = ds_released s,
     c_in_use = ds_in_use s, c_usable = (ds_decoder s \<noteq> None)\<rparr>"

definition abs_decode_registry :: "'d decode_registry \<Rightarrow> areg" where
  "abs_decode_registry r = \<lparr>a_entries = dr_entries r,
     a_cells = (\<lambda>a. map_option decode_cell (dr_sessions r a)), a_fault = dr_fault r\<rparr>"

definition decode_registry_ops ::
  "('d decode_registry, 'd option \<times> decode_context) reg_ops" where
  "decode_registry_ops =
     \<lparr>op_init = initial_decode_registry,
      op_allocated = (\<lambda>a r. dr_sessions r a \<noteq> None),
      op_create = new_decode_session,
      op_register = register_decode_session_locked,
      op_acquire = acquire_decode_session_locked,
      op_update = update_decode_session,
      op_release = release_decode_session_reference_locked,
      op_remove = remove_decode_session,
      op_destroy = free_decode_session\<rparr>"

lemmas decode_refine_defs = abs_decode_registry_def decode_cell_def store_decode_session_def
  fun_eq_iff

interpretation dreg: session_registry
  "decode_registry_ops :: ('d decode_registry, 'd option \<times> decode_context) reg_ops"
  abs_decode_registry "\<lambda>r. 0 < sint (dr_next_handle r)" "\<lambda>x. fst x \<noteq> None"
proof (unfold_locales, goal_cases)
  case 1
  then show ?case
    by (simp add: decode_registry_ops_def abs_decode_registry_def initial_decode_registry_def
        a_init_def)
next
  case 2
  then show ?case
    by (simp add: decode_registry_ops_def initial_decode_registry_def JFLAC_FIRST_VALID_HANDLE_def)
next
  case (3 a s)
  then show ?case by (simp add: decode_registry_ops_def abs_decode_registry_def)
next
  case (4 x a s)
  then show ?case
    by (simp add: decode_registry_ops_def decode_refine_defs new_decode_session_def
        a_create_def fresh_cell_def)
next
  case (5 x a s)
  then show ?case
    by (simp add: decode_registry_ops_def new_decode_session_def store_decode_session_def)
next
  case (6 s a h s')
  then show ?case
    using reserve_handle_fresh [of "dr_entries s" "dr_next_handle s"]
    by (auto simp: decode_registry_ops_def decode_refine_defs register_decode_session_locked_def
        reserve_decode_session_handle_locked_def a_register_def fresh_handle_def fresh_cell_def
        find_entry_None map_of_eq_None_iff split: option.splits)
next
  case (7 s a)
  then show ?case
    using reserve_handle_returns [of "dr_next_handle s" "dr_entries s"]
    by (auto simp: decode_registry_ops_def abs_decode_registry_def
        register_decode_session_locked_def reserve_decode_session_handle_locked_def)
next
  case (8 h s x' s')
  then show ?case
    by (auto simp: decode_registry_ops_def decode_refine_defs acquire_decode_session_locked_def
        find_decode_session_entry_locked_def a_acquire_def Let_def find_entry_None
        split: option.splits if_splits prod.splits dest: find_entry_lookup)
next
  case (9 x a s)
  then show ?case
    by (auto simp: decode_registry_ops_def decode_refine_defs update_decode_session_def
        a_touch_def split: option.splits)
next
  case (10 x a s)
  then show ?case
    by (simp add: decode_registry_ops_def update_decode_session_def store_decode_session_def
        split: option.splits)
next
  case (11 a s d s')
  then show ?case
    by (auto simp: decode_registry_ops_def decode_refine_defs
        release_decode_session_reference_locked_def a_release_def Let_def split: option.splits)
next
  case (12 h s x' s')
  then show ?case
    by (auto simp: decode_registry_ops_def decode_refine_defs remove_decode_session_def
        find_decode_session_entry_locked_def a_remove_def Let_def find_entry_None unlink_found
        split: option.splits if_splits prod.splits dest: find_entry_lookup)
next
  case (13 a s)
  then show ?case
    by (auto simp: decode_registry_ops_def decode_refine_defs free_decode_session_def
        a_destroy_def split: option.splits)
next
  case (14 a s)
  then show ?case
    by (simp add: decode_registry_ops_def free_decode_session_def split: option.splits)
qed

section \<open>Facts\<close>

lemma decode_ops_sel [simp]:
  "op_init decode_registry_ops = initial_decode_registry"
  "op_allocated decode_registry_ops a r \<longleftrightarrow> dr_sessions r a \<noteq> None"
  "op_create decode_registry_ops = new_decode_session"
  "op_register decode_registry_ops = register_decode_session_locked"
  "op_acquire decode_registry_ops = acquire_decode_session_locked"
  "op_update decode_registry_ops = update_decode_session"
  "op_release decode_registry_ops = release_decode_session_reference_locked"
  "op_remove decode_registry_ops = remove_decode_session"
  "op_destroy decode_registry_ops = free_decode_session"
  by (simp_all add: decode_registry_ops_def)

lemma decode_abs_sel [simp]:
  "a_entries (abs_decode_registry r) = dr_entries r"
  "a_cells (abs_decode_registry r) a = map_option decode_cell (dr_sessions r a)"
  "a_fault (abs_decode_registry r) = dr_fault r"
  by (simp_all add: abs_decode_registry_def)

lemma decode_quiescent:
  assumes "reg_reachable decode_registry_ops s" "\<forall>t. rs_acts s t = Idle"
    "dr_sessions (rs_reg s) a = Some x"
  shows "a \<in> snd ` set (dr_entries (rs_reg s))" "ds_reference_count x = 0" "\<not> ds_in_use x"
    "\<not> ds_released x"
proof -
  have inv: "sys_inv (dreg.abs_sys s)" by (rule dreg.reachable_inv [OF assms(1)])
  show mem: "a \<in> snd ` set (dr_entries (rs_reg s))"
    using dreg.no_leak [OF assms(1,2), of a] assms(3) by simp
  have cell: "a_cells (a_reg (dreg.abs_sys s)) a = Some (decode_cell x)"
    using assms(3) by simp
  have "\<not> used (dreg.abs_sys s) a" using assms(2) by (simp add: used_def)
  then show "ds_reference_count x = 0" "\<not> ds_in_use x"
    using sys_invD(7,8) [OF inv cell] by (simp_all add: decode_cell_def)
  have "in_table (a_reg (dreg.abs_sys s)) a" using mem by (simp add: in_table_def)
  from table_cell [OF sys_invD(2) [OF inv] this cell] show "\<not> ds_released x"
    by (simp add: decode_cell_def)
qed

text \<open>A sample run: two calls open a session each, a third one acquires the first session.\<close>

definition sample_session :: "nat option \<times> decode_context" where
  "sample_session = (Some 3, zero_context)"

definition sample_registry :: "nat decode_registry" where
  "sample_registry = snd (acquire_decode_session_locked 1
     (snd (the (register_decode_session_locked 20 (new_decode_session sample_session 20
       (snd (the (register_decode_session_locked 10
          (new_decode_session sample_session 10 initial_decode_registry)))))))))"

definition sample_system :: "nat decode_registry reg_sys" where
  "sample_system = \<lparr>rs_reg = sample_registry, rs_acts = (\<lambda>_. Idle)(2 := Using 10)\<rparr>"

lemmas reserve_step = reserve_handle.simps [unfolded Let_def]

lemma sample_register:
  "register_decode_session_locked 10 (new_decode_session sample_session 10 initial_decode_registry)
   = Some (1, \<lparr>dr_entries = [(1, 10)], dr_next_handle = 2,
       dr_sessions = [10 \<mapsto> \<lparr>ds_decoder = Some 3, ds_context = zero_context, ds_handle = 1,
         ds_reference_count = 0, ds_released = False, ds_in_use = False\<rparr>], dr_fault = False\<rparr>)"
  by (simp add: register_decode_session_locked_def reserve_decode_session_handle_locked_def
      new_decode_session_def initial_decode_registry_def store_decode_session_def
      sample_session_def JFLAC_FIRST_VALID_HANDLE_def advance_handle_def find_entry_def
      reserve_step [of "[]"] Let_def)

lemma sample_register2:
  "register_decode_session_locked 20 (new_decode_session sample_session 20
     (snd (the (register_decode_session_locked 10
        (new_decode_session sample_session 10 initial_decode_registry)))))
   = Some (2, \<lparr>dr_entries = [(2, 20), (1, 10)], dr_next_handle = 3,
       dr_sessions = [10 \<mapsto> \<lparr>ds_decoder = Some 3, ds_context = zero_context, ds_handle = 1,
           ds_reference_count = 0, ds_released = False, ds_in_use = False\<rparr>,
         20 \<mapsto> \<lparr>ds_decoder = Some 3, ds_context = zero_context, ds_handle = 2,
           ds_reference_count = 0, ds_released = False, ds_in_use = False\<rparr>], dr_fault = False\<rparr>)"
  unfolding sample_register
  by (simp add: register_decode_session_locked_def reserve_decode_session_handle_locked_def
      new_decode_session_def store_decode_session_def
      sample_session_def advance_handle_def find_entry_def
      reserve_step [of "[(1, 10)]"] Let_def)

lemma sample_registry_eq:
  "sample_registry = \<lparr>dr_entries = [(2, 20), (1, 10)], dr_next_handle = 3,
       dr_sessions = [10 \<mapsto> \<lparr>ds_decoder = Some 3, ds_context = zero_context, ds_handle = 1,
           ds_reference_count = 1, ds_released = False, ds_in_use = True\<rparr>,
         20 \<mapsto> \<lparr>ds_decoder = Some 3, ds_context = zero_context, ds_handle = 2,
           ds_reference_count = 0, ds_released = False, ds_in_use = False\<rparr>], dr_fault = False\<rparr>"
  unfolding sample_registry_def sample_register2
  by (simp add: acquire_decode_session_locked_def find_decode_session_entry_locked_def
      find_entry_def store_decode_session_def fun_upd_twist)

lemma sample_open_step:
  assumes "reg_reachable decode_registry_ops \<lparr>rs_reg = r, rs_acts = (\<lambda>_. Idle)\<rparr>"
    "dr_sessions r a = None"
    "register_decode_session_locked a (new_decode_session x a r) = Some (h, r')"
  shows "reg_reachable decode_registry_ops \<lparr>rs_reg = r', rs_acts = (\<lambda>_. Idle)\<rparr>"
proof -
  have "reg_step decode_registry_ops \<lparr>rs_reg = r, rs_acts = (\<lambda>_. Idle)\<rparr>
      \<lparr>rs_reg = new_decode_session x a r, rs_acts = (\<lambda>_. Idle)(0 := Opening a)\<rparr>"
    using reg_step.create [of "\<lparr>rs_reg = r, rs_acts = (\<lambda>_. Idle)\<rparr>" 0 decode_registry_ops a x]
      assms(2) by simp
  from reg_reachable.step [OF assms(1) this]
  have r1: "reg_reachable decode_registry_ops
      \<lparr>rs_reg = new_decode_session x a r, rs_acts = (\<lambda>_. Idle)(0 := Opening a)\<rparr>" .
  have "reg_step decode_registry_ops
      \<lparr>rs_reg = new_decode_session x a r, rs_acts = (\<lambda>_. Idle)(0 := Opening a)\<rparr>
      \<lparr>rs_reg = r', rs_acts = (\<lambda>_. Idle)\<rparr>"
    using reg_step.register [of "\<lparr>rs_reg = new_decode_session x a r,
        rs_acts = (\<lambda>_. Idle)(0 := Opening a)\<rparr>" 0 a decode_registry_ops h r'] assms(3)
      fun_upd_triv [of "\<lambda>_::nat. Idle" 0]
    by (simp del: fun_upd_triv)
  with r1 show ?thesis by (rule reg_reachable.step)
qed

definition sample_two_sessions :: "nat decode_registry" where
  "sample_two_sessions = snd (the (register_decode_session_locked 20
     (new_decode_session sample_session 20 (snd (the (register_decode_session_locked 10
       (new_decode_session sample_session 10 initial_decode_registry)))))))"

lemma sample_reachable_idle:
  "reg_reachable decode_registry_ops \<lparr>rs_reg = sample_two_sessions, rs_acts = (\<lambda>_. Idle)\<rparr>"
proof -
  let ?r1 = "snd (the (register_decode_session_locked 10
      (new_decode_session sample_session 10 initial_decode_registry)))"
  have 0: "reg_reachable decode_registry_ops
      \<lparr>rs_reg = initial_decode_registry, rs_acts = (\<lambda>_. Idle)\<rparr>"
    using reg_reachable.start [of decode_registry_ops] by (simp add: reg_start_def)
  have 1: "reg_reachable decode_registry_ops \<lparr>rs_reg = ?r1, rs_acts = (\<lambda>_. Idle)\<rparr>"
    by (rule sample_open_step [OF 0, of 10 sample_session 1])
      (simp_all add: sample_register, simp add: initial_decode_registry_def)
  show ?thesis unfolding sample_two_sessions_def
    by (rule sample_open_step [OF 1, of 20 sample_session 2])
      (simp_all add: sample_register2, simp add: sample_register)
qed

lemma sample_reachable: "reg_reachable decode_registry_ops sample_system"
proof -
  have "acquire_decode_session_locked 1 sample_two_sessions = (Some 10, sample_registry)"
    unfolding sample_registry_eq sample_two_sessions_def sample_register2
    by (simp add: acquire_decode_session_locked_def find_decode_session_entry_locked_def
        find_entry_def store_decode_session_def fun_upd_twist)
  then have "reg_step decode_registry_ops \<lparr>rs_reg = sample_two_sessions, rs_acts = (\<lambda>_. Idle)\<rparr> sample_system"
    using reg_step.acquire [of "\<lparr>rs_reg = sample_two_sessions, rs_acts = (\<lambda>_. Idle)\<rparr>" 2 decode_registry_ops 1 10
        sample_registry]
    by (simp add: sample_system_def)
  with sample_reachable_idle show ?thesis by (rule reg_reachable.step)
qed


section \<open>Properties\<close>

text \<open>
  C1: no use after free. Whatever native calls do, in any interleaving, no step of a
  reachable run dereferences a freed decoder session, and a session some call holds is allocated.
\<close>

theorem decode_registry_no_use_after_free:
  assumes "reg_reachable decode_registry_ops s"
  shows "\<not> dr_fault (rs_reg s) \<and>
    (\<forall>t a. holds (rs_acts s t) a \<longrightarrow> dr_sessions (rs_reg s) a \<noteq> None)"
  using dreg.no_fault [OF assms] dreg.held_allocated [OF assms] by auto

lemma decode_registry_no_use_after_free_witness:
  "\<not> dr_fault sample_registry \<and> holds (Using 10) 10 \<and> dr_sessions sample_registry 10 \<noteq> None"
  using decode_registry_no_use_after_free [OF sample_reachable]
  by (auto simp: sample_system_def dest: spec [of _ 2] spec [of _ "10::nat"])

text \<open>
  C5: a decoder session is used by one native call at a time; the call that opens, uses or
  destroys it is the only one that does.
\<close>

theorem decode_session_exclusive:
  assumes "reg_reachable decode_registry_ops s" "holds (rs_acts s t) a" "holds (rs_acts s t') a"
  shows "t = t'"
  by (rule dreg.one_holder [OF assms])

lemma decode_session_exclusive_witness:
  "\<exists>s a. reg_reachable (decode_registry_ops :: (nat decode_registry, _) reg_ops) s \<and>
     holds (rs_acts s 2) a \<and> (\<forall>t. holds (rs_acts s t) a \<longrightarrow> t = 2)"
proof -
  have "holds (rs_acts sample_system 2) 10" by (simp add: sample_system_def)
  with sample_reachable decode_session_exclusive [OF sample_reachable _ this] show ?thesis by blast
qed

text \<open>
  C9: nothing leaks. When no native call is running, the allocated sessions are exactly those of
  the registry, and each is idle and not released.
\<close>

theorem decode_registry_no_leak:
  assumes "reg_reachable decode_registry_ops s" "\<forall>t. rs_acts s t = Idle"
  shows "dom (dr_sessions (rs_reg s)) = snd ` set (dr_entries (rs_reg s)) \<and>
    (\<forall>x \<in> ran (dr_sessions (rs_reg s)).
       ds_reference_count x = 0 \<and> \<not> ds_in_use x \<and> \<not> ds_released x)"
proof -
  have "dr_sessions (rs_reg s) a \<noteq> None \<longleftrightarrow> a \<in> snd ` set (dr_entries (rs_reg s))" for a
    using dreg.no_leak [OF assms, of a] by simp
  then have "dom (dr_sessions (rs_reg s)) = snd ` set (dr_entries (rs_reg s))" by blast
  with decode_quiescent [OF assms] show ?thesis by (auto simp: ran_def)
qed

lemma decode_registry_no_leak_witness:
  "\<exists>r. reg_reachable decode_registry_ops \<lparr>rs_reg = r, rs_acts = (\<lambda>_. Idle)\<rparr> \<and>
     dom (dr_sessions (r :: nat decode_registry)) = {10, 20}"
proof -
  have "dom (dr_sessions sample_two_sessions) = snd ` set (dr_entries sample_two_sessions)"
    using decode_registry_no_leak [OF sample_reachable_idle] by simp
  also have "\<dots> = {10, 20}" by (auto simp: sample_two_sessions_def sample_register2)
  finally show ?thesis using sample_reachable_idle by blast
qed

text \<open>
  C12: registering a session returns (below \<open>2 ^ 63 - 1\<close> entries) a positive handle no other session
  has, and a call can acquire the session with it.
\<close>

theorem register_decode_session_fresh:
  assumes "0 < sint (dr_next_handle r)" "length (dr_entries r) < 9223372036854775807"
    "dr_sessions r a = Some s" "ds_decoder s \<noteq> None"
  shows "\<exists>h r'. register_decode_session_locked a r = Some (h, r') \<and>
    0 < sint h \<and> h \<notin> fst ` set (dr_entries r) \<and> dr_entries r' = (h, a) # dr_entries r \<and>
    0 < sint (dr_next_handle r') \<and> fst (acquire_decode_session_locked h r') = Some a"
proof -
  obtain h nxt where res: "reserve_handle (dr_entries r) (dr_next_handle r) = Some (h, nxt)"
    using reserve_handle_returns [OF assms(1,2)] by auto
  from reserve_handle_fresh [OF res] have "0 < sint h" "h \<notin> fst ` set (dr_entries r)"
    "0 < sint nxt"
    by (simp_all add: find_entry_None map_of_eq_None_iff)
  then show ?thesis using assms(3,4)
    by (auto simp: register_decode_session_locked_def reserve_decode_session_handle_locked_def
        res store_decode_session_def acquire_decode_session_locked_def
        find_decode_session_entry_locked_def find_entry_def)
qed

lemma register_decode_session_fresh_witness:
  "\<exists>h r'. register_decode_session_locked 20 sample_registry = Some (h, r') \<and> 0 < sint h \<and>
     h \<notin> {1, 2} \<and> fst (acquire_decode_session_locked h r') = Some 20"
proof -
  have "\<exists>h r'. register_decode_session_locked 20 sample_registry = Some (h, r') \<and>
    0 < sint h \<and> h \<notin> fst ` set (dr_entries sample_registry) \<and>
    dr_entries r' = (h, 20) # dr_entries sample_registry \<and>
    0 < sint (dr_next_handle r') \<and> fst (acquire_decode_session_locked h r') = Some 20"
    by (rule register_decode_session_fresh [where s = "the (dr_sessions sample_registry 20)"])
      (simp_all add: sample_registry_eq)
  then show ?thesis by (auto simp: sample_registry_eq)
qed

text \<open>
  C13: a handle that is not in the registry (zero, negative, forged, released) is rejected with an
  \<open>IllegalStateException\<close> and changes nothing; releasing it is a no-op.
\<close>

theorem stale_decoder_handle_rejected:
  assumes "h \<notin> fst ` set (dr_entries r)"
  shows "acquire_decode_session h r e = (None, r,
      raise (IllegalStateException ''The native FLAC decoder handle is not active.'') e) \<and>
    remove_decode_session h r = (None, r)"
proof -
  have "find_entry (dr_entries r) h = None"
    using assms by (simp add: find_entry_None map_of_eq_None_iff)
  then show ?thesis
    by (simp add: acquire_decode_session_def acquire_decode_session_locked_def
        find_decode_session_entry_locked_def remove_decode_session_def
        throw_illegal_state_exception_def)
qed

lemma stale_decoder_handle_rejected_witness:
  "remove_decode_session 7 sample_registry = (None, sample_registry)"
  using stale_decoder_handle_rejected [of 7 sample_registry initial_env]
  by (simp add: sample_registry_eq)



text \<open>Destroying the sessions of a list of entries, each allocated and at its own address.\<close>

definition session_decoders :: "'d decode_registry \<Rightarrow> nat \<Rightarrow> nat" where
  "session_decoders r a =
     (case dr_sessions r a of Some s \<Rightarrow> if ds_decoder s = None then 0 else 1 | None \<Rightarrow> 0)"

lemma destroy_parts_decoders:
  "live_decoders (destroy_decode_session_parts A s e) =
     live_decoders e - (if ds_decoder s = None then 0 else 1)"
  by (auto simp: destroy_decode_session_parts_def clear_decode_seekable_channel_def
      clear_decode_input_stream_def delete_global_ref_def delete_decoder_def Let_def
      split: option.splits prod.splits if_splits)

lemma destroy_decode_entries_spec:
  assumes "distinct (map snd es)" "\<forall>a \<in> snd ` set es. dr_sessions r a \<noteq> None"
    "destroy_decode_entries A es r e = (r', e')"
  shows "dr_sessions r' = dr_sessions r |` (- snd ` set es) \<and> dr_fault r' = dr_fault r \<and>
    dr_entries r' = dr_entries r \<and>
    live_decoders e' = live_decoders e - (\<Sum>a\<leftarrow>map snd es. int (session_decoders r a))"
  using assms
proof (induction es arbitrary: r e)
  case Nil
  then show ?case by (simp add: restrict_map_def)
next
  case (Cons en es)
  obtain h a where en: "en = (h, a)" by (cases en)
  from Cons.prems(2) obtain s where s: "dr_sessions r a = Some s" by (auto simp: en)
  let ?r1 = "r\<lparr>dr_sessions := (dr_sessions r)(a := None)\<rparr>"
  let ?e1 = "destroy_decode_session_parts A s e"
  have step: "destroy_decode_session A (Some a) r e = (?r1, ?e1)"
    by (simp add: destroy_decode_session_def free_decode_session_def s)
  have fresh: "a \<notin> snd ` set es" using Cons.prems(1) by (simp add: en)
  have live: "\<forall>b \<in> snd ` set es. dr_sessions ?r1 b \<noteq> None"
  proof
    fix b assume "b \<in> snd ` set es"
    with fresh Cons.prems(2) show "dr_sessions ?r1 b \<noteq> None" by (cases "b = a") (auto simp: en)
  qed
  have "distinct (map snd es)" using Cons.prems(1) by simp
  note hyp = Cons.IH [OF this live]
  have run: "destroy_decode_entries A es ?r1 ?e1 = (r', e')"
    using Cons.prems(3) by (simp add: en step)
  note IH = hyp [OF run]
  have "session_decoders ?r1 b = session_decoders r b" if "b \<in> set (map snd es)" for b
    using that fresh by (auto simp: session_decoders_def)
  then have "(\<Sum>a\<leftarrow>map snd es. int (session_decoders ?r1 a)) =
      (\<Sum>a\<leftarrow>map snd es. int (session_decoders r a))"
    by (intro arg_cong [where f = sum_list] map_cong) simp_all
  moreover have "int (session_decoders r a) = (if ds_decoder s = None then 0 else 1)"
    by (simp add: session_decoders_def s)
  moreover have "dr_sessions ?r1 |` (- snd ` set es) = dr_sessions r |` (- snd ` set (en # es))"
    by (auto simp: en restrict_map_def fun_eq_iff)
  moreover have "dr_fault ?r1 = dr_fault r" "dr_entries ?r1 = dr_entries r" by simp_all
  moreover have "(\<Sum>a\<leftarrow>map snd (en # es). int (session_decoders r a)) =
      int (session_decoders r a) + (\<Sum>a\<leftarrow>map snd es. int (session_decoders r a))"
    by (simp add: en)
  ultimately show ?case using IH destroy_parts_decoders [of A s e]
    by (simp only: diff_diff_eq)
qed

text \<open>
  Unloading the library releases everything. When no native call is running,
  \<open>destroy_all_decode_sessions\<close> leaves no session, no entry and no fault, and deletes the
  decoder of every session.
\<close>

lemma destroy_all_decode_sessions_complete:
  assumes "reg_reachable decode_registry_ops s" "\<forall>t. rs_acts s t = Idle"
    "destroy_all_decode_sessions A (rs_reg s) e = (r', e')"
  shows "dr_sessions r' = Map.empty \<and> dr_entries r' = [] \<and> \<not> dr_fault r' \<and>
    live_decoders e' =
      live_decoders e - (\<Sum>a\<leftarrow>map snd (dr_entries (rs_reg s)). int (session_decoders (rs_reg s) a))"
proof -
  let ?r = "rs_reg s"
  have mem: "a \<in> snd ` set (dr_entries ?r) \<longleftrightarrow> dr_sessions ?r a \<noteq> None" for a
    using dreg.no_leak [OF assms(1,2), of a] by simp
  have dist: "distinct (map snd (dr_entries ?r))"
    using sys_invD(2) [OF dreg.reachable_inv [OF assms(1)]] by (simp add: table_inv_def)
  have nf: "\<not> dr_fault ?r" using dreg.no_fault [OF assms(1)] by simp
  let ?cleared = "?r\<lparr>dr_entries := []\<rparr>"
  have "dr_sessions r' = dr_sessions ?cleared |` (- snd ` set (dr_entries ?r)) \<and>
    dr_fault r' = dr_fault ?cleared \<and> dr_entries r' = dr_entries ?cleared \<and>
    live_decoders e' = live_decoders e -
      (\<Sum>a\<leftarrow>map snd (dr_entries ?r). int (session_decoders ?cleared a))"
    using assms(3) mem
    by (intro destroy_decode_entries_spec [OF dist]) (auto simp: destroy_all_decode_sessions_def)
  moreover have "session_decoders ?cleared = session_decoders ?r"
    by (simp add: session_decoders_def fun_eq_iff)
  moreover have "dr_sessions ?r |` (- snd ` set (dr_entries ?r)) = Map.empty"
  proof
    fix a show "(dr_sessions ?r |` (- snd ` set (dr_entries ?r))) a = None"
      using mem [of a] by (cases "a \<in> snd ` set (dr_entries ?r)") (auto simp: restrict_map_def)
  qed
  ultimately show ?thesis using nf by simp
qed

lemma destroy_all_decode_sessions_complete_witness:
  "\<forall>A e. \<exists>r' e'. destroy_all_decode_sessions A sample_two_sessions e = (r', e') \<and>
     dr_sessions r' = Map.empty \<and> live_decoders e' = live_decoders e - 2"
proof (intro allI)
  fix A :: "nat decoder_api" and e :: jenv
  obtain r' e' where r: "destroy_all_decode_sessions A sample_two_sessions e = (r', e')"
    by (cases "destroy_all_decode_sessions A sample_two_sessions e")
  have "(\<Sum>a\<leftarrow>map snd (dr_entries sample_two_sessions).
      int (session_decoders sample_two_sessions a)) = 2"
    by (simp add: sample_two_sessions_def sample_register2 session_decoders_def)
  with destroy_all_decode_sessions_complete [OF sample_reachable_idle, of A e r' e'] r
  show "\<exists>r' e'. destroy_all_decode_sessions A sample_two_sessions e = (r', e') \<and>
     dr_sessions r' = Map.empty \<and> live_decoders e' = live_decoders e - 2"
    by auto
qed


end
