(* ===== verification/Decode_Session.thy ===== *)
theory Decode_Session
  imports Decode_Oneshot Decode_Registry
begin

text \<open>
  Reusable decoder sessions: opening one over a file or a channel, opening a pull session, decoding
  from a position or a bounded range through a handle, reading PCM by pulling, and releasing. The
  registry and the environment are passed along; a session is read and written at its address.
  \<open>a\<close> is the address \<open>calloc\<close> returns for a new session, None when it fails. None is the result of a
  call that does not return (the handle search or the decoder loops forever).
\<close>

section \<open>Opening\<close>

definition throw_and_destroy ::
  "'d decoder_api \<Rightarrow> nat \<Rightarrow> string \<Rightarrow> 'd decode_registry \<Rightarrow> jenv \<Rightarrow> 'd decode_registry \<times> jenv" where
  "throw_and_destroy A a message r e =
     (let (r1, e1) = destroy_decode_session A (Some a) r e
      in (r1, throw_decode_exception message e1))"

text \<open>
  The end of the three open functions: registration, and its failure. The handle 0 is the failure.
\<close>

definition register_opened_session ::
  "string \<Rightarrow> jvm \<Rightarrow> 'd decoder_api \<Rightarrow> nat \<Rightarrow> 'd decode_registry \<Rightarrow> jenv \<Rightarrow>
   (jlong \<times> 'd decode_registry \<times> jenv) option" where
  "register_opened_session message J A a r e =
     (case register_decode_session J a r e of
        None \<Rightarrow> None
      | Some (handle, r1, e1) \<Rightarrow>
          if handle = 0
          then let (r2, e2) = throw_and_destroy A a message r1 e1 in Some (0, r2, e2)
          else Some (handle, r1, e1))"

definition openDecoderFile ::
  "jvm \<Rightarrow> 'd decoder_api \<Rightarrow> nat option \<Rightarrow> string option \<Rightarrow> jint \<Rightarrow> 'd decode_registry \<Rightarrow> jenv \<Rightarrow>
   (jlong \<times> 'd decode_registry \<times> jenv) option" where
  "openDecoderFile J A address path container r e =
     (let (ready, e1) = flac_api_ready J e in if \<not> ready then Some (0, r, e1) else
      let (valid, e2) = validate_container container e1 in if \<not> valid then Some (0, r, e2) else
      if path = None
      then Some (0, r, throw_illegal_argument_exception ''Decoder path must not be null.'' e2) else
      let (utf8_path, e3) = path_to_utf8 J path e2 in
      if utf8_path = None then Some (0, r, e3) else
      case address of
        None \<Rightarrow> Some (0, r,
          throw_decode_exception ''Failed to allocate FLAC decoder session.'' e3)
      | Some a \<Rightarrow>
      let (decoder, e4) = new_decoder A e3;
          c0 = zero_context\<lparr>suppress_metadata := True\<rparr> in
      if decoder = None
      then let (r1, e5) = throw_and_destroy A a ''Failed to allocate FLAC decoder.''
                            (new_decode_session (None, zero_context) a r) e4
           in Some (0, r1, e5) else
      let (init_ok, d1) = init_file_decoder_for_container A (the decoder) (the utf8_path) container in
      if \<not> init_ok
      then let (r1, e5) = throw_and_destroy A a ''Failed to initialize FLAC decoder.''
                            (new_decode_session (Some d1, c0) a r) e4
           in Some (0, r1, e5) else
      let (metadata_success, d2, c1, e5) =
            run_callbacks J (stream_decoder_process_until_end_of_metadata A d1) c0 e4;
          r1 = new_decode_session (Some d2, c1) a r in
      if \<not> metadata_success \<or> saw_error c1
      then let (r2, e6) = throw_and_destroy A a
                 (decode_failure_message ''FLAC decoder session failed while reading metadata''
                    (stream_decoder_get_resolved_state_string A d2) c1) r1 e5
           in Some (0, r2, e6)
      else register_opened_session ''Failed to register FLAC decoder session.'' J A a r1 e5)"

definition openDecoderChannel ::
  "jvm \<Rightarrow> 'd decoder_api \<Rightarrow> nat option \<Rightarrow> jobject option \<Rightarrow> jint \<Rightarrow> 'd decode_registry \<Rightarrow> jenv \<Rightarrow>
   (jlong \<times> 'd decode_registry \<times> jenv) option" where
  "openDecoderChannel J A address channel container r e =
     (let (ready, e1) = flac_api_ready J e in if \<not> ready then Some (0, r, e1) else
      let (valid, e2) = validate_container container e1 in if \<not> valid then Some (0, r, e2) else
      if channel = None
      then Some (0, r,
        throw_illegal_argument_exception ''Decoder seekable channel must not be null.'' e2) else
      case address of
        None \<Rightarrow> Some (0, r,
          throw_decode_exception ''Failed to allocate FLAC decoder session.'' e2)
      | Some a \<Rightarrow>
      let (decoder, e3) = new_decoder A e2;
          c0 = zero_context\<lparr>suppress_metadata := True\<rparr> in
      if decoder = None
      then let (r1, e4) = throw_and_destroy A a ''Failed to allocate FLAC decoder.''
                            (new_decode_session (None, zero_context) a r) e3
           in Some (0, r1, e4) else
      let (prepared, c1, e4) = prepare_decode_seekable_channel J c0 channel e3 in
      if \<not> prepared
      then let (r1, e5) = destroy_decode_session A (Some a)
                            (new_decode_session (decoder, c1) a r) e4
           in Some (0, r1, e5) else
      let (init_ok, d1) = init_stream_decoder_for_container A (the decoder) ChannelSource container in
      if \<not> init_ok
      then let (r1, e5) = throw_and_destroy A a ''Failed to initialize FLAC channel decoder.''
                            (new_decode_session (Some d1, c1) a r) e4
           in Some (0, r1, e5) else
      let (metadata_success, d2, c2, e5) =
            run_callbacks J (stream_decoder_process_until_end_of_metadata A d1) c1 e4;
          r1 = new_decode_session (Some d2, c2) a r in
      if \<not> exception_check e5 \<and> (\<not> metadata_success \<or> saw_error c2)
      then let (r2, e6) = throw_and_destroy A a
                 (decode_failure_message
                    ''FLAC channel decoder session failed while reading metadata''
                    (stream_decoder_get_resolved_state_string A d2) c2) r1 e5
           in Some (0, r2, e6)
      else if exception_check e5 \<or> \<not> metadata_success \<or> saw_error c2
      then let (r2, e6) = destroy_decode_session A (Some a) r1 e5 in Some (0, r2, e6)
      else register_opened_session ''Failed to register FLAC channel decoder session.'' J A a r1 e5)"

section \<open>Pull sessions\<close>

datatype pull_source = PullFile string | PullStream jobject | PullChannel jobject

text \<open>
  The \<open>if\<close> chain over the three possible sources: preparation, then initialisation. The result is
  None when the preparation failed, else whether the initialisation succeeded.
\<close>

definition init_pull_source ::
  "jvm \<Rightarrow> 'd decoder_api \<Rightarrow> pull_source \<Rightarrow> jint \<Rightarrow> 'd \<Rightarrow> decode_context \<Rightarrow> jenv \<Rightarrow>
   bool option \<times> 'd \<times> decode_context \<times> jenv" where
  "init_pull_source J A source container d c e =
     (case source of
        PullFile filename \<Rightarrow>
          let (init_ok, d1) = init_file_decoder_for_container A d filename container
          in (Some init_ok, d1, c, e)
      | PullStream stream \<Rightarrow>
          let (prepared, c1, e1) = prepare_decode_input_stream_global J c (Some stream) e
          in if \<not> prepared then (None, d, c1, e1)
             else let (init_ok, d1) = init_stream_decoder_for_container A d StreamSource container
                  in (Some init_ok, d1, c1, e1)
      | PullChannel channel \<Rightarrow>
          let (prepared, c1, e1) = prepare_decode_seekable_channel J c (Some channel) e
          in if \<not> prepared then (None, d, c1, e1)
             else let (init_ok, d1) = init_stream_decoder_for_container A d ChannelSource container
                  in (Some init_ok, d1, c1, e1))"

text \<open>\<open>new_pull_decoder_open_result\<close> builds a Java object; a NULL result comes with an exception.\<close>

type_synonym pull_open_result = "(jlong \<times> stream_info) option"

definition new_pull_decoder_open_result ::
  "jvm \<Rightarrow> jlong \<Rightarrow> stream_info \<Rightarrow> jenv \<Rightarrow> pull_open_result \<times> jenv" where
  "new_pull_decoder_open_result J handle si e =
     (let (frame_ok, e0) = java_try J (Jni ''PushLocalFrame'') e;
          (info_ok, e1) = (if frame_ok then new_stream_info J e0 else (False, e0))
      in if \<not> info_ok then (None, e1)
         else
           let (ok, e2) = java_seq J [Jni ''FindClass PullDecoderOpenResult'',
                 GetMethodID ''<init>'', Jni ''NewObject PullDecoderOpenResult''] e1
           in ((if ok then Some (handle, si) else None), e2))"

definition open_pull_decoder_internal ::
  "jvm \<Rightarrow> 'd decoder_api \<Rightarrow> nat option \<Rightarrow> pull_source \<Rightarrow> jint \<Rightarrow> 'd decode_registry \<Rightarrow> jenv \<Rightarrow>
   (pull_open_result \<times> 'd decode_registry \<times> jenv) option" where
  "open_pull_decoder_internal J A address source container r e =
     (case address of
        None \<Rightarrow> Some (None, r,
          throw_decode_exception ''Failed to allocate FLAC pull decoder session.'' e)
      | Some a \<Rightarrow>
      let (decoder, e1) = new_decoder A e;
          c0 = zero_context\<lparr>suppress_metadata := True, pull_mode := True\<rparr> in
      if decoder = None
      then let (r1, e2) = throw_and_destroy A a ''Failed to allocate FLAC pull decoder.''
                            (new_decode_session (None, zero_context) a r) e1
           in Some (None, r1, e2) else
      let (initialised, d1, c1, e2) = init_pull_source J A source container (the decoder) c0 e1 in
      if initialised = None
      then let (r1, e3) = destroy_decode_session A (Some a)
                            (new_decode_session (Some d1, c1) a r) e2
           in Some (None, r1, e3) else
      if initialised = Some False
      then let (r1, e3) = throw_and_destroy A a ''Failed to initialize FLAC pull decoder.''
                            (new_decode_session (Some d1, c1) a r) e2
           in Some (None, r1, e3) else
      let (metadata_success, d2, c2, e3) =
            run_callbacks J (stream_decoder_process_until_end_of_metadata A d1) c1 e2;
          r1 = new_decode_session (Some d2, c2) a r in
      if \<not> exception_check e3 \<and> (\<not> metadata_success \<or> saw_error c2)
      then let (r2, e4) = throw_and_destroy A a
                 (decode_failure_message ''FLAC pull decoder failed while reading metadata''
                    (stream_decoder_get_resolved_state_string A d2) c2) r1 e3
           in Some (None, r2, e4) else
      if exception_check e3 \<or> \<not> metadata_success \<or> saw_error c2
      then let (r2, e4) = destroy_decode_session A (Some a) r1 e3 in Some (None, r2, e4) else
      if \<not> saw_stream_info c2
      then let (r2, e4) = throw_and_destroy A a
                            ''FLAC pull decoder did not receive STREAMINFO.'' r1 e3
           in Some (None, r2, e4) else
      (case register_opened_session ''Failed to register FLAC pull decoder session.'' J A a r1 e3 of
         None \<Rightarrow> None
       | Some (handle, r2, e4) \<Rightarrow>
           if handle = 0 then Some (None, r2, e4)
           else
             let (result, e5) = new_pull_decoder_open_result J handle (ctx_stream_info c2) e4
             in if result = None
                then let (registered_session, r3) = remove_decode_session handle r2;
                         (r4, e6) = destroy_decode_session A registered_session r3 e5
                     in Some (None, r4, e6)
                else Some (result, r2, e5)))"

definition openPullDecoderFile ::
  "jvm \<Rightarrow> 'd decoder_api \<Rightarrow> nat option \<Rightarrow> string option \<Rightarrow> jint \<Rightarrow> 'd decode_registry \<Rightarrow> jenv \<Rightarrow>
   (pull_open_result \<times> 'd decode_registry \<times> jenv) option" where
  "openPullDecoderFile J A address path container r e =
     (let (ready, e1) = flac_api_ready J e in if \<not> ready then Some (None, r, e1) else
      let (valid, e2) = validate_container container e1 in if \<not> valid then Some (None, r, e2) else
      if path = None
      then Some (None, r, throw_illegal_argument_exception ''Decoder path must not be null.'' e2) else
      let (utf8_path, e3) = path_to_utf8 J path e2 in
      if utf8_path = None then Some (None, r, e3)
      else open_pull_decoder_internal J A address (PullFile (the utf8_path)) container r e3)"

definition openPullDecoderStream ::
  "jvm \<Rightarrow> 'd decoder_api \<Rightarrow> nat option \<Rightarrow> jobject option \<Rightarrow> jint \<Rightarrow> 'd decode_registry \<Rightarrow> jenv \<Rightarrow>
   (pull_open_result \<times> 'd decode_registry \<times> jenv) option" where
  "openPullDecoderStream J A address stream container r e =
     (let (ready, e1) = flac_api_ready J e in if \<not> ready then Some (None, r, e1) else
      let (valid, e2) = validate_container container e1 in if \<not> valid then Some (None, r, e2) else
      case stream of
        None \<Rightarrow> Some (None, r,
          throw_illegal_argument_exception ''Decoder input stream must not be null.'' e2)
      | Some s \<Rightarrow> open_pull_decoder_internal J A address (PullStream s) container r e2)"

definition openPullDecoderChannel ::
  "jvm \<Rightarrow> 'd decoder_api \<Rightarrow> nat option \<Rightarrow> jobject option \<Rightarrow> jint \<Rightarrow> 'd decode_registry \<Rightarrow> jenv \<Rightarrow>
   (pull_open_result \<times> 'd decode_registry \<times> jenv) option" where
  "openPullDecoderChannel J A address channel container r e =
     (let (ready, e1) = flac_api_ready J e in if \<not> ready then Some (None, r, e1) else
      let (valid, e2) = validate_container container e1 in if \<not> valid then Some (None, r, e2) else
      case channel of
        None \<Rightarrow> Some (None, r,
          throw_illegal_argument_exception ''Decoder seekable channel must not be null.'' e2)
      | Some s \<Rightarrow> open_pull_decoder_internal J A address (PullChannel s) container r e2)"

section \<open>Decoding through a handle\<close>

text \<open>
  \<open>others\<close> is what other native calls do to the registry between the acquisition and the release of
  a session, calls from the Java callbacks of this one included. \<open>leave_session\<close> writes back what
  this call did to the decoder and the context and drops the reference.
\<close>

definition leave_session ::
  "'d decoder_api \<Rightarrow> ('d decode_registry \<Rightarrow> 'd decode_registry) \<Rightarrow> nat \<Rightarrow> 'd \<Rightarrow> decode_context \<Rightarrow>
   'd decode_registry \<Rightarrow> jenv \<Rightarrow> 'd decode_registry \<times> jenv" where
  "leave_session A others a d c r e =
     release_decode_session_reference A (Some a) (update_decode_session (Some d, c) a (others r)) e"

definition decodeDecoderFrom ::
  "nat \<Rightarrow> jvm \<Rightarrow> 'd decoder_api \<Rightarrow> ('d decode_registry \<Rightarrow> 'd decode_registry) \<Rightarrow> jlong \<Rightarrow> jlong \<Rightarrow>
   jobject option \<Rightarrow> 'd decode_registry \<Rightarrow> jenv \<Rightarrow> ('d decode_registry \<times> jenv) option" where
  "decodeDecoderFrom fuel J A others handle first consumer' r e =
     (let (ready, e1) = flac_api_ready J e in if \<not> ready then Some (r, e1) else
      let (session, r1, e2) = acquire_decode_session handle r e1 in
      case session of None \<Rightarrow> Some (r1, e2) | Some a \<Rightarrow>
      let s = the (dr_sessions r1 a); d = the (ds_decoder s); c = ds_context s in
      if pull_mode c
      then let (r2, e3) = leave_session A others a d c r1 e2
           in Some (r2, throw_illegal_state_exception
                ''A pull decoder handle cannot be used for callback-driven decoding.'' e3) else
      if sint first < 0
      then let (r2, e3) = leave_session A others a d c r1 e2
           in Some (r2, throw_illegal_argument_exception
                ''First sample must be non-negative.'' e3) else
      if consumer' = None
      then let (r2, e3) = leave_session A others a d c r1 e2
           in Some (r2, throw_illegal_argument_exception
                ''Decoder consumer must not be null.'' e3) else
      let (prepared, c1, e3) = prepare_decode_context J c (the consumer') e2 in
      if \<not> prepared then Some (leave_session A others a d c1 r1 e3) else
      let c2 = c1\<lparr>suppress_metadata := True, first_sample := first\<rparr>;
          (seek_success, d1, c3, e4) =
            run_callbacks J (stream_decoder_seek_absolute A d first) c2 e3 in
      if \<not> exception_check e4 \<and> (\<not> seek_success \<or> saw_error c3)
      then Some (leave_session A others a d1 (c3\<lparr>consumer := None\<rparr>) r1
             (throw_decode_exception
                (decode_failure_message ''FLAC decoder session failed while seeking''
                   (stream_decoder_get_resolved_state_string A d1) c3) e4))
      else
        (case process_decode_stream fuel J A d1 c3 e4 of
           None \<Rightarrow> None
         | Some (success, d2, c4, e5) \<Rightarrow>
             if \<not> exception_check e5 \<and> (\<not> success \<or> saw_error c4)
             then Some (leave_session A others a d2 (c4\<lparr>consumer := None\<rparr>) r1
                    (throw_decode_exception
                       (decode_failure_message ''FLAC decoder session failed''
                          (stream_decoder_get_resolved_state_string A d2) c4) e5))
             else
               let e6 = (if \<not> exception_check e5 \<and> success then java_call J OnComplete e5 else e5)
               in Some (leave_session A others a d2 (c4\<lparr>consumer := None\<rparr>) r1 e6)))"

definition decodeDecoderRange ::
  "nat \<Rightarrow> jvm \<Rightarrow> 'd decoder_api \<Rightarrow> ('d decode_registry \<Rightarrow> 'd decode_registry) \<Rightarrow> jlong \<Rightarrow> jlong \<Rightarrow>
   jlong \<Rightarrow> jobject option \<Rightarrow> 'd decode_registry \<Rightarrow> jenv \<Rightarrow> ('d decode_registry \<times> jenv) option" where
  "decodeDecoderRange fuel J A others handle first frames consumer' r e =
     (let (ready, e1) = flac_api_ready J e in if \<not> ready then Some (r, e1) else
      let (session, r1, e2) = acquire_decode_session handle r e1 in
      case session of None \<Rightarrow> Some (r1, e2) | Some a \<Rightarrow>
      let s = the (dr_sessions r1 a); d = the (ds_decoder s); c = ds_context s in
      if pull_mode c
      then let (r2, e3) = leave_session A others a d c r1 e2
           in Some (r2, throw_illegal_state_exception
                ''A pull decoder handle cannot be used for callback-driven decoding.'' e3) else
      let (request_ok, e3) = validate_decode_request first JFLAC_LIMITED_RANGE frames e2 in
      if \<not> request_ok then Some (leave_session A others a d c r1 e3) else
      if consumer' = None
      then let (r2, e4) = leave_session A others a d c r1 e3
           in Some (r2, throw_illegal_argument_exception
                ''Decoder consumer must not be null.'' e4) else
      let (prepared, c1, e4) = prepare_decode_context J c (the consumer') e3 in
      if \<not> prepared then Some (leave_session A others a d c1 r1 e4) else
      let c2 = configure_decode_range (c1\<lparr>suppress_metadata := True\<rparr>) first JFLAC_LIMITED_RANGE
                 frames in
      if decode_range_starts_after_stream c2 first
      then Some (leave_session A others a d (c2\<lparr>consumer := None\<rparr>) r1
             (throw_range_after_stream_exception e4)) else
      if range_complete c2 \<or> decode_range_starts_at_stream_end c2 first
      then let e5 = (if \<not> exception_check e4 then java_call J OnComplete e4 else e4)
           in Some (leave_session A others a d (c2\<lparr>consumer := None\<rparr>) r1 e5) else
      let (seek_success, d1, c3, e5) =
            run_callbacks J (stream_decoder_seek_absolute A d first) c2 e4 in
      if \<not> exception_check e5 \<and> (\<not> seek_success \<or> saw_error c3)
      then Some (leave_session A others a d1 (c3\<lparr>consumer := None\<rparr>) r1
             (throw_decode_exception
                (decode_failure_message ''FLAC decoder session failed while seeking''
                   (stream_decoder_get_resolved_state_string A d1) c3) e5))
      else
        (case process_decode_stream fuel J A d1 c3 e5 of
           None \<Rightarrow> None
         | Some (success, d2, c4, e6) \<Rightarrow>
             if \<not> exception_check e6 \<and> \<not> success
             then Some (leave_session A others a d2 (c4\<lparr>consumer := None\<rparr>) r1
                    (throw_decode_exception
                       (decode_failure_message ''FLAC decoder session failed''
                          (stream_decoder_get_resolved_state_string A d2) c4) e6))
             else
               let e7 = (if \<not> exception_check e6 \<and> success then java_call J OnComplete e6 else e6)
               in Some (leave_session A others a d2 (c4\<lparr>consumer := None\<rparr>) r1 e7)))"

section \<open>Reading by pulling\<close>

text \<open>
  The \<open>while\<close> loop of \<open>readPullDecoderInterleaved\<close>: it ends normally, with an exception already
  pending, or with a message that is thrown after the session is released.
\<close>

datatype pull_exit = PullDone | PullPending | PullFail string

fun pull_loop ::
  "nat \<Rightarrow> jvm \<Rightarrow> 'd decoder_api \<Rightarrow> 'd \<Rightarrow> decode_context \<Rightarrow> jenv \<Rightarrow>
   (pull_exit \<times> 'd \<times> decode_context \<times> jenv) option" where
  "pull_loop 0 J A d c e = None"
| "pull_loop (Suc n) J A d c e =
     (if \<not> (pull_written_frames c < pull_requested_frames c \<and> \<not> pull_end_of_stream c)
      then Some (PullDone, d, c, e)
      else
        let (success, d1, c1, e1) = run_callbacks J (stream_decoder_process_single A d) c e
        in if exception_check e1 then Some (PullPending, d1, c1, e1)
           else if \<not> success \<or> saw_error c1
           then Some (PullFail (decode_failure_message ''FLAC pull decoder failed''
                  (stream_decoder_get_resolved_state_string A d1) c1), d1, c1, e1)
           else
             let state = stream_decoder_get_state A d1
             in if state = END_OF_STREAM
                then let (v, e2) = validate_physical_eof_sample_count c1 e1
                     in if \<not> v then Some (PullPending, d1, c1, e2)
                        else Some (PullDone, d1, c1\<lparr>pull_end_of_stream := True\<rparr>, e2)
                else if state = ABORTED
                then Some (PullFail (snprintf_buffer (''FLAC pull decoder aborted'' @
                       state_suffix (stream_decoder_get_resolved_state_string A d1) @ ''.'')),
                       d1, c1, e1)
                else pull_loop n J A d1 c1 e1)"

text \<open>
  The Java array is a list; the result holds its contents when the call returns. An array has at
  most \<open>INT_MAX\<close> elements, so its length fits in a \<open>jsize\<close>.
\<close>

type_synonym 'd read_pull = "jint \<times> jint list option \<times> 'd decode_registry \<times> jenv"

definition begin_pull_read :: "decode_context \<Rightarrow> jint list \<Rightarrow> jint \<Rightarrow> decode_context" where
  "begin_pull_read c samples frames =
     c\<lparr>saw_error := False, pull_output := Some samples,
       pull_output_capacity_samples := of_nat (length samples),
       pull_channels := si_channels (ctx_stream_info c),
       pull_requested_frames := ucast frames, pull_written_frames := 0\<rparr>"

definition pull_read_result :: "decode_context \<Rightarrow> jint" where
  "pull_read_result c =
     (let written_frames = ucast (pull_written_frames c) :: jint
      in if 0 < sint written_frames then written_frames
         else if pull_end_of_stream c then -1 else 0)"

definition readPullDecoderInterleaved ::
  "nat \<Rightarrow> jvm \<Rightarrow> 'd decoder_api \<Rightarrow> ('d decode_registry \<Rightarrow> 'd decode_registry) \<Rightarrow> jlong \<Rightarrow>
   jint list option \<Rightarrow> jint \<Rightarrow> 'd decode_registry \<Rightarrow> jenv \<Rightarrow> 'd read_pull option" where
  "readPullDecoderInterleaved fuel J A others handle samples frames r e =
     (let (ready, e1) = flac_api_ready J e in if \<not> ready then Some (0, samples, r, e1) else
      let (session, r1, e2) = acquire_decode_session handle r e1 in
      case session of None \<Rightarrow> Some (0, samples, r1, e2) | Some a \<Rightarrow>
      let s = the (dr_sessions r1 a); d = the (ds_decoder s); c = ds_context s in
      if sint frames < 0
      then let (r2, e3) = leave_session A others a d c r1 e2
           in Some (0, samples, r2, throw_illegal_argument_exception
                ''Max frames must be non-negative.'' e3) else
      if samples = None
      then let (r2, e3) = leave_session A others a d c r1 e2
           in Some (0, samples, r2, throw_illegal_argument_exception
                ''PCM sample buffer must not be null.'' e3) else
      if frames = 0
      then let (r2, e3) = leave_session A others a d c r1 e2 in Some (0, samples, r2, e3) else
      if \<not> pull_mode c \<or> \<not> saw_stream_info c
      then let (r2, e3) = leave_session A others a d c r1 e2
           in Some (0, samples, r2, throw_illegal_state_exception
                ''The native FLAC decoder handle is not a pull decoder.'' e3) else
      let chans = si_channels (ctx_stream_info c);
          required_samples = (ucast frames * ucast chans :: u64);
          sample_capacity = (of_nat (length (the samples)) :: jint) in
      if chans = 0 \<or> uint required_samples > INT_MAX \<or> scast sample_capacity < required_samples
      then let (r2, e3) = leave_session A others a d c r1 e2
           in Some (0, samples, r2, throw_illegal_argument_exception
                ''Interleaved sample buffer must fit maxFrames * channels.'' e3) else
      let (drained, c1, e3) = drain_decode_pull_pending (begin_pull_read c (the samples) frames) e2 in
      if \<not> drained
      then let (r2, e4) = leave_session A others a d (c1\<lparr>pull_output := None\<rparr>) r1 e3
           in Some (0, pull_output c1, r2, e4)
      else
        (case pull_loop fuel J A d c1 e3 of
           None \<Rightarrow> None
         | Some (exit, d1, c2, e4) \<Rightarrow>
             let (r2, e5) = leave_session A others a d1 (c2\<lparr>pull_output := None\<rparr>) r1 e4
             in (case exit of
                   PullPending \<Rightarrow> Some (0, pull_output c2, r2, e5)
                 | PullFail message \<Rightarrow>
                     Some (0, pull_output c2, r2, throw_decode_exception message e5)
                 | PullDone \<Rightarrow> Some (pull_read_result c2, pull_output c2, r2, e5))))"

section \<open>Releasing\<close>

definition releaseDecoder ::
  "'d decoder_api \<Rightarrow> jlong \<Rightarrow> 'd decode_registry \<Rightarrow> jenv \<Rightarrow> 'd decode_registry \<times> jenv" where
  "releaseDecoder A handle r e =
     (let (session, r1) = remove_decode_session handle r
      in destroy_decode_session A session r1 e)"

definition releasePullDecoder ::
  "'d decoder_api \<Rightarrow> jlong \<Rightarrow> 'd decode_registry \<Rightarrow> jenv \<Rightarrow> 'd decode_registry \<times> jenv" where
  "releasePullDecoder A handle r e = releaseDecoder A handle r e"

definition activeDecoderSessionCount :: "'d decode_registry \<Rightarrow> jlong" where
  "activeDecoderSessionCount r = active_decode_session_count r"

end
