(* ===== verification/Pull_Delivery.thy ===== *)
theory Pull_Delivery
  imports Process_Guarantees Decode_Session
begin

text \<open>
  Reading by pulling delivers the decoded PCM in order, however the caller cuts it into reads. The
  abstraction of a pull context is a queue, the samples that are decoded but not handed out; every
  step moves samples from the queue into the Java array and appends newly decoded blocks to it.
\<close>

section \<open>The queue\<close>

definition pull_queue :: "decode_context \<Rightarrow> jint list" where
  "pull_queue c =
     (case pull_pending_samples c of None \<Rightarrow> []
      | Some s \<Rightarrow> drop (unat (pull_pending_sample_offset c)) s)"

text \<open>A pending block of whole frames of \<open>n\<close> channels, read up to a whole frame.\<close>

definition pending_ok :: "nat \<Rightarrow> decode_context \<Rightarrow> bool" where
  "pending_ok n c \<longleftrightarrow>
     (case pull_pending_samples c of None \<Rightarrow> True
      | Some s \<Rightarrow> unat (pull_pending_sample_count c) = length s \<and> int (length s) \<le> INT_MAX \<and>
          unat (pull_pending_sample_offset c) \<le> length s \<and> n dvd length s \<and>
          n dvd unat (pull_pending_sample_offset c))"

text \<open>A read in progress: the array has room for the request.\<close>

definition reading :: "decode_context \<Rightarrow> bool" where
  "reading c \<longleftrightarrow> pull_mode c \<and> pull_channels c \<noteq> 0 \<and> pending_ok (unat (pull_channels c)) c \<and>
     pull_written_frames c \<le> pull_requested_frames c \<and>
     (\<exists>out. pull_output c = Some out \<and> int (length out) \<le> INT_MAX \<and>
        pull_output_capacity_samples c = of_nat (length out) \<and>
        unat (pull_requested_frames c) * unat (pull_channels c) \<le> length out)"

definition written_samples :: "decode_context \<Rightarrow> nat" where
  "written_samples c = unat (pull_written_frames c) * unat (pull_channels c)"

definition taken :: "decode_context \<Rightarrow> jint list" where
  "taken c = take (written_samples c) (the (pull_output c))"

text \<open>What happened between two states of a read when the samples \<open>xs\<close> were decoded.\<close>

definition moved :: "decode_context \<Rightarrow> jint list \<Rightarrow> decode_context \<Rightarrow> bool" where
  "moved c xs c' \<longleftrightarrow> reading c' \<and> pull_channels c' = pull_channels c \<and>
     pull_requested_frames c' = pull_requested_frames c \<and>
     pull_written_frames c \<le> pull_written_frames c' \<and>
     emitted_frames c' - emitted_frames c = ucast (pull_written_frames c' - pull_written_frames c) \<and>
     length (the (pull_output c')) = length (the (pull_output c)) \<and>
     drop (written_samples c') (the (pull_output c')) =
       drop (written_samples c') (the (pull_output c)) \<and>
     taken c' @ pull_queue c' = taken c @ pull_queue c @ xs"

section \<open>Draining\<close>

lemma unat_mult_u32: "unat (v :: u32) * unat w < 4294967296 \<Longrightarrow> unat (v * w) = unat v * unat w"
  by (simp add: unat_word_ariths)

lemma unat_scast_length:
  assumes "int n \<le> INT_MAX"
  shows "unat (scast (of_nat n :: jint) :: u64) = n"
  using assms by (simp add: signed_of_nat signed_take_bit_int_eq_self unat_of_nat take_bit_nat_eq_self)

lemma moved_clear:
  assumes "moved c xs c'" "pull_queue c' = []"
  shows "moved c xs (clear_decode_pull_pending c')"
proof -
  let ?c = "clear_decode_pull_pending c'"
  have "pull_queue ?c = []" "taken ?c = taken c'" "written_samples ?c = written_samples c'"
    by (simp_all add: pull_queue_def taken_def written_samples_def clear_decode_pull_pending_def)
  moreover have "reading c' \<Longrightarrow> reading ?c"
    by (simp add: reading_def pending_ok_def clear_decode_pull_pending_def)
  ultimately show ?thesis
    using assms by (simp add: moved_def) (simp add: clear_decode_pull_pending_def)
qed

lemma drain_moves:
  assumes "reading c" "\<not> exception_check e" "drain_decode_pull_pending c e = (ok, c', e')"
  shows "ok \<and> e' = e \<and> moved c [] c' \<and>
    (pull_pending_samples c' = None \<or> pull_written_frames c' = pull_requested_frames c')"
proof (cases "pull_pending_samples c = None \<or> pull_pending_sample_offset c \<ge> pull_pending_sample_count c")
  case True
  have "pull_queue c = []"
    using assms(1) True by (auto simp: pull_queue_def reading_def pending_ok_def word_le_nat_alt split: option.splits)
  moreover have "c' = clear_decode_pull_pending c" "ok" "e' = e"
    using assms(3) True by (auto simp: drain_decode_pull_pending_def)
  ultimately show ?thesis using assms(1)
    by (simp add: moved_def reading_def clear_decode_pull_pending_def taken_def written_samples_def
        pull_queue_def pending_ok_def)
next
  case False
  then obtain s where s: "pull_pending_samples c = Some s" by auto
  let ?n = "unat (pull_channels c)" and ?off = "unat (pull_pending_sample_offset c)"
  let ?w = "unat (pull_written_frames c)" and ?r = "unat (pull_requested_frames c)"
  obtain out where out: "pull_output c = Some out" "int (length out) \<le> INT_MAX"
      "pull_output_capacity_samples c = of_nat (length out)" "?r * ?n \<le> length out"
    using assms(1) by (auto simp: reading_def)
  have n: "0 < ?n" and wr: "?w \<le> ?r" and off: "?off < length s" "?n dvd length s" "?n dvd ?off"
    and cnt: "unat (pull_pending_sample_count c) = length s" "int (length s) \<le> INT_MAX"
    using assms(1) False s
    by (auto simp: reading_def pending_ok_def word_le_nat_alt word_less_nat_alt unat_gt_0)
  define rem where "rem = pull_requested_frames c - pull_written_frames c"
  have rem: "unat rem = ?r - ?w"
    using wr by (simp add: rem_def unat_sub word_le_nat_alt)
  define avail where "avail = (pull_pending_sample_count c - pull_pending_sample_offset c) div pull_channels c"
  have avail: "unat avail = (length s - ?off) div ?n"
    using off(1) cnt(1) by (simp add: avail_def unat_div unat_sub word_le_nat_alt)
  define k where "k = (if avail < rem then avail else rem)"
  define K where "K = unat k"
  have K: "K = min ((length s - ?off) div ?n) (?r - ?w)"
    by (simp add: K_def k_def avail rem word_less_nat_alt min_def)
  have Kn: "K * ?n \<le> length s - ?off" and Kr: "?w + K \<le> ?r"
    using K wr by (auto simp: min_def) (metis div_times_less_eq_dividend le_trans mult_le_mono1 nat_le_linear)+
  have bound: "(?w + K) * ?n \<le> length out"
    using Kr out(4) by (meson le_trans mult_le_mono1)
  show ?thesis
  proof (cases "rem = 0")
    case True
    then have "ok \<and> e' = e \<and> c' = c" "?w = ?r"
      using assms(3) False n rem wr
      by (auto simp: drain_decode_pull_pending_def rem_def Let_def split: if_splits)
    then show ?thesis using assms(1) by (simp add: moved_def word_unat_eq_iff)
  next
    case nonzero: False
    let ?src = "take (K * ?n) (drop ?off s)"
    let ?out = "take (?w * ?n) out @ ?src @ drop ((?w + K) * ?n) out"
    have copy: "unat (k * pull_channels c) = K * ?n"
      using Kn cnt(2) by (simp add: unat_mult_u32 K_def)
    have offset: "unat (pull_written_frames c * pull_channels c) = ?w * ?n"
      using bound out(2) by (simp add: unat_mult_u32 add_mult_distrib)
    have fits: "\<not> (ucast (pull_written_frames c * pull_channels c) + ucast (k * pull_channels c) :: u64)
        > scast (pull_output_capacity_samples c)"
    proof -
      have "unat (ucast (pull_written_frames c * pull_channels c) +
          ucast (k * pull_channels c) :: u64) = ?w * ?n + K * ?n"
        using offset copy bound out(2)
        by (simp add: unat_plus_simple [THEN iffD1] unat_ucast_u64 no_olen_add_nat add_mult_distrib)
      moreover have "unat (scast (pull_output_capacity_samples c) :: u64) = length out"
        using out(2) by (simp add: out(3) unat_scast_length)
      ultimately show ?thesis
        using bound by (simp add: word_less_nat_alt add_mult_distrib)
    qed
    have region: "set_int_array_region (Some out) (?w * ?n) ?src e = (Some ?out, e)"
      using bound Kn by (simp add: set_int_array_region_def add_mult_distrib min_def)
    let ?c2 = "c\<lparr>pull_output := Some ?out,
        pull_pending_sample_offset := pull_pending_sample_offset c + k * pull_channels c,
        pull_written_frames := pull_written_frames c + k,
        emitted_frames := emitted_frames c + ucast k\<rparr>"
    have step: "ok" "e' = e" "c' = (if pull_pending_sample_offset ?c2 \<ge> pull_pending_sample_count ?c2
        then clear_decode_pull_pending ?c2 else ?c2)"
      using assms(3) False nonzero n region fits assms(2) s
      unfolding drain_decode_pull_pending_def Let_def rem_def [symmetric] avail_def [symmetric]
        k_def [symmetric]
      by (auto simp: out(1) copy offset unat_gt_0)
    have w': "unat (pull_written_frames c + k) = ?w + K"
      using Kr unat_u32_less [of "pull_requested_frames c"] by (simp add: K_def unat_word_ariths)
    have o': "unat (pull_pending_sample_offset c + k * pull_channels c) = ?off + K * ?n"
      using Kn off(1) cnt copy unat_u32_less [of "pull_pending_sample_count c"]
      by (simp add: unat_word_ariths)
    have source: "?src @ drop (?off + K * ?n) s = drop ?off s"
      using append_take_drop_id [of "K * ?n" "drop ?off s"] by (simp add: add.commute)
    have lens: "length (take (?w * ?n) out @ ?src) = (?w + K) * ?n"
      using bound Kn by (simp add: add_mult_distrib)
    have mv: "moved c [] ?c2"
      using assms(1) s out bound Kn Kr w' o' cnt off lens source
      by (simp add: moved_def reading_def taken_def written_samples_def pull_queue_def pending_ok_def
          word_le_nat_alt add_mult_distrib)
    have full: "pull_written_frames ?c2 = pull_requested_frames ?c2"
      if "\<not> pull_pending_sample_offset ?c2 \<ge> pull_pending_sample_count ?c2"
    proof -
      from that have "?off + K * ?n < length s" by (simp add: word_le_nat_alt o' cnt)
      moreover have "(length s - ?off) div ?n * ?n = length s - ?off"
        using off by simp
      ultimately have "K = ?r - ?w" using K by (auto simp: min_def split: if_splits)
      with Kr w' show ?thesis by (simp add: word_unat_eq_iff)
    qed
    have empty: "pull_queue ?c2 = []"
      if "pull_pending_sample_offset ?c2 \<ge> pull_pending_sample_count ?c2"
      using that s by (simp add: pull_queue_def word_le_nat_alt o' cnt)
    show ?thesis
    proof (cases "pull_pending_sample_offset ?c2 \<ge> pull_pending_sample_count ?c2")
      case True
      with step(3) have "c' = clear_decode_pull_pending ?c2" by (simp only: if_True)
      with step(1,2) moved_clear [OF mv empty [OF True]] show ?thesis
        by (simp only: simp_thms) (simp add: clear_decode_pull_pending_def)
    next
      case False
      with step(3) have "c' = ?c2" by (simp only: if_False)
      with step(1,2) mv full [OF False] show ?thesis by (simp only: simp_thms)
    qed
  qed
qed

section \<open>The callbacks during a read\<close>

lemma moved_trans:
  assumes "moved c xs c1" "moved c1 ys c2"
  shows "moved c (xs @ ys) c2"
proof -
  have le: "written_samples c1 \<le> written_samples c2"
    using assms by (simp add: moved_def written_samples_def word_le_nat_alt)
  have "drop (written_samples c1) (the (pull_output c1)) =
      drop (written_samples c1) (the (pull_output c))"
    using assms(1) by (simp add: moved_def)
  from arg_cong [OF this, of "drop (written_samples c2 - written_samples c1)"]
  have "drop (written_samples c2) (the (pull_output c1)) =
      drop (written_samples c2) (the (pull_output c))"
    using le by simp
  moreover have "ucast (pull_written_frames c2 - pull_written_frames c) =
      (ucast (pull_written_frames c2 - pull_written_frames c1) +
       ucast (pull_written_frames c1 - pull_written_frames c) :: u64)"
  proof -
    have "unat (pull_written_frames c2 - pull_written_frames c) =
        unat (pull_written_frames c2 - pull_written_frames c1) +
        unat (pull_written_frames c1 - pull_written_frames c)"
      using assms by (simp add: moved_def unat_sub word_le_nat_alt)
    then show ?thesis by (metis of_nat_add of_nat_unat)
  qed
  moreover have "pull_written_frames c \<le> pull_written_frames c2"
    using assms by (auto simp: moved_def)
  ultimately show ?thesis
    using assms by (simp add: moved_def algebra_simps)
qed

lemma drain_env:
  assumes "drain_decode_pull_pending c e = (ok, c', e')"
  shows "decoded e' = decoded e" "pull_mode c' = pull_mode c" "\<not> ok \<Longrightarrow> exception_check e'"
  using assms by (auto simp: drain_decode_pull_pending_def clear_decode_pull_pending_def
      set_int_array_region_def throw_defs raise_def exception_check_def Let_def
      split: if_splits option.splits)

lemma pull_write_env:
  assumes "pull_mode c" "decode_write_callback J fr c e = (st, c1, e1)"
  shows "exception_check e1 \<or> decoded e1 = decoded e \<and> pull_mode c1 \<and>
    (st = WRITE_ABORT \<longrightarrow> c1 = c)"
  using assms drain_env
  by (fastforce simp: decode_write_callback_def decode_pull_write_callback_def throw_defs raise_def
      exception_check_def plain_alloc_def Let_def split: if_splits prod.splits)

lemma pull_write_moves:
  assumes "reading c" "decode_write_callback J fr c e = (WRITE_CONTINUE, c1, e1)"
    "fh_channels fr = pull_channels c"
  shows "moved c (concat (frame_rows fr)) c1"
proof -
  let ?n = "fh_channels fr" and ?m = "fh_blocksize fr"
  let ?s = "interleave_loop (fr_buffer fr) ?n ?m"
  let ?cnt = "ucast ?n * ucast ?m :: u64"
  let ?c1 = "c\<lparr>pull_channels := ?n, pull_pending_samples := Some ?s,
      pull_pending_sample_count := ucast ?cnt, pull_pending_sample_offset := 0\<rparr>"
  have none: "pull_pending_samples c = None" and noexc: "\<not> exception_check e"
    and cnt: "uint ?cnt \<le> INT_MAX"
    and drain: "\<exists>ok. drain_decode_pull_pending ?c1 (snd (plain_alloc J (Malloc (4 * ?cnt)) e)) = (ok, c1, e1)"
    using assms(1,2)
    by (auto simp: decode_write_callback_def decode_pull_write_callback_def reading_def Let_def
        split: if_splits prod.splits)
  have prod: "unat ?n * unat ?m \<le> 2147483647"
    using cnt by (simp add: unat_sample_count [symmetric] uint_nat del: of_nat_unat)
  have s: "?s = concat (frame_rows fr)"
    using prod by (simp add: interleave_loop_rows frame_rows_def)
  have len: "length ?s = unat ?n * unat ?m"
    by (simp add: s frame_rows_def length_concat_rows)
  have "unat (ucast ?cnt :: u32) = length ?s"
    using prod by (simp add: len unat_sample_count unsigned_ucast_eq take_bit_nat_eq_self)
  moreover have "int (length ?s) \<le> INT_MAX" using prod len by linarith
  ultimately have "pending_ok (unat ?n) ?c1" by (simp add: pending_ok_def len)
  then have mv: "moved c (concat (frame_rows fr)) ?c1"
    using assms(1) none
    by (simp add: moved_def reading_def assms(3) pull_queue_def taken_def written_samples_def
        s [unfolded assms(3)])
  have "\<not> exception_check (snd (plain_alloc J (Malloc (4 * ?cnt)) e))"
    using noexc by (simp add: plain_alloc_def exception_check_def)
  moreover have "reading ?c1" using mv unfolding moved_def by (elim conjE)
  ultimately have "moved ?c1 [] c1" using drain drain_moves by blast
  with moved_trans [OF mv] show ?thesis by force
qed

text \<open>The fields of a pull context the other callbacks do not write.\<close>

definition same_pull :: "decode_context \<Rightarrow> decode_context \<Rightarrow> bool" where
  "same_pull c c' \<longleftrightarrow> pull_mode c' = pull_mode c \<and> pull_output c' = pull_output c \<and>
     pull_output_capacity_samples c' = pull_output_capacity_samples c \<and>
     pull_channels c' = pull_channels c \<and> pull_requested_frames c' = pull_requested_frames c \<and>
     pull_written_frames c' = pull_written_frames c \<and>
     pull_pending_samples c' = pull_pending_samples c \<and>
     pull_pending_sample_count c' = pull_pending_sample_count c \<and>
     pull_pending_sample_offset c' = pull_pending_sample_offset c \<and>
     emitted_frames c' = emitted_frames c"

lemma same_pull_simps [simp]:
  "same_pull c c"
  "same_pull c (decode_error_callback st c)"
  "same_pull c (c\<lparr>pull_end_of_stream := b\<rparr>)"
  by (simp_all add: same_pull_def decode_error_callback_def)

lemma same_pull_metadata: "decode_metadata_callback J m c e = (c1, e1) \<Longrightarrow> same_pull c c1"
  by (cases m) (auto simp: same_pull_def decode_metadata_callback_def Let_def
      split: if_splits prod.splits)

lemma same_pull_view:
  assumes "same_pull c c'"
  shows "pull_queue c' = pull_queue c" "written_samples c' = written_samples c" "taken c' = taken c"
    "reading c' = reading c"
  using assms
  by (cases "pull_pending_samples c"; simp add: same_pull_def pull_queue_def written_samples_def
      taken_def reading_def pending_ok_def)+

lemma moved_same_pull: "moved c xs c1 \<Longrightarrow> same_pull c1 c2 \<Longrightarrow> moved c xs c2"
  using same_pull_view [of c1 c2] by (simp add: moved_def) (simp add: same_pull_def)

text \<open>
  What is known in the course of a read that began in \<open>c0\<close> and \<open>e0\<close>, unless an exception is pending:
  if the blocks decoded since have the channels of the stream, they were queued in order.
\<close>

definition frames_pcm :: "flac_frame list \<Rightarrow> jint list" where
  "frames_pcm frs = concat (concat (map frame_rows frs))"

definition pull_inv :: "decode_context \<Rightarrow> jenv \<Rightarrow> decode_context \<Rightarrow> jenv \<Rightarrow> bool" where
  "pull_inv c0 e0 c e \<longleftrightarrow> exception_check e \<or>
     pull_mode c \<and> (\<exists>frs. decoded e = decoded e0 @ frs \<and>
       ((\<forall>fr \<in> set frs. fh_channels fr = pull_channels c0) \<longrightarrow> moved c0 (frames_pcm frs) c))"

lemma pull_inv_other:
  assumes "pull_inv c0 e0 c e" "quiet e e1" "same_pull c c1"
  shows "pull_inv c0 e0 c1 e1"
proof -
  have "pull_mode c1 = pull_mode c" using assms(3) by (simp add: same_pull_def)
  with assms show ?thesis by (auto simp: pull_inv_def quiet_def intro: moved_same_pull)
qed

lemma pull_inv_write:
  assumes "pull_inv c0 e0 c e" "decode_write_callback J fr c e = (st, c1, e1)"
  shows "pull_inv c0 e0 c1 (record_frame st fr e1)"
proof (cases "exception_check e")
  case True
  with assms(2) show ?thesis
    by (simp add: decode_write_callback_def pull_inv_def record_frame_def)
next
  case False
  with assms(1) obtain frs where mode: "pull_mode c" and frs: "decoded e = decoded e0 @ frs"
    and mv: "\<forall>fr \<in> set frs. fh_channels fr = pull_channels c0 \<Longrightarrow> moved c0 (frames_pcm frs) c"
    by (auto simp: pull_inv_def)
  note env = pull_write_env [OF mode assms(2)]
  show ?thesis
  proof (cases "exception_check e1")
    case True
    then show ?thesis by (simp add: pull_inv_def record_frame_def exception_check_def split: write_status.split)
  next
    case False
    show ?thesis
    proof (cases st)
      case WRITE_ABORT
      with env False frs mode mv show ?thesis
        by (auto simp: pull_inv_def record_frame_def)
    next
      case WRITE_CONTINUE
      have "moved c0 (frames_pcm (frs @ [fr])) c1"
        if "\<forall>f \<in> set (frs @ [fr]). fh_channels f = pull_channels c0"
      proof -
        have m: "moved c0 (frames_pcm frs) c" using mv that by simp
        then have "reading c" "fh_channels fr = pull_channels c" using that by (auto simp: moved_def)
        from moved_trans [OF m pull_write_moves [OF this(1) assms(2) [unfolded WRITE_CONTINUE] this(2)]]
        show ?thesis by (simp add: frames_pcm_def)
      qed
      with env False frs WRITE_CONTINUE show ?thesis
        by (auto simp: pull_inv_def record_frame_def intro!: exI [of _ "frs @ [fr]"])
    qed
  qed
qed

lemma pull_inv_run:
  assumes "pull_inv c0 e0 c e" "run_callbacks J t c e = (ok, d, c', e')"
  shows "pull_inv c0 e0 c' e'"
  by (rule run_callbacks_inv [where P = "pull_inv c0 e0", OF assms(1) _ _ _ _ _ _ _ _ assms(2)])
    (blast intro: pull_inv_other same_pull_simps same_pull_metadata pull_inv_write
      dest: quiet_read quiet_seek quiet_tell quiet_length quiet_eof quiet_metadata)+

section \<open>The loop\<close>

lemma validate_eof_env:
  "validate_physical_eof_sample_count c e = (v, e1) \<Longrightarrow>
     (if v then e1 = e \<and> \<not> exception_check e else exception_check e1)"
  by (auto simp: validate_physical_eof_sample_count_def throw_defs raise_def exception_check_def
      split: if_splits)

lemma pull_loop_done:
  assumes "pull_inv c0 e0 c e" "\<not> exception_check e"
    "pull_loop n J A d c e = Some (exit, d', c', e')"
  shows "(case exit of PullDone \<Rightarrow> pull_inv c0 e0 c' e' \<and> \<not> exception_check e' \<and>
      (pull_end_of_stream c' \<or> pull_requested_frames c' \<le> pull_written_frames c')
    | PullPending \<Rightarrow> exception_check e'
    | PullFail m \<Rightarrow> True)"
  using assms
proof (induction n arbitrary: d c e)
  case (Suc n)
  show ?case
  proof (cases "pull_written_frames c < pull_requested_frames c \<and> \<not> pull_end_of_stream c")
    case False
    with Suc.prems show ?thesis by (auto simp: not_less)
  next
    case True
    obtain ok d1 c1 e1 where r: "run_callbacks J (stream_decoder_process_single A d) c e =
        (ok, d1, c1, e1)"
      by (metis prod_cases4)
    have inv: "pull_inv c0 e0 c1 e1" by (rule pull_inv_run [OF Suc.prems(1) r])
    obtain v e2 where v: "validate_physical_eof_sample_count c1 e1 = (v, e2)" by (metis surj_pair)
    show ?thesis
    proof (cases "exception_check e1 \<or> \<not> ok \<or> saw_error c1 \<or>
        stream_decoder_get_state A d1 = END_OF_STREAM \<or> stream_decoder_get_state A d1 = ABORTED")
      case False
      with Suc.prems(3) True have "pull_loop n J A d1 c1 e1 = Some (exit, d', c', e')"
        by (simp add: r)
      with False show ?thesis by (intro Suc.IH [OF inv]) simp_all
    next
      case stop: True
      have "pull_inv c0 e0 (c1\<lparr>pull_end_of_stream := True\<rparr>) e1"
        by (rule pull_inv_other [OF inv]) simp_all
      with stop True Suc.prems(3) validate_eof_env [OF v] show ?thesis
        by (auto simp: r v split: if_splits)
    qed
  qed
qed simp

lemma pull_loop_returns:
  assumes "decoder_progress J A m" "m d < n"
  shows "pull_loop n J A d c e \<noteq> None"
  using assms(2)
proof (induction n arbitrary: d c e)
  case (Suc n)
  obtain ok d1 c1 e1 where r: "run_callbacks J (stream_decoder_process_single A d) c e = (ok, d1, c1, e1)"
    by (metis prod_cases4)
  obtain v e2 where v: "validate_physical_eof_sample_count c1 e1 = (v, e2)" by (metis surj_pair)
  have "pull_loop n J A d1 c1 e1 \<noteq> None"
    if "ok" "stream_decoder_get_state A d1 \<noteq> END_OF_STREAM" "stream_decoder_get_state A d1 \<noteq> ABORTED"
  proof -
    have "m d1 < m d" using decoder_progressD(1) [OF assms(1)] r that by simp
    with Suc show ?thesis by simp
  qed
  then show ?case by (auto simp: r v Let_def)
qed simp

section \<open>One read\<close>

definition idle_session ::
  "jlong \<Rightarrow> nat \<Rightarrow> 'd decode_session \<Rightarrow> 'd decode_registry \<Rightarrow> bool" where
  "idle_session handle a s r \<longleftrightarrow>
     0 < sint handle \<and> map_of (dr_entries r) handle = Some a \<and> dr_sessions r a = Some s \<and>
     ds_reference_count s = 0 \<and> \<not> ds_released s \<and> \<not> ds_in_use s \<and> ds_decoder s \<noteq> None"

lemma acquire_idle_session:
  assumes "idle_session handle a s r"
  shows "acquire_decode_session handle r e =
    (Some a, store_decode_session a (s\<lparr>ds_reference_count := 1, ds_in_use := True\<rparr>) r, e)"
proof -
  obtain k p where f: "find_entry (dr_entries r) handle = Some (k, p)"
    using assms find_entry_None [of "dr_entries r" handle] by (auto simp: idle_session_def)
  have "entry_object (dr_entries r ! k) = a"
    using find_entry_lookup [OF f] assms by (simp add: idle_session_def)
  with f assms show ?thesis
    by (auto simp: acquire_decode_session_def acquire_decode_session_locked_def
        find_decode_session_entry_locked_def idle_session_def)
qed

lemma leave_idle_session:
  assumes "idle_session handle a s r"
  shows "leave_session A id a d c
      (store_decode_session a (s\<lparr>ds_reference_count := 1, ds_in_use := True\<rparr>) r) e =
    (store_decode_session a (s\<lparr>ds_decoder := Some d, ds_context := c\<rparr>) r, e)"
  using assms
  by (cases s) (simp add: leave_session_def update_decode_session_def store_decode_session_def
      release_decode_session_reference_def release_decode_session_reference_locked_def
      idle_session_def Let_def)

lemma ready_again:
  assumes "api_once (native e)" "api_initialized (native e)"
  shows "flac_api_ready J e = (True, e)"
  using assms by (simp add: flac_api_ready_def jflac_call_once_def)

lemma begin_reading:
  assumes "pull_mode c" "si_channels (ctx_stream_info c) \<noteq> 0"
    "pending_ok (unat (si_channels (ctx_stream_info c))) c"
    "unat frames * unat (si_channels (ctx_stream_info c)) \<le> length out" "int (length out) \<le> INT_MAX"
  shows "reading (begin_pull_read c out frames)"
    "moved (begin_pull_read c out frames) [] (begin_pull_read c out frames)"
    "pull_queue (begin_pull_read c out frames) = pull_queue c"
  using assms
  by (cases "pull_pending_samples c"; simp add: reading_def begin_pull_read_def pending_ok_def
      moved_def pull_queue_def)+

lemma sint_small: "unat (w :: u32) < 2147483648 \<Longrightarrow> sint w = int (unat w)"
  by (simp add: sint_uint signed_take_bit_int_eq_self uint_nat del: of_nat_unat)

text \<open>
  C36: pulling loses, repeats and reorders nothing, whatever the sizes of the reads. One read with
  room for its request returns, given fuel above libFLAC's progress measure. If no exception is
  pending afterwards, \<open>k\<close> frames were written to the front of the array and the rest of it is
  untouched; what was written followed by what is still queued is what was queued before followed
  by the blocks decoded during the read; the result is \<open>k\<close>, or -1 for none, and less than the request
  only at the end of the stream. The session is idle again with a well-formed queue, so that the
  next read continues there. The blocks libFLAC delivers are assumed to have the channel count of
  STREAMINFO. An exception comes with the result 0.
\<close>

theorem readPull_delivers:
  fixes frames :: jint
  assumes "idle_session handle a s r" "ds_decoder s = Some d" "ds_context s = c"
    "api_once (native e)" "api_initialized (native e)" "\<not> exception_check e"
    "pull_mode c" "saw_stream_info c" "n = unat (si_channels (ctx_stream_info c))" "0 < n"
    "pending_ok n c" "0 < sint frames" "unat frames * n \<le> length out" "int (length out) \<le> INT_MAX"
    "decoder_progress J A m" "m d < fuel"
  shows "\<exists>v res r' e'. readPullDecoderInterleaved fuel J A id handle (Some out) frames r e =
      Some (v, res, r', e') \<and>
    (if exception_check e' then v = 0 else
     \<exists>frs d' c'. decoded e' = decoded e @ frs \<and>
       r' = store_decode_session a (s\<lparr>ds_decoder := Some d', ds_context := c'\<rparr>) r \<and>
       ((\<forall>fr \<in> set frs. fh_channels fr = si_channels (ctx_stream_info c)) \<longrightarrow>
          (\<exists>out' k. res = Some out' \<and> length out' = length out \<and> k \<le> unat frames \<and>
             take (k * n) out' @ pull_queue c' = pull_queue c @ frames_pcm frs \<and>
             drop (k * n) out' = drop (k * n) out \<and> pending_ok n c' \<and>
             sint v = (if k = 0 then (if pull_end_of_stream c' then -1 else 0) else int k) \<and>
             (k < unat frames \<longrightarrow> pull_end_of_stream c') \<and>
             emitted_frames c' = emitted_frames c + of_nat k)))"
proof -
  let ?r1 = "store_decode_session a (s\<lparr>ds_reference_count := 1, ds_in_use := True\<rparr>) r"
  let ?c0 = "begin_pull_read c out frames"
  let ?n = "si_channels (ctx_stream_info c)"
  have "int (unat frames) = sint frames" by (rule sint_nonneg_unat) (use assms(12) in simp)
  then have frames: "frames \<noteq> 0" "unat frames < 2147483648"
    using assms(12) sint_jint_bounds(2) [of frames] by (auto, linarith)
  have small: "unat frames * n \<le> 2147483647" using assms(13,14) by linarith
  have ctx: "the (dr_sessions ?r1 a) = s\<lparr>ds_reference_count := 1, ds_in_use := True\<rparr>"
    by (simp add: store_decode_session_def)
  have start: "reading ?c0" "moved ?c0 [] ?c0" "pull_queue ?c0 = pull_queue c"
    using begin_reading [OF assms(7) _ _ _ assms(14), of frames] assms(9-11,13)
    by (auto simp: unat_gt_0)
  obtain ok c1 e1 where dr: "drain_decode_pull_pending ?c0 e = (ok, c1, e1)" by (metis prod_cases3)
  note drained = drain_moves [OF start(1) assms(6) dr]
  obtain exit d' c2 e2 where lp: "pull_loop fuel J A d c1 e = Some (exit, d', c2, e2)"
    using pull_loop_returns [OF assms(15,16), of c1 e] by (metis not_None_eq prod_cases4)
  have inv: "pull_inv ?c0 e c1 e"
    using drained by (auto simp: pull_inv_def frames_pcm_def moved_def reading_def)
  note finish = pull_loop_done [OF inv assms(6) lp]
  have leave: "leave_session A id a d0 c0 ?r1 e0 =
      (store_decode_session a (s\<lparr>ds_decoder := Some d0, ds_context := c0\<rparr>) r, e0)" for d0 c0 e0
    by (rule leave_idle_session [OF assms(1)])
  have run: "readPullDecoderInterleaved fuel J A id handle (Some out) frames r e =
      (case exit of
         PullPending \<Rightarrow> Some (0, pull_output c2, store_decode_session a
           (s\<lparr>ds_decoder := Some d', ds_context := c2\<lparr>pull_output := None\<rparr>\<rparr>) r, e2)
       | PullFail message \<Rightarrow> Some (0, pull_output c2, store_decode_session a
           (s\<lparr>ds_decoder := Some d', ds_context := c2\<lparr>pull_output := None\<rparr>\<rparr>) r,
           throw_decode_exception message e2)
       | PullDone \<Rightarrow> Some (pull_read_result c2, pull_output c2, store_decode_session a
           (s\<lparr>ds_decoder := Some d', ds_context := c2\<lparr>pull_output := None\<rparr>\<rparr>) r, e2))"
  proof -
    have "int (unat frames * unat ?n) \<le> INT_MAX" using small [unfolded assms(9)] by linarith
    then have small': "int (unat frames) * int (unat ?n) \<le> INT_MAX" by (simp only: of_nat_mult)
    have checks: "\<not> sint frames < 0" "frames \<noteq> 0" "\<not> (\<not> pull_mode c \<or> \<not> saw_stream_info c)"
      "\<not> (?n = 0 \<or> uint (ucast frames * ucast ?n :: u64) > INT_MAX \<or>
         (scast (of_nat (length out) :: jint) :: u64) < ucast frames * ucast ?n)"
      using assms(7-10,12-14) frames small'
      by (auto simp: word_less_nat_alt unat_sample_count unat_scast_length uint_nat
          simp del: of_nat_unat)
    have "the (ds_decoder s) = d" using assms(2) by simp
    with checks show ?thesis
      unfolding readPullDecoderInterleaved_def ready_again [OF assms(4,5)]
        acquire_idle_session [OF assms(1)] Let_def prod.case option.case ctx
      using assms(3) drained
      by (cases exit) (simp_all add: dr lp leave)
  qed
  show ?thesis
  proof (cases exit)
    case PullPending
    with finish run show ?thesis by simp
  next
    case (PullFail m)
    with run show ?thesis by (simp add: throw_defs)
  next
    case PullDone
    with finish have ok: "\<not> exception_check e2" and inv2: "pull_inv ?c0 e c2 e2"
      and full: "pull_end_of_stream c2 \<or> pull_requested_frames c2 \<le> pull_written_frames c2"
      by simp_all
    from ok inv2 obtain frs where frs: "decoded e2 = decoded e @ frs"
      and mv: "\<forall>fr \<in> set frs. fh_channels fr = pull_channels ?c0 \<Longrightarrow> moved ?c0 (frames_pcm frs) c2"
      by (auto simp: pull_inv_def)
    let ?k = "unat (pull_written_frames c2)"
    have view: "pull_queue (c2\<lparr>pull_output := None\<rparr>) = pull_queue c2"
      "pending_ok n (c2\<lparr>pull_output := None\<rparr>) = pending_ok n c2"
      by (cases "pull_pending_samples c2"; simp add: pull_queue_def pending_ok_def)+
    have fresh: "taken ?c0 = []" "pull_written_frames ?c0 = 0" "pull_channels ?c0 = ?n"
      "pull_requested_frames ?c0 = frames" "the (pull_output ?c0) = out"
      "emitted_frames ?c0 = emitted_frames c"
      by (simp_all add: taken_def written_samples_def begin_pull_read_def)
    have moved: "length (the (pull_output c2)) = length out \<and> ?k \<le> unat frames \<and>
        take (?k * n) (the (pull_output c2)) @ pull_queue c2 = pull_queue c @ frames_pcm frs \<and>
        drop (?k * n) (the (pull_output c2)) = drop (?k * n) out \<and> pending_ok n c2 \<and>
        pull_output c2 \<noteq> None \<and>
        emitted_frames c2 = emitted_frames c + of_nat ?k"
      if "\<forall>fr \<in> set frs. fh_channels fr = ?n"
      using mv that fresh start(3) assms(9)
      by (auto simp: moved_def reading_def word_le_nat_alt taken_def written_samples_def
          algebra_simps)
    have result: "sint (pull_read_result c2) =
        (if ?k = 0 then (if pull_end_of_stream c2 then -1 else 0) else int ?k)" if "?k \<le> unat frames"
    proof -
      have "sint (pull_written_frames c2) = int ?k"
        using that frames(2) by (intro sint_small) simp
      then show ?thesis by (simp add: pull_read_result_def del: of_nat_unat)
    qed
    have short: "?k < unat frames \<longrightarrow> pull_end_of_stream c2"
      if "moved ?c0 (frames_pcm frs) c2"
      using full that fresh by (auto simp: moved_def word_le_nat_alt)
    let ?c' = "c2\<lparr>pull_output := None\<rparr>"
    have "(\<forall>fr \<in> set frs. fh_channels fr = ?n) \<longrightarrow>
        (\<exists>out' k. pull_output c2 = Some out' \<and> length out' = length out \<and> k \<le> unat frames \<and>
           take (k * n) out' @ pull_queue ?c' = pull_queue c @ frames_pcm frs \<and>
           drop (k * n) out' = drop (k * n) out \<and> pending_ok n ?c' \<and>
           sint (pull_read_result c2) =
             (if k = 0 then (if pull_end_of_stream ?c' then -1 else 0) else int k) \<and>
           (k < unat frames \<longrightarrow> pull_end_of_stream ?c') \<and>
           emitted_frames ?c' = emitted_frames c + of_nat k)"
    proof
      assume uniform: "\<forall>fr \<in> set frs. fh_channels fr = ?n"
      then obtain out' where "pull_output c2 = Some out'" using moved by auto
      with moved [OF uniform] result short mv fresh(3) uniform view
      show "\<exists>out' k. pull_output c2 = Some out' \<and> length out' = length out \<and> k \<le> unat frames \<and>
           take (k * n) out' @ pull_queue ?c' = pull_queue c @ frames_pcm frs \<and>
           drop (k * n) out' = drop (k * n) out \<and> pending_ok n ?c' \<and>
           sint (pull_read_result c2) =
             (if k = 0 then (if pull_end_of_stream ?c' then -1 else 0) else int k) \<and>
           (k < unat frames \<longrightarrow> pull_end_of_stream ?c') \<and>
           emitted_frames ?c' = emitted_frames c + of_nat k"
        by (intro exI [of _ out'] exI [of _ ?k]) simp
    qed
    note delivered = this
    have "readPullDecoderInterleaved fuel J A id handle (Some out) frames r e =
        Some (pull_read_result c2, pull_output c2, store_decode_session a
          (s\<lparr>ds_decoder := Some d', ds_context := ?c'\<rparr>) r, e2)"
      by (simp add: run PullDone)
    then show ?thesis
    proof (intro exI conjI)
      show "if exception_check e2 then pull_read_result c2 = 0 else
        \<exists>frs' d'' c'. decoded e2 = decoded e @ frs' \<and>
          store_decode_session a (s\<lparr>ds_decoder := Some d', ds_context := ?c'\<rparr>) r =
            store_decode_session a (s\<lparr>ds_decoder := Some d'', ds_context := c'\<rparr>) r \<and>
          ((\<forall>fr \<in> set frs'. fh_channels fr = ?n) \<longrightarrow>
            (\<exists>out' k. pull_output c2 = Some out' \<and> length out' = length out \<and> k \<le> unat frames \<and>
               take (k * n) out' @ pull_queue c' = pull_queue c @ frames_pcm frs' \<and>
               drop (k * n) out' = drop (k * n) out \<and> pending_ok n c' \<and>
               sint (pull_read_result c2) =
                 (if k = 0 then (if pull_end_of_stream c' then -1 else 0) else int k) \<and>
               (k < unat frames \<longrightarrow> pull_end_of_stream c') \<and>
               emitted_frames c' = emitted_frames c + of_nat k))"
        unfolding if_not_P [OF ok]
        by (rule exI [of _ frs], rule exI [of _ d'], rule exI [of _ ?c'])
          (rule conjI [OF frs conjI [OF refl delivered]])
    qed
  qed
qed


text \<open>A stereo pull session at the start of its stream, under handle 1.\<close>

definition pull_session :: "nat decode_session" where
  "pull_session = \<lparr>ds_decoder = Some 0,
     ds_context = zero_context\<lparr>pull_mode := True, saw_stream_info := True,
       ctx_stream_info := sample_info\<rparr>,
     ds_handle = 1, ds_reference_count = 0, ds_released = False, ds_in_use = False\<rparr>"

definition pull_registry :: "nat decode_registry" where
  "pull_registry = \<lparr>dr_entries = [(1, 10)], dr_next_handle = 2,
     dr_sessions = [10 \<mapsto> pull_session], dr_fault = False\<rparr>"

lemma pull_session_read:
  "case readPullDecoderInterleaved 5 sample_jvm sample_decoder id 1
     (Some [0, 0, 0, 0, 0, 0]) 3 pull_registry ready_env of None \<Rightarrow> False
   | Some (v, res, r', e') \<Rightarrow> v = 3 \<and> res = Some [0, 0, 1, 1, 10, 100] \<and> pending e' = None \<and>
     map fh_channels (decoded e') = [2, 2]"
  by code_simp

lemma readPull_delivers_witness:
  "\<exists>r' e' frs d' c' k. readPullDecoderInterleaved 5 sample_jvm sample_decoder id 1
     (Some [0, 0, 0, 0, 0, 0]) 3 pull_registry ready_env =
     Some (3, Some [0, 0, 1, 1, 10, 100], r', e') \<and> decoded e' = decoded ready_env @ frs \<and>
     r' = store_decode_session 10 (pull_session\<lparr>ds_decoder := Some d', ds_context := c'\<rparr>) pull_registry \<and>
     take (k * 2) [0, 0, 1, 1, 10, 100] @ pull_queue c' = frames_pcm frs"
proof -
  let ?out = "[0, 0, 0, 0, 0, 0] :: jint list"
  let ?c = "zero_context\<lparr>pull_mode := True, saw_stream_info := True, ctx_stream_info := sample_info\<rparr>"
  let ?run = "readPullDecoderInterleaved 5 sample_jvm sample_decoder id 1 (Some ?out) 3 pull_registry ready_env"
  obtain r' e' where run: "?run = Some (3, Some [0, 0, 1, 1, 10, 100], r', e')"
    and fine: "\<not> exception_check e'"
    and channels: "map fh_channels (decoded e') = [2, 2]"
    using pull_session_read by (auto simp: exception_check_def split: option.splits)
  have idle: "idle_session 1 10 pull_session pull_registry"
    by (simp add: idle_session_def pull_registry_def pull_session_def)
  have hyps: "ds_decoder pull_session = Some 0" "ds_context pull_session = ?c" "api_once (native ready_env)"
    "api_initialized (native ready_env)" "\<not> exception_check ready_env" "pull_mode ?c" "saw_stream_info ?c"
    "2 = unat (si_channels (ctx_stream_info ?c))" "0 < (2 :: nat)" "pending_ok 2 ?c"
    "0 < sint (3 :: jint)" "unat (3 :: jint) * 2 \<le> length ?out" "int (length ?out) \<le> INT_MAX"
    by (simp_all add: pull_session_def sample_defs pending_ok_def)
  from readPull_delivers [OF idle hyps sample_progress, of 5] run obtain frs d' c' where
    frs: "decoded e' = decoded ready_env @ frs"
      "r' = store_decode_session 10 (pull_session\<lparr>ds_decoder := Some d', ds_context := c'\<rparr>) pull_registry"
    and read: "(\<forall>fr \<in> set frs. fh_channels fr = 2) \<longrightarrow>
      (\<exists>k. take (k * 2) [0, 0, 1, 1, 10, 100] @ pull_queue c' = pull_queue ?c @ frames_pcm frs)"
    using fine by (clarsimp simp: sample_info_def) metis
  have "frs = decoded e'" using frs(1) by (simp add: ready_env_def initial_env_def)
  moreover have "\<forall>fr \<in> set (decoded e'). fh_channels fr = 2"
    using arg_cong [OF channels, of set] by auto
  moreover have "pull_queue ?c = []" by (simp add: pull_queue_def zero_context_def)
  ultimately show ?thesis using read run frs by auto
qed

end
