(* ===== verification/Encode_Registry.thy ===== *)
theory Encode_Registry
  imports Jvm Handle_Registry "HOL-Library.Multiset"
begin

text \<open>
  The registry of encoder contexts (\<open>EncodeContext\<close> and the functions around
  \<open>g_encode_context_registry\<close> in \<open>jflac_jni.c\<close>). An encoder context is a heap object that owns a
  libFLAC encoder, metadata objects and global references; libFLAC's encoder state is the type
  \<open>'e\<close>, a metadata object is its address, and \<open>live_blocks\<close> of the environment lists the metadata
  objects that exist. Deleting an encoder abandons unfinished work and calls no Java transport
  callback. The last part shows that the registry implements \<open>Handle_Registry\<close>.
\<close>

section \<open>The model\<close>

record 'e encode_context =
  ec_encoder :: "'e option"
  ec_metadata_blocks :: "nat option list option"
  ec_metadata_count :: u32
  ec_channels :: u32
  ec_jvm :: bool
  ec_output_stream :: "jobject option"
  ec_output_write :: bool
  ec_output_flush :: bool
  ec_output_channel :: "jobject option"
  ec_channel_read :: bool
  ec_channel_write :: bool
  ec_channel_position :: bool
  ec_channel_seek :: bool
  ec_channel_base_offset :: jlong
  ec_handle :: jlong
  ec_reference_count :: int
  ec_released :: bool
  ec_in_use :: bool

record 'e encode_registry =
  er_entries :: "registry_entry list"
  er_next_handle :: jlong
  er_contexts :: "nat \<Rightarrow> 'e encode_context option"
  er_fault :: bool

definition initial_encode_registry :: "'e encode_registry" where
  "initial_encode_registry = \<lparr>er_entries = [], er_next_handle = JFLAC_FIRST_VALID_HANDLE,
     er_contexts = Map.empty, er_fault = False\<rparr>"

definition store_encode_context ::
  "nat \<Rightarrow> 'e encode_context \<Rightarrow> 'e encode_registry \<Rightarrow> 'e encode_registry" where
  "store_encode_context a x r = r\<lparr>er_contexts := (er_contexts r)(a \<mapsto> x)\<rparr>"

text \<open>
  A context as the open path builds it: the zeroed registry fields of \<open>calloc\<close>, the rest as given.
\<close>

definition new_encode_context ::
  "'e encode_context \<Rightarrow> nat \<Rightarrow> 'e encode_registry \<Rightarrow> 'e encode_registry" where
  "new_encode_context x a r =
     store_encode_context a (x\<lparr>ec_handle := 0, ec_reference_count := 0, ec_released := False,
       ec_in_use := False\<rparr>) r"

text \<open>What an operation changes in a context it holds: everything but the registry fields.\<close>

definition update_encode_context ::
  "'e encode_context \<Rightarrow> nat \<Rightarrow> 'e encode_registry \<Rightarrow> 'e encode_registry" where
  "update_encode_context x a r =
     (case er_contexts r a of
        None \<Rightarrow> r\<lparr>er_fault := True\<rparr>
      | Some y \<Rightarrow> store_encode_context a (x\<lparr>ec_handle := ec_handle y,
          ec_reference_count := ec_reference_count y, ec_released := ec_released y,
          ec_in_use := ec_in_use y\<rparr>) r)"

section \<open>Destruction\<close>

definition metadata_object_delete :: "nat \<Rightarrow> jenv \<Rightarrow> jenv" where
  "metadata_object_delete b e = e\<lparr>live_blocks := remove1 b (live_blocks e)\<rparr>"

definition delete_encoder :: "jenv \<Rightarrow> jenv" where
  "delete_encoder e = e\<lparr>live_encoders := live_encoders e - 1\<rparr>"

text \<open>The loop over the first \<open>metadata_count\<close> slots; a NULL slot was given to another owner.\<close>

fun delete_metadata_slots :: "nat option list \<Rightarrow> nat \<Rightarrow> nat \<Rightarrow> jenv \<Rightarrow> jenv" where
  "delete_metadata_slots blocks i 0 e = e"
| "delete_metadata_slots blocks i (Suc n) e =
     delete_metadata_slots blocks (Suc i) n
       (case blocks ! i of None \<Rightarrow> e | Some b \<Rightarrow> metadata_object_delete b e)"

definition destroy_metadata_blocks ::
  "'e encode_context \<Rightarrow> jenv \<Rightarrow> 'e encode_context \<times> jenv" where
  "destroy_metadata_blocks x e =
     (case ec_metadata_blocks x of
        None \<Rightarrow> (x, e)
      | Some blocks \<Rightarrow>
          (x\<lparr>ec_metadata_blocks := None, ec_metadata_count := 0\<rparr>,
           delete_metadata_slots blocks 0 (unat (ec_metadata_count x)) e))"

definition destroy_encode_context_parts :: "'e encode_context \<Rightarrow> jenv \<Rightarrow> jenv" where
  "destroy_encode_context_parts x e =
     (let e1 = (if ec_encoder x \<noteq> None then delete_encoder e else e);
          (x1, e2) = destroy_metadata_blocks x e1;
          e3 = (case ec_output_stream x1 of None \<Rightarrow> e2 | Some s \<Rightarrow> delete_global_ref s e2);
          e4 = (case ec_output_channel x1 of None \<Rightarrow> e3 | Some s \<Rightarrow> delete_global_ref s e3)
      in e4)"

definition free_encode_context :: "nat \<Rightarrow> 'e encode_registry \<Rightarrow> 'e encode_registry" where
  "free_encode_context a r =
     (case er_contexts r a of
        None \<Rightarrow> r\<lparr>er_fault := True\<rparr>
      | Some x \<Rightarrow> r\<lparr>er_contexts := (er_contexts r)(a := None)\<rparr>)"

definition destroy_encode_context ::
  "nat option \<Rightarrow> 'e encode_registry \<Rightarrow> jenv \<Rightarrow> 'e encode_registry \<times> jenv" where
  "destroy_encode_context context r e =
     (case context of
        None \<Rightarrow> (r, e)
      | Some a \<Rightarrow>
          (free_encode_context a r,
           (case er_contexts r a of
              None \<Rightarrow> e
            | Some x \<Rightarrow> destroy_encode_context_parts x e)))"

section \<open>The registry\<close>

definition find_encode_context_entry_locked ::
  "jlong \<Rightarrow> 'e encode_registry \<Rightarrow> (nat \<times> nat option) option" where
  "find_encode_context_entry_locked handle r = find_entry (er_entries r) handle"

definition reserve_encode_context_handle_locked ::
  "'e encode_registry \<Rightarrow> (jlong \<times> 'e encode_registry) option" where
  "reserve_encode_context_handle_locked r =
     map_option (\<lambda>(handle, next). (handle, r\<lparr>er_next_handle := next\<rparr>))
       (reserve_handle (er_entries r) (er_next_handle r))"

definition register_encode_context_locked ::
  "nat \<Rightarrow> 'e encode_registry \<Rightarrow> (jlong \<times> 'e encode_registry) option" where
  "register_encode_context_locked a r =
     (case reserve_encode_context_handle_locked r of
        None \<Rightarrow> None
      | Some (handle, r1) \<Rightarrow>
          Some (handle,
            (case er_contexts r1 a of
               None \<Rightarrow> r1\<lparr>er_fault := True\<rparr>
             | Some x \<Rightarrow>
                 (store_encode_context a
                   (x\<lparr>ec_handle := handle, ec_reference_count := 0, ec_released := False,
                      ec_in_use := False\<rparr>) r1)
                 \<lparr>er_entries := (handle, a) # er_entries r1\<rparr>)))"

definition register_encode_context ::
  "jvm \<Rightarrow> nat \<Rightarrow> 'e encode_registry \<Rightarrow> jenv \<Rightarrow> (jlong \<times> 'e encode_registry \<times> jenv) option" where
  "register_encode_context J a r e =
     (let (entry_ok, e1) = plain_alloc J (Malloc 24) e
      in if \<not> entry_ok then Some (0, r, e1)
         else map_option (\<lambda>(handle, r1). (handle, r1, e1)) (register_encode_context_locked a r))"

definition acquire_encode_context_locked ::
  "jlong \<Rightarrow> 'e encode_registry \<Rightarrow> nat option \<times> 'e encode_registry" where
  "acquire_encode_context_locked handle r =
     (if 0 < sint handle
      then
        (case find_encode_context_entry_locked handle r of
           None \<Rightarrow> (None, r)
         | Some (entry, previous) \<Rightarrow>
             let candidate = entry_object (er_entries r ! entry)
             in (case er_contexts r candidate of
                   None \<Rightarrow> (None, r\<lparr>er_fault := True\<rparr>)
                 | Some x \<Rightarrow>
                     if \<not> ec_released x \<and> \<not> ec_in_use x \<and> ec_encoder x \<noteq> None
                     then (Some candidate, store_encode_context candidate
                            (x\<lparr>ec_reference_count := ec_reference_count x + 1,
                               ec_in_use := True\<rparr>) r)
                     else (None, r)))
      else (None, r))"

definition acquire_encode_context ::
  "jlong \<Rightarrow> 'e encode_registry \<Rightarrow> jenv \<Rightarrow> nat option \<times> 'e encode_registry \<times> jenv" where
  "acquire_encode_context handle r e =
     (let (context, r1) = acquire_encode_context_locked handle r
      in (context, r1,
          (if context = None
           then throw_illegal_state_exception
                  ''The native FLAC encoder handle is not active.'' e
           else e)))"

definition release_encode_context_reference_locked ::
  "nat \<Rightarrow> 'e encode_registry \<Rightarrow> bool \<times> 'e encode_registry" where
  "release_encode_context_reference_locked a r =
     (case er_contexts r a of
        None \<Rightarrow> (False, r\<lparr>er_fault := True\<rparr>)
      | Some x \<Rightarrow>
          let x1 = (if ec_reference_count x > 0
                    then x\<lparr>ec_reference_count := ec_reference_count x - 1\<rparr> else x);
              x2 = x1\<lparr>ec_in_use := False\<rparr>
          in (ec_released x2 \<and> ec_reference_count x2 = 0, store_encode_context a x2 r))"

definition release_encode_context_reference ::
  "nat option \<Rightarrow> 'e encode_registry \<Rightarrow> jenv \<Rightarrow> 'e encode_registry \<times> jenv" where
  "release_encode_context_reference context r e =
     (case context of
        None \<Rightarrow> (r, e)
      | Some a \<Rightarrow>
          let (should_destroy, r1) = release_encode_context_reference_locked a r
          in if should_destroy then destroy_encode_context (Some a) r1 e else (r1, e))"

definition remove_encode_context ::
  "jlong \<Rightarrow> 'e encode_registry \<Rightarrow> nat option \<times> 'e encode_registry" where
  "remove_encode_context handle r =
     (if sint handle \<le> 0 then (None, r)
      else
        (case find_encode_context_entry_locked handle r of
           None \<Rightarrow> (None, r)
         | Some (entry, previous) \<Rightarrow>
             let context = entry_object (er_entries r ! entry);
                 r1 = r\<lparr>er_entries := unlink_entry (er_entries r) entry previous\<rparr>
             in (case er_contexts r1 context of
                   None \<Rightarrow> (None, r1\<lparr>er_fault := True\<rparr>)
                 | Some x \<Rightarrow>
                     ((if ec_reference_count x = 0 then Some context else None),
                      store_encode_context context (x\<lparr>ec_released := True\<rparr>) r1))))"

fun destroy_encode_entries ::
  "registry_entry list \<Rightarrow> 'e encode_registry \<Rightarrow> jenv \<Rightarrow> 'e encode_registry \<times> jenv" where
  "destroy_encode_entries [] r e = (r, e)"
| "destroy_encode_entries (entry # next) r e =
     (let (r1, e1) = destroy_encode_context (Some (entry_object entry)) r e
      in destroy_encode_entries next r1 e1)"

definition destroy_all_encode_contexts ::
  "'e encode_registry \<Rightarrow> jenv \<Rightarrow> 'e encode_registry \<times> jenv" where
  "destroy_all_encode_contexts r e =
     destroy_encode_entries (er_entries r) (r\<lparr>er_entries := []\<rparr>) e"

definition active_encode_context_count :: "'e encode_registry \<Rightarrow> jlong" where
  "active_encode_context_count r = count_entries (er_entries r) 0"

section \<open>Refinement\<close>

definition encode_cell :: "'e encode_context \<Rightarrow> cell" where
  "encode_cell x = \<lparr>c_refs = ec_reference_count x, c_released = ec_released x,
     c_in_use = ec_in_use x, c_usable = (ec_encoder x \<noteq> None)\<rparr>"

definition abs_encode_registry :: "'e encode_registry \<Rightarrow> areg" where
  "abs_encode_registry r = \<lparr>a_entries = er_entries r,
     a_cells = (\<lambda>a. map_option encode_cell (er_contexts r a)), a_fault = er_fault r\<rparr>"

definition encode_registry_ops :: "('e encode_registry, 'e encode_context) reg_ops" where
  "encode_registry_ops =
     \<lparr>op_init = initial_encode_registry,
      op_allocated = (\<lambda>a r. er_contexts r a \<noteq> None),
      op_create = new_encode_context,
      op_register = register_encode_context_locked,
      op_acquire = acquire_encode_context_locked,
      op_update = update_encode_context,
      op_release = release_encode_context_reference_locked,
      op_remove = remove_encode_context,
      op_destroy = free_encode_context\<rparr>"

lemmas encode_refine_defs = abs_encode_registry_def encode_cell_def store_encode_context_def
  fun_eq_iff

interpretation ereg: session_registry
  "encode_registry_ops :: ('e encode_registry, 'e encode_context) reg_ops"
  abs_encode_registry "\<lambda>r. 0 < sint (er_next_handle r)" "\<lambda>x. ec_encoder x \<noteq> None"
proof (unfold_locales, goal_cases)
  case 1
  then show ?case
    by (simp add: encode_registry_ops_def abs_encode_registry_def initial_encode_registry_def
        a_init_def)
next
  case 2
  then show ?case
    by (simp add: encode_registry_ops_def initial_encode_registry_def JFLAC_FIRST_VALID_HANDLE_def)
next
  case (3 a s)
  then show ?case by (simp add: encode_registry_ops_def abs_encode_registry_def)
next
  case (4 x a s)
  then show ?case
    by (simp add: encode_registry_ops_def encode_refine_defs new_encode_context_def
        a_create_def fresh_cell_def)
next
  case (5 x a s)
  then show ?case
    by (simp add: encode_registry_ops_def new_encode_context_def store_encode_context_def)
next
  case (6 s a h s')
  then show ?case
    using reserve_handle_fresh [of "er_entries s" "er_next_handle s"]
    by (auto simp: encode_registry_ops_def encode_refine_defs register_encode_context_locked_def
        reserve_encode_context_handle_locked_def a_register_def fresh_handle_def fresh_cell_def
        find_entry_None map_of_eq_None_iff split: option.splits)
next
  case (7 s a)
  then show ?case
    using reserve_handle_returns [of "er_next_handle s" "er_entries s"]
    by (auto simp: encode_registry_ops_def abs_encode_registry_def
        register_encode_context_locked_def reserve_encode_context_handle_locked_def)
next
  case (8 h s x' s')
  then show ?case
    by (auto simp: encode_registry_ops_def encode_refine_defs acquire_encode_context_locked_def
        find_encode_context_entry_locked_def a_acquire_def Let_def find_entry_None
        split: option.splits if_splits prod.splits dest: find_entry_lookup)
next
  case (9 x a s)
  then show ?case
    by (auto simp: encode_registry_ops_def encode_refine_defs update_encode_context_def
        a_touch_def split: option.splits)
next
  case (10 x a s)
  then show ?case
    by (simp add: encode_registry_ops_def update_encode_context_def store_encode_context_def
        split: option.splits)
next
  case (11 a s d s')
  then show ?case
    by (auto simp: encode_registry_ops_def encode_refine_defs
        release_encode_context_reference_locked_def a_release_def Let_def split: option.splits)
next
  case (12 h s x' s')
  then show ?case
    by (auto simp: encode_registry_ops_def encode_refine_defs remove_encode_context_def
        find_encode_context_entry_locked_def a_remove_def Let_def find_entry_None unlink_found
        split: option.splits if_splits prod.splits dest: find_entry_lookup)
next
  case (13 a s)
  then show ?case
    by (auto simp: encode_registry_ops_def encode_refine_defs free_encode_context_def
        a_destroy_def split: option.splits)
next
  case (14 a s)
  then show ?case
    by (simp add: encode_registry_ops_def free_encode_context_def split: option.splits)
qed

section \<open>Facts\<close>

lemma encode_ops_sel [simp]:
  "op_init encode_registry_ops = initial_encode_registry"
  "op_allocated encode_registry_ops a r \<longleftrightarrow> er_contexts r a \<noteq> None"
  "op_create encode_registry_ops = new_encode_context"
  "op_register encode_registry_ops = register_encode_context_locked"
  "op_acquire encode_registry_ops = acquire_encode_context_locked"
  "op_update encode_registry_ops = update_encode_context"
  "op_release encode_registry_ops = release_encode_context_reference_locked"
  "op_remove encode_registry_ops = remove_encode_context"
  "op_destroy encode_registry_ops = free_encode_context"
  by (simp_all add: encode_registry_ops_def)

lemma encode_abs_sel [simp]:
  "a_entries (abs_encode_registry r) = er_entries r"
  "a_cells (abs_encode_registry r) a = map_option encode_cell (er_contexts r a)"
  "a_fault (abs_encode_registry r) = er_fault r"
  by (simp_all add: abs_encode_registry_def)

lemma encode_quiescent:
  assumes "reg_reachable encode_registry_ops s" "\<forall>t. rs_acts s t = Idle"
    "er_contexts (rs_reg s) a = Some x"
  shows "a \<in> snd ` set (er_entries (rs_reg s))" "ec_reference_count x = 0" "\<not> ec_in_use x"
    "\<not> ec_released x"
proof -
  have inv: "sys_inv (ereg.abs_sys s)" by (rule ereg.reachable_inv [OF assms(1)])
  show mem: "a \<in> snd ` set (er_entries (rs_reg s))"
    using ereg.no_leak [OF assms(1,2), of a] assms(3) by simp
  have cell: "a_cells (a_reg (ereg.abs_sys s)) a = Some (encode_cell x)"
    using assms(3) by simp
  have "\<not> used (ereg.abs_sys s) a" using assms(2) by (simp add: used_def)
  then show "ec_reference_count x = 0" "\<not> ec_in_use x"
    using sys_invD(7,8) [OF inv cell] by (simp_all add: encode_cell_def)
  have "in_table (a_reg (ereg.abs_sys s)) a" using mem by (simp add: in_table_def)
  from table_cell [OF sys_invD(2) [OF inv] this cell] show "\<not> ec_released x"
    by (simp add: encode_cell_def)
qed


text \<open>What a context owns: its metadata objects that were not given away, and its references.\<close>

definition owned_blocks :: "'e encode_context \<Rightarrow> nat list" where
  "owned_blocks x = (case ec_metadata_blocks x of
     None \<Rightarrow> []
   | Some blocks \<Rightarrow> map the (filter (\<lambda>b. b \<noteq> None) (take (unat (ec_metadata_count x)) blocks)))"

definition owned_refs :: "'e encode_context \<Rightarrow> jobject list" where
  "owned_refs x = map the (filter (\<lambda>b. b \<noteq> None) [ec_output_stream x, ec_output_channel x])"

lemma delete_metadata_slots_blocks:
  assumes "i + n \<le> length blocks"
  shows "mset (live_blocks (delete_metadata_slots blocks i n e)) =
      mset (live_blocks e) - mset (map the (filter (\<lambda>b. b \<noteq> None) (take n (drop i blocks)))) \<and>
    global_refs (delete_metadata_slots blocks i n e) = global_refs e \<and>
    live_encoders (delete_metadata_slots blocks i n e) = live_encoders e"
  using assms
proof (induction n arbitrary: i e)
  case (Suc n)
  then have "drop i blocks = blocks ! i # drop (Suc i) blocks" by (simp add: Cons_nth_drop_Suc)
  with Suc.IH [of "Suc i"] Suc.prems show ?case
    by (cases "blocks ! i") (simp_all add: metadata_object_delete_def)
qed simp

text \<open>A sample run: a call opens a context that owns one metadata object, another acquires it.\<close>

definition sample_encode_context :: "nat encode_context" where
  "sample_encode_context = \<lparr>ec_encoder = Some 5, ec_metadata_blocks = Some [Some 70, None],
     ec_metadata_count = 2, ec_channels = 2, ec_jvm = True, ec_output_stream = Some 8, ec_output_write = True,
     ec_output_flush = True, ec_output_channel = None, ec_channel_read = False,
     ec_channel_write = False, ec_channel_position = False, ec_channel_seek = False,
     ec_channel_base_offset = 0, ec_handle = 0, ec_reference_count = 0, ec_released = False,
     ec_in_use = False\<rparr>"

definition sample_encode_registry :: "nat encode_registry" where
  "sample_encode_registry = \<lparr>er_entries = [(1, 10)], er_next_handle = 2,
     er_contexts = [10 \<mapsto> sample_encode_context\<lparr>ec_handle := 1\<rparr>], er_fault = False\<rparr>"

lemma sample_encode_reachable:
  "reg_reachable encode_registry_ops
     \<lparr>rs_reg = sample_encode_registry, rs_acts = (\<lambda>_. Idle)\<rparr>"
proof -
  let ?new = "new_encode_context sample_encode_context 10 initial_encode_registry"
  let ?opening = "\<lparr>rs_reg = ?new, rs_acts = (\<lambda>_. Idle)(0 := Opening 10)\<rparr>"
  have reg: "register_encode_context_locked 10 ?new = Some (1, sample_encode_registry)"
    by (simp add: register_encode_context_locked_def reserve_encode_context_handle_locked_def
        new_encode_context_def initial_encode_registry_def store_encode_context_def
        sample_encode_registry_def sample_encode_context_def JFLAC_FIRST_VALID_HANDLE_def
        advance_handle_def find_entry_def reserve_handle.simps [of "[]"] Let_def)
  have "reg_step encode_registry_ops (reg_start encode_registry_ops) ?opening"
    using reg_step.create [of "reg_start encode_registry_ops" 0 encode_registry_ops 10
        sample_encode_context]
    by (simp add: reg_start_def initial_encode_registry_def)
  then have 1: "reg_reachable encode_registry_ops ?opening"
    by (rule reg_reachable.step [OF reg_reachable.start])
  have "reg_step encode_registry_ops ?opening
      \<lparr>rs_reg = sample_encode_registry, rs_acts = (\<lambda>_. Idle)\<rparr>"
    using reg_step.register [of ?opening 0 10 encode_registry_ops 1 sample_encode_registry] reg
      fun_upd_triv [of "\<lambda>_::nat. Idle" 0]
    by (simp del: fun_upd_triv)
  with 1 show ?thesis by (rule reg_reachable.step)
qed

lemma sample_encode_using:
  "\<exists>r. reg_reachable encode_registry_ops \<lparr>rs_reg = r, rs_acts = (\<lambda>_. Idle)(2 := Using 10)\<rparr> \<and>
     er_entries (r :: nat encode_registry) = [(1, 10)]"
proof -
  obtain r where acq: "acquire_encode_context_locked 1 sample_encode_registry = (Some 10, r)"
    and ent: "er_entries r = [(1, 10)]"
    by (simp add: acquire_encode_context_locked_def find_encode_context_entry_locked_def
        find_entry_def sample_encode_registry_def sample_encode_context_def
        store_encode_context_def)
  have "reg_step encode_registry_ops \<lparr>rs_reg = sample_encode_registry, rs_acts = (\<lambda>_. Idle)\<rparr>
      \<lparr>rs_reg = r, rs_acts = (\<lambda>_. Idle)(2 := Using 10)\<rparr>"
    using reg_step.acquire [of "\<lparr>rs_reg = sample_encode_registry, rs_acts = (\<lambda>_. Idle)\<rparr>" 2
        encode_registry_ops 1 10 r] acq by simp
  with sample_encode_reachable have
    "reg_reachable encode_registry_ops \<lparr>rs_reg = r, rs_acts = (\<lambda>_. Idle)(2 := Using 10)\<rparr>"
    by (rule reg_reachable.step)
  with ent show ?thesis by blast
qed

section \<open>Properties\<close>

text \<open>
  C6: encoder contexts are neither used after they are freed nor used by two calls at a time,
  whatever native calls do, in any interleaving.
\<close>

theorem encode_registry_safe:
  assumes "reg_reachable encode_registry_ops s"
  shows "\<not> er_fault (rs_reg s) \<and>
    (\<forall>t a. holds (rs_acts s t) a \<longrightarrow> er_contexts (rs_reg s) a \<noteq> None \<and>
       (\<forall>t'. holds (rs_acts s t') a \<longrightarrow> t' = t))"
proof (intro conjI allI impI)
  show "\<not> er_fault (rs_reg s)" using ereg.no_fault [OF assms] by simp
next
  fix t a assume t: "holds (rs_acts s t) a"
  show "er_contexts (rs_reg s) a \<noteq> None" using ereg.held_allocated [OF assms t] by simp
  fix t' assume "holds (rs_acts s t') a"
  from ereg.one_holder [OF assms this t] show "t' = t" .
qed

lemma encode_registry_safe_witness:
  "\<exists>r. reg_reachable encode_registry_ops \<lparr>rs_reg = r, rs_acts = (\<lambda>_. Idle)(2 := Using 10)\<rparr> \<and>
     er_contexts (r :: nat encode_registry) 10 \<noteq> None"
proof -
  obtain r :: "nat encode_registry" where
    r: "reg_reachable encode_registry_ops \<lparr>rs_reg = r, rs_acts = (\<lambda>_. Idle)(2 := Using 10)\<rparr>"
    using sample_encode_using by blast
  have "er_contexts r 10 \<noteq> None"
    using encode_registry_safe [OF r, THEN conjunct2, THEN spec [of _ 2], THEN spec [of _ 10]]
    by simp
  with r show ?thesis by blast
qed

text \<open>
  When no native call is running, the allocated encoder contexts are exactly those of the
  registry, and each is idle and not released.
\<close>

lemma encode_registry_no_leak:
  assumes "reg_reachable encode_registry_ops s" "\<forall>t. rs_acts s t = Idle"
  shows "dom (er_contexts (rs_reg s)) = snd ` set (er_entries (rs_reg s)) \<and>
    (\<forall>x \<in> ran (er_contexts (rs_reg s)).
       ec_reference_count x = 0 \<and> \<not> ec_in_use x \<and> \<not> ec_released x)"
proof -
  have "er_contexts (rs_reg s) a \<noteq> None \<longleftrightarrow> a \<in> snd ` set (er_entries (rs_reg s))" for a
    using ereg.no_leak [OF assms, of a] by simp
  then have "dom (er_contexts (rs_reg s)) = snd ` set (er_entries (rs_reg s))" by blast
  with encode_quiescent [OF assms] show ?thesis by (auto simp: ran_def)
qed

lemma encode_registry_no_leak_witness:
  "dom (er_contexts sample_encode_registry) = {10}"
  using encode_registry_no_leak [OF sample_encode_reachable]
  by (simp add: sample_encode_registry_def)

text \<open>
  Registering a context returns a positive handle no other context has (below \<open>2 ^ 63 - 1\<close>
  entries), under which a call can acquire it.
\<close>

lemma register_encode_context_fresh:
  assumes "0 < sint (er_next_handle r)" "length (er_entries r) < 9223372036854775807"
    "er_contexts r a = Some x" "ec_encoder x \<noteq> None"
  shows "\<exists>h r'. register_encode_context_locked a r = Some (h, r') \<and>
    0 < sint h \<and> h \<notin> fst ` set (er_entries r) \<and> er_entries r' = (h, a) # er_entries r \<and>
    0 < sint (er_next_handle r') \<and> fst (acquire_encode_context_locked h r') = Some a"
proof -
  obtain h nxt where res: "reserve_handle (er_entries r) (er_next_handle r) = Some (h, nxt)"
    using reserve_handle_returns [OF assms(1,2)] by auto
  from reserve_handle_fresh [OF res] have "0 < sint h" "h \<notin> fst ` set (er_entries r)"
    "0 < sint nxt"
    by (simp_all add: find_entry_None map_of_eq_None_iff)
  then show ?thesis using assms(3,4)
    by (auto simp: register_encode_context_locked_def reserve_encode_context_handle_locked_def
        res store_encode_context_def acquire_encode_context_locked_def
        find_encode_context_entry_locked_def find_entry_def)
qed

lemma register_encode_context_fresh_witness:
  "\<exists>h r'. register_encode_context_locked 10 sample_encode_registry = Some (h, r') \<and> h \<noteq> 1 \<and>
     fst (acquire_encode_context_locked h r') = Some 10"
proof -
  have "\<exists>h r'. register_encode_context_locked 10 sample_encode_registry = Some (h, r') \<and>
    0 < sint h \<and> h \<notin> fst ` set (er_entries sample_encode_registry) \<and>
    er_entries r' = (h, 10) # er_entries sample_encode_registry \<and>
    0 < sint (er_next_handle r') \<and> fst (acquire_encode_context_locked h r') = Some 10"
    by (rule register_encode_context_fresh
        [where x = "the (er_contexts sample_encode_registry 10)"])
      (simp_all add: sample_encode_registry_def sample_encode_context_def)
  then show ?thesis by (auto simp: sample_encode_registry_def)
qed

text \<open>
  Destroying an encoder context releases what it owns and nothing else: its encoder, the
  metadata objects of the slots that are not NULL, and its global references; the context is freed.
\<close>

lemma destroy_encode_context_releases:
  assumes "er_contexts r a = Some x"
    "\<And>blocks. ec_metadata_blocks x = Some blocks \<Longrightarrow> unat (ec_metadata_count x) \<le> length blocks"
    "destroy_encode_context (Some a) r e = (r', e')"
  shows "er_contexts r' = (er_contexts r)(a := None) \<and> er_fault r' = er_fault r \<and>
    live_encoders e' = live_encoders e - (if ec_encoder x = None then 0 else 1) \<and>
    mset (live_blocks e') = mset (live_blocks e) - mset (owned_blocks x) \<and>
    mset (global_refs e') = mset (global_refs e) - mset (owned_refs x)"
proof -
  have r': "r' = r\<lparr>er_contexts := (er_contexts r)(a := None)\<rparr>"
    and e': "e' = destroy_encode_context_parts x e"
    using assms(1,3) by (auto simp: destroy_encode_context_def free_encode_context_def)
  let ?e1 = "if ec_encoder x \<noteq> None then delete_encoder e else e"
  obtain x1 e2 where md: "destroy_metadata_blocks x ?e1 = (x1, e2)"
    by (cases "destroy_metadata_blocks x ?e1")
  have b: "mset (live_blocks e2) = mset (live_blocks e) - mset (owned_blocks x)"
    "global_refs e2 = global_refs e" "live_encoders e2 = live_encoders ?e1"
    "ec_output_stream x1 = ec_output_stream x" "ec_output_channel x1 = ec_output_channel x"
    using md assms(2) delete_metadata_slots_blocks [of 0 "unat (ec_metadata_count x)"
        "the (ec_metadata_blocks x)" ?e1]
    by (auto simp: destroy_metadata_blocks_def owned_blocks_def delete_encoder_def
        split: option.splits if_splits)
  have "e' = (case ec_output_channel x of None \<Rightarrow> id | Some s \<Rightarrow> delete_global_ref s)
      ((case ec_output_stream x of None \<Rightarrow> id | Some s \<Rightarrow> delete_global_ref s) e2)"
    unfolding e' destroy_encode_context_parts_def Let_def md prod.case b(4,5)
    by (simp split: option.splits)
  with b(1-3) r' show ?thesis
    by (cases "ec_output_stream x"; cases "ec_output_channel x")
      (simp_all add: owned_refs_def delete_global_ref_def delete_encoder_def add_mset_commute)
qed

lemma destroy_encode_context_releases_witness:
  "let (r', e') = destroy_encode_context (Some 10) sample_encode_registry
     (initial_env\<lparr>live_encoders := 1, live_blocks := [70, 71], global_refs := [8, 9]\<rparr>)
   in live_encoders e' = 0 \<and> mset (live_blocks e') = {#71#} \<and> mset (global_refs e') = {#9#}"
proof -
  let ?e = "initial_env\<lparr>live_encoders := 1, live_blocks := [70, 71], global_refs := [8, 9]\<rparr>"
  obtain r' e' where d: "destroy_encode_context (Some 10) sample_encode_registry ?e = (r', e')"
    by (cases "destroy_encode_context (Some 10) sample_encode_registry ?e")
  have "er_contexts sample_encode_registry 10 = Some (sample_encode_context\<lparr>ec_handle := 1\<rparr>)"
    by (simp add: sample_encode_registry_def)
  from destroy_encode_context_releases [OF this _ d] show ?thesis
    by (simp add: d sample_encode_context_def owned_blocks_def owned_refs_def take_Cons')
qed

end
