(* ===== verification/Encode_Callbacks.thy ===== *)
theory Encode_Callbacks
  imports Encode_Registry
begin

text \<open>
  The callbacks the shim gives to libFLAC's encoder, and the preparation of an \<open>OutputStream\<close> or a
  \<open>SeekableByteChannel\<close> target. The callbacks read the context and never write it. \<open>GetEnv\<close> on the
  calling thread may fail; the callbacks then fail closed. The \<open>ByteBuffer\<close> a channel writes from is
  the slice libFLAC passed; how much of it a call consumed is the count Java returns. libFLAC's
  encoder is a parameter, a record of its entry points over an abstract state \<open>'e\<close>, and a call that
  may come back into the shim is an interaction tree, as for the decoder.
\<close>

section \<open>Preparing a target\<close>

definition prepare_encode_output_stream ::
  "jvm \<Rightarrow> 'e encode_context \<Rightarrow> jobject option \<Rightarrow> jenv \<Rightarrow> bool \<times> 'e encode_context \<times> jenv" where
  "prepare_encode_output_stream J x stream e =
     (case stream of
        None \<Rightarrow> (False, x,
          throw_illegal_argument_exception ''Encoder output stream must not be null.'' e)
      | Some s \<Rightarrow>
          let (class_ok, e1) = plain_alloc J (GetObjectClass s) e in
          if \<not> class_ok then (False, x, e1) else
          let (m1, e2) = java_try J (GetMethodID ''write'') e1;
              (m2, e3) = java_try J (GetMethodID ''flush'') e2;
              x1 = x\<lparr>ec_output_write := m1, ec_output_flush := m2\<rparr> in
          if \<not> (m1 \<and> m2) then (False, x1, e3) else
          let (vm_ok, e4) = plain_alloc J (Jni ''GetJavaVM'') e3 in
          if \<not> vm_ok
          then (False, x1, throw_encode_exception
                  ''Failed to access JVM for stream encoder callbacks.'' e4) else
          let (ref, e5) = new_global_ref J s e4
          in (ref \<noteq> None, x1\<lparr>ec_jvm := True, ec_output_stream := ref\<rparr>, e5))"

definition prepare_encode_output_channel ::
  "jvm \<Rightarrow> 'e encode_context \<Rightarrow> jobject option \<Rightarrow> jenv \<Rightarrow> bool \<times> 'e encode_context \<times> jenv" where
  "prepare_encode_output_channel J x channel e =
     (case channel of
        None \<Rightarrow> (False, x,
          throw_illegal_argument_exception ''Encoder output channel must not be null.'' e)
      | Some obj \<Rightarrow>
          let (k1, e1) = java_try J (Jni ''FindClass ReadableByteChannel'') e;
              (k2, e2) = java_try J (Jni ''FindClass WritableByteChannel'') e1;
              (k3, e3) = java_try J (Jni ''FindClass SeekableByteChannel'') e2 in
          if \<not> (k1 \<and> k2 \<and> k3) then (False, x, e3) else
          let (m1, e4) = java_try J (GetMethodID ''read'') e3;
              (m2, e5) = java_try J (GetMethodID ''write'') e4;
              (m3, e6) = java_try J (GetMethodID ''position()J'') e5;
              (m4, e7) = java_try J (GetMethodID ''position(J)'') e6;
              x1 = x\<lparr>ec_channel_read := m1, ec_channel_write := m2, ec_channel_position := m3,
                     ec_channel_seek := m4\<rparr> in
          if \<not> (m1 \<and> m2 \<and> m3 \<and> m4) then (False, x1, e7) else
          let (vm_ok, e8) = plain_alloc J (Jni ''GetJavaVM'') e7 in
          if \<not> vm_ok
          then (False, x1, throw_encode_exception
                  ''Failed to access JVM for channel encoder callbacks.'' e8) else
          let (ref, e9) = new_global_ref J obj e8;
              x2 = x1\<lparr>ec_jvm := True, ec_output_channel := ref\<rparr> in
          if ref = None then (False, x2, e9) else
          let (offset, e10) = call_long J ChannelPosition e9;
              x3 = x2\<lparr>ec_channel_base_offset := offset\<rparr> in
          if exception_check e10 then (False, x3, e10) else
          if sint offset < 0
          then (False, x3, throw_encode_exception
                  ''SeekableByteChannel returned a negative position.'' e10)
          else (True, x3, e10))"

section \<open>The callbacks\<close>

definition encode_context_env :: "jvm \<Rightarrow> 'e encode_context \<Rightarrow> jenv \<Rightarrow> bool \<times> jenv" where
  "encode_context_env J x e =
     (if \<not> ec_jvm x then (False, e) else plain_alloc J (Jni ''GetEnv'') e)"

datatype encoder_read_status = ENC_READ_CONTINUE | ENC_READ_END_OF_STREAM | ENC_READ_ABORT
datatype encoder_write_status = ENC_WRITE_OK | ENC_WRITE_FATAL_ERROR

type_synonym encoder_read_result = "encoder_read_status \<times> u64 option \<times> byte list"

definition encode_channel_read_callback ::
  "jvm \<Rightarrow> 'e encode_context \<Rightarrow> u64 option \<Rightarrow> jenv \<Rightarrow> encoder_read_result \<times> jenv" where
  "encode_channel_read_callback J x bytes e =
     (let (env_ok, e1) = encode_context_env J x e;
          stop = (ENC_READ_ABORT, map_option (\<lambda>_. 0) bytes, []) in
      if \<not> env_ok \<or> ec_output_channel x = None \<or> \<not> ec_channel_read x then (stop, e1) else
      case bytes of None \<Rightarrow> (stop, e1) | Some n \<Rightarrow>
      if exception_check e1 then (stop, e1) else
      if n = 0 then (stop, e1) else
      if uint n > INT_MAX
      then (stop, throw_encode_exception
              ''SeekableByteChannel read-back request is too large for one ByteBuffer.'' e1) else
      let (buffer_ok, e2) = new_direct_byte_buffer J n e1 in
      if \<not> buffer_ok then (stop, e2) else
      let (r, e3) = call_int J (ChannelRead n) e2;
          filled = take (unat n) (jv_bytes J (ChannelRead n # calls e2)) in
      if exception_check e3 then (stop, e3) else
      if sint r \<le> 0 then ((ENC_READ_END_OF_STREAM, Some 0, []), e3)
      else ((ENC_READ_CONTINUE, Some (scast r), filled), e3))"

text \<open>
  The loop over partial writes; the slice has at most \<open>INT_MAX\<close> bytes and a count at most \<open>INT_MAX\<close>,
  so \<open>written_total\<close> does not wrap in \<open>size_t\<close>. It ends because every pass adds at least one.
\<close>

function channel_write_loop ::
  "jvm \<Rightarrow> byte list \<Rightarrow> nat \<Rightarrow> jenv \<Rightarrow> encoder_write_status \<times> jenv" where
  "channel_write_loop J buffer written_total e =
     (if \<not> written_total < length buffer then (ENC_WRITE_OK, e) else
      let (written, e1) = call_int J (ChannelWrite buffer) e in
      if exception_check e1 then (ENC_WRITE_FATAL_ERROR, e1) else
      if sint written \<le> 0
      then (ENC_WRITE_FATAL_ERROR, throw_encode_exception
              ''SeekableByteChannel returned zero bytes for a non-empty write request.'' e1)
      else channel_write_loop J buffer (written_total + unat written) e1)"
  by pat_completeness auto

termination
proof (relation "measure (\<lambda>(J, buffer, written_total, e). length buffer - written_total)", simp, clarsimp)
  fix buffer :: "byte list" and t and w :: jint
  assume "t < length buffer" "\<not> sint w \<le> 0"
  then have "w \<noteq> 0" by auto
  then have "0 < unat w" by (simp add: unat_gt_0)
  then show "length buffer - (t + unat w) < length buffer - t" using \<open>t < length buffer\<close> by simp
qed

declare channel_write_loop.simps [simp del]

definition encode_channel_write_callback ::
  "jvm \<Rightarrow> 'e encode_context \<Rightarrow> byte list \<Rightarrow> jenv \<Rightarrow> encoder_write_status \<times> jenv" where
  "encode_channel_write_callback J x buffer e =
     (let (env_ok, e1) = encode_context_env J x e in
      if \<not> env_ok \<or> ec_output_channel x = None \<or> \<not> ec_channel_write x
      then (ENC_WRITE_FATAL_ERROR, e1) else
      if exception_check e1 then (ENC_WRITE_FATAL_ERROR, e1) else
      if int (length buffer) > INT_MAX
      then (ENC_WRITE_FATAL_ERROR, throw_encode_exception
              ''Encoded FLAC chunk is too large for one ByteBuffer.'' e1) else
      let (buffer_ok, e2) = new_direct_byte_buffer J (of_nat (length buffer)) e1 in
      if \<not> buffer_ok then (ENC_WRITE_FATAL_ERROR, e2)
      else channel_write_loop J buffer 0 e2)"

definition encode_channel_seek_callback ::
  "jvm \<Rightarrow> 'e encode_context \<Rightarrow> u64 \<Rightarrow> jenv \<Rightarrow> seek_status \<times> jenv" where
  "encode_channel_seek_callback J x off e =
     (let (env_ok, e1) = encode_context_env J x e in
      if \<not> env_ok \<or> ec_output_channel x = None \<or> \<not> ec_channel_seek x \<or>
         off > LLONG_MAX - ec_channel_base_offset x
      then (SEEK_ERROR, e1)
      else
        let e2 = java_call J (ChannelSeek (ec_channel_base_offset x + off)) e1
        in ((if exception_check e2 then SEEK_ERROR else SEEK_OK), e2))"

definition encode_channel_tell_callback ::
  "jvm \<Rightarrow> 'e encode_context \<Rightarrow> bool \<Rightarrow> jenv \<Rightarrow> (tell_status \<times> u64 option) \<times> jenv" where
  "encode_channel_tell_callback J x has_result e =
     (let (env_ok, e1) = encode_context_env J x e in
      if \<not> env_ok \<or> ec_output_channel x = None \<or> \<not> ec_channel_position x \<or> \<not> has_result
      then ((TELL_ERROR, None), e1)
      else
        let (position, e2) = call_long J ChannelPosition e1
        in if exception_check e2 \<or> sint position < sint (ec_channel_base_offset x)
           then ((TELL_ERROR, None), e2)
           else ((TELL_OK, Some (position - ec_channel_base_offset x)), e2))"

definition encode_write_callback ::
  "jvm \<Rightarrow> 'e encode_context \<Rightarrow> byte list \<Rightarrow> jenv \<Rightarrow> encoder_write_status \<times> jenv" where
  "encode_write_callback J x buffer e =
     (if ec_output_channel x \<noteq> None then encode_channel_write_callback J x buffer e else
      let (env_ok, e1) = encode_context_env J x e in
      if \<not> env_ok \<or> ec_output_stream x = None \<or> \<not> ec_output_write x
      then (ENC_WRITE_FATAL_ERROR, e1) else
      if exception_check e1 then (ENC_WRITE_FATAL_ERROR, e1) else
      if int (length buffer) > INT_MAX
      then (ENC_WRITE_FATAL_ERROR, throw_encode_exception
              ''Encoded FLAC chunk is too large for one JVM ByteArray.'' e1) else
      let (chunk_ok, e2) = java_try J (NewByteArray (of_nat (length buffer))) e1 in
      if \<not> chunk_ok then (ENC_WRITE_FATAL_ERROR, e2) else
      let e3 = (if length buffer > 0 then java_call J (Jni ''SetByteArrayRegion'') e2 else e2);
          e4 = (if exception_check e3 then e3 else java_call J (OutputWrite buffer) e3)
      in ((if exception_check e4 then ENC_WRITE_FATAL_ERROR else ENC_WRITE_OK), e4))"

section \<open>Interaction trees\<close>

datatype 'e encoder_run =
    EncReturn bool 'e
  | EncReadCallback "u64 option" "encoder_read_result \<Rightarrow> 'e encoder_run"
  | EncWriteCallback "byte list" "encoder_write_status \<Rightarrow> 'e encoder_run"
  | EncSeekCallback u64 "seek_status \<Rightarrow> 'e encoder_run"
  | EncTellCallback bool "tell_status \<times> u64 option \<Rightarrow> 'e encoder_run"

primrec run_encoder_callbacks ::
  "jvm \<Rightarrow> 'x encode_context \<Rightarrow> 'e encoder_run \<Rightarrow> jenv \<Rightarrow> bool \<times> 'e \<times> jenv" where
  "run_encoder_callbacks J x (EncReturn ok d) = (\<lambda>e. (ok, d, e))"
| "run_encoder_callbacks J x (EncReadCallback bytes k) = (\<lambda>e.
     let (r, e1) = encode_channel_read_callback J x bytes e in run_encoder_callbacks J x (k r) e1)"
| "run_encoder_callbacks J x (EncWriteCallback buffer k) = (\<lambda>e.
     let (r, e1) = encode_write_callback J x buffer e in run_encoder_callbacks J x (k r) e1)"
| "run_encoder_callbacks J x (EncSeekCallback off k) = (\<lambda>e.
     let (r, e1) = encode_channel_seek_callback J x off e in run_encoder_callbacks J x (k r) e1)"
| "run_encoder_callbacks J x (EncTellCallback p k) = (\<lambda>e.
     let (r, e1) = encode_channel_tell_callback J x p e in run_encoder_callbacks J x (k r) e1)"

datatype target_kind = FileTarget string | StreamTarget | ChannelTarget

datatype num_threads_status =
    NUM_THREADS_OK | NUM_THREADS_NOT_COMPILED | NUM_THREADS_ALREADY_INITIALIZED
  | NUM_THREADS_TOO_MANY | NUM_THREADS_OTHER nat

record 'e encoder_api =
  stream_encoder_new :: "'e option"
  stream_encoder_set_num_threads :: "'e \<Rightarrow> u32 \<Rightarrow> num_threads_status \<times> 'e"
  stream_encoder_set_verify :: "'e \<Rightarrow> bool \<Rightarrow> bool \<times> 'e"
  stream_encoder_set_streamable_subset :: "'e \<Rightarrow> bool \<Rightarrow> bool \<times> 'e"
  stream_encoder_set_channels :: "'e \<Rightarrow> u32 \<Rightarrow> bool \<times> 'e"
  stream_encoder_set_bits_per_sample :: "'e \<Rightarrow> u32 \<Rightarrow> bool \<times> 'e"
  stream_encoder_set_sample_rate :: "'e \<Rightarrow> u32 \<Rightarrow> bool \<times> 'e"
  stream_encoder_set_compression_level :: "'e \<Rightarrow> u32 \<Rightarrow> bool \<times> 'e"
  stream_encoder_set_blocksize :: "'e \<Rightarrow> u32 \<Rightarrow> bool \<times> 'e"
  stream_encoder_set_ogg_serial_number :: "'e \<Rightarrow> int \<Rightarrow> bool \<times> 'e"
  stream_encoder_set_total_samples_estimate :: "'e \<Rightarrow> u64 \<Rightarrow> bool \<times> 'e"
  stream_encoder_set_metadata :: "'e \<Rightarrow> nat option list \<Rightarrow> u32 \<Rightarrow> bool \<times> 'e"
  stream_encoder_init :: "target_kind \<Rightarrow> bool \<Rightarrow> 'e \<Rightarrow> 'e encoder_run"
  stream_encoder_process_interleaved :: "'e \<Rightarrow> jint list \<Rightarrow> u32 \<Rightarrow> 'e encoder_run"
  stream_encoder_finish :: "'e \<Rightarrow> 'e encoder_run"
  stream_encoder_get_resolved_state_string :: "'e \<Rightarrow> string option"

definition encoder_state_or_unknown :: "'e encoder_api \<Rightarrow> 'e \<Rightarrow> string" where
  "encoder_state_or_unknown A d =
     (case stream_encoder_get_resolved_state_string A d of
        Some state \<Rightarrow> state | None \<Rightarrow> ''unknown encoder state'')"

definition new_encoder :: "'e encoder_api \<Rightarrow> jenv \<Rightarrow> 'e option \<times> jenv" where
  "new_encoder A e =
     (case stream_encoder_new A of
        None \<Rightarrow> (None, e)
      | Some d \<Rightarrow> (Some d, e\<lparr>live_encoders := live_encoders e + 1\<rparr>))"

end
