(* ===== verification/Flac_Metadata.thy ===== *)
theory Flac_Metadata
  imports Encode_Registry Decode_Oneshot
begin

text \<open>
  The two sides the metadata code stands between. The public Java model objects are records of what
  their getters return (None is a null reference); a \<open>java.util.List\<close> is the list of its elements and
  does not change during a call. The native side is libFLAC's metadata object API, a parameter: a
  record of functions on the contents of an object. The objects themselves are addresses in the
  environment; \<open>live_blocks\<close> holds those that exist and \<open>block_at\<close> their contents. libFLAC's
  allocator gives an address that is not in use; the model takes the first above those that are.
\<close>

section \<open>Java model objects\<close>

record java_picture =
  jp_type :: jint
  jp_mime_type :: "string option"
  jp_description :: "string option"
  jp_width :: jint
  jp_height :: jint
  jp_depth :: jint
  jp_colors :: jint
  jp_data :: "byte list option"

record java_application =
  ja_id :: "byte list option"
  ja_data :: "byte list option"

record java_padding =
  jpad_length :: jint

record java_unknown =
  ju_type :: jint
  ju_data :: "byte list option"

record java_seek_point =
  js_sample_number :: jlong
  js_stream_offset :: jlong
  js_frame_samples :: jint

record java_seek_table =
  js_points :: "java_seek_point option list option"

record java_cue_index =
  ji_offset :: jlong
  ji_number :: jint

record java_cue_track =
  jt_offset :: jlong
  jt_number :: jint
  jt_isrc :: "string option"
  jt_type :: jint
  jt_pre_emphasis :: bool
  jt_indices :: "java_cue_index option list option"

record java_cue_sheet =
  jc_media_catalog_number :: "string option"
  jc_lead_in :: jlong
  jc_is_cd :: bool
  jc_tracks :: "java_cue_track option list option"

record java_vorbis_comment =
  jvc_vendor :: "string option"
  jvc_entries :: "string option list option"

text \<open>A value of the ordered list, by its class.\<close>

datatype java_block =
    JPadding java_padding
  | JApplication java_application
  | JSeekTable java_seek_table
  | JVorbisComment java_vorbis_comment
  | JCueSheet java_cue_sheet
  | JPicture java_picture
  | JUnknown java_unknown
  | JOtherObject

section \<open>Format constants\<close>

definition JFLAC_APPLICATION_ID_LENGTH :: nat where "JFLAC_APPLICATION_ID_LENGTH = 4"
definition JFLAC_SEEKPOINT_PLACEHOLDER_JAVA_VALUE :: jlong where
  "JFLAC_SEEKPOINT_PLACEHOLDER_JAVA_VALUE = -1"
definition JFLAC_METADATA_MAX_BLOCK_LENGTH :: u32 where
  "JFLAC_METADATA_MAX_BLOCK_LENGTH = 0xFFFFFF"
definition JFLAC_UNKNOWN_METADATA_MIN_TYPE :: int where "JFLAC_UNKNOWN_METADATA_MIN_TYPE = 7"
definition JFLAC_UNKNOWN_METADATA_MAX_TYPE :: int where "JFLAC_UNKNOWN_METADATA_MAX_TYPE = 126"
definition JFLAC_SEEKPOINT_PLACEHOLDER :: u64 where "JFLAC_SEEKPOINT_PLACEHOLDER = - 1"

text \<open>\<open>FLAC__MetadataType\<close>.\<close>

definition METADATA_TYPE_STREAMINFO :: u32 where "METADATA_TYPE_STREAMINFO = 0"
definition METADATA_TYPE_PADDING :: u32 where "METADATA_TYPE_PADDING = 1"
definition METADATA_TYPE_APPLICATION :: u32 where "METADATA_TYPE_APPLICATION = 2"
definition METADATA_TYPE_SEEKTABLE :: u32 where "METADATA_TYPE_SEEKTABLE = 3"
definition METADATA_TYPE_VORBIS_COMMENT :: u32 where "METADATA_TYPE_VORBIS_COMMENT = 4"
definition METADATA_TYPE_CUESHEET :: u32 where "METADATA_TYPE_CUESHEET = 5"
definition METADATA_TYPE_PICTURE :: u32 where "METADATA_TYPE_PICTURE = 6"

lemmas metadata_type_defs = METADATA_TYPE_STREAMINFO_def METADATA_TYPE_PADDING_def
  METADATA_TYPE_APPLICATION_def METADATA_TYPE_SEEKTABLE_def METADATA_TYPE_VORBIS_COMMENT_def
  METADATA_TYPE_CUESHEET_def METADATA_TYPE_PICTURE_def

section \<open>libFLAC's metadata objects\<close>

record metadata_api =
  mo_new :: "u32 \<Rightarrow> flac_block"
  mo_clone :: "flac_block \<Rightarrow> flac_block"
  vorbiscomment_set_vendor_string :: "flac_block \<Rightarrow> string \<Rightarrow> bool \<times> flac_block"
  vorbiscomment_append_comment :: "flac_block \<Rightarrow> string \<Rightarrow> bool \<times> flac_block"
  picture_set_mime_type :: "flac_block \<Rightarrow> string \<Rightarrow> bool \<times> flac_block"
  picture_set_description :: "flac_block \<Rightarrow> string \<Rightarrow> bool \<times> flac_block"
  picture_set_data :: "flac_block \<Rightarrow> byte list \<Rightarrow> bool \<times> flac_block"
  application_set_data :: "flac_block \<Rightarrow> byte list \<Rightarrow> bool \<times> flac_block"
  seektable_resize_points :: "flac_block \<Rightarrow> u32 \<Rightarrow> bool \<times> flac_block"
  seektable_set_point :: "flac_block \<Rightarrow> u32 \<Rightarrow> seek_point \<Rightarrow> flac_block"
  seektable_is_legal :: "flac_block \<Rightarrow> bool"
  cuesheet_resize_tracks :: "flac_block \<Rightarrow> u32 \<Rightarrow> bool \<times> flac_block"
  cuesheet_track_resize_indices :: "flac_block \<Rightarrow> u32 \<Rightarrow> u32 \<Rightarrow> bool \<times> flac_block"
  cuesheet_is_legal :: "flac_block \<Rightarrow> bool \<Rightarrow> bool \<times> string option"

definition fresh_block :: "jenv \<Rightarrow> nat" where
  "fresh_block e = Suc (foldr max (live_blocks e) 0)"

definition alloc_block :: "jvm \<Rightarrow> string \<Rightarrow> flac_block \<Rightarrow> jenv \<Rightarrow> nat option \<times> jenv" where
  "alloc_block J name b e =
     (let (ok, e1) = plain_alloc J (Jni name) e;
          a = fresh_block e1
      in if \<not> ok then (None, e1)
         else (Some a, e1\<lparr>live_blocks := a # live_blocks e1, block_at := (block_at e1)(a := b)\<rparr>))"

definition metadata_object_new :: "jvm \<Rightarrow> metadata_api \<Rightarrow> u32 \<Rightarrow> jenv \<Rightarrow> nat option \<times> jenv" where
  "metadata_object_new J M t e = alloc_block J ''metadata_object_new'' (mo_new M t) e"

definition metadata_object_clone ::
  "jvm \<Rightarrow> metadata_api \<Rightarrow> flac_block \<Rightarrow> jenv \<Rightarrow> nat option \<times> jenv" where
  "metadata_object_clone J M source e = alloc_block J ''metadata_object_clone'' (mo_clone M source) e"

text \<open>A builder's result: its success, what it stored in \<open>*result\<close>, and the environment.\<close>

type_synonym built = "bool \<times> nat option \<times> jenv"

definition discard_block :: "nat \<Rightarrow> jenv \<Rightarrow> built" where
  "discard_block a e = (False, None, metadata_object_delete a e)"

definition publish_block :: "nat \<Rightarrow> flac_block \<Rightarrow> jenv \<Rightarrow> built" where
  "publish_block a b e = (True, Some a, e\<lparr>block_at := (block_at e)(a := b)\<rparr>)"

section \<open>Java getters\<close>

text \<open>
  \<open>call_int_getter\<close>, \<open>call_long_getter\<close>, \<open>call_boolean_getter\<close> and \<open>call_object_getter\<close>: the call and
  its check; the value is the field of the record. \<open>find_instance_method\<close>: the lookup and its check.
\<close>

definition call_getter :: "jvm \<Rightarrow> string \<Rightarrow> jenv \<Rightarrow> bool \<times> jenv" where
  "call_getter J getter e =
     (let e1 = java_call J (Jni getter) e in (\<not> exception_check e1, e1))"

fun call_getters :: "jvm \<Rightarrow> string list \<Rightarrow> jenv \<Rightarrow> bool \<times> jenv" where
  "call_getters J [] e = (True, e)"
| "call_getters J (g # gs) e =
     (let (ok, e1) = call_getter J g e in if ok then call_getters J gs e1 else (False, e1))"

definition find_instance_method :: "jvm \<Rightarrow> string \<Rightarrow> jenv \<Rightarrow> bool \<times> jenv" where
  "find_instance_method J name e =
     (let (ok, e1) = java_try J (GetMethodID name) e in (ok \<and> \<not> exception_check e1, e1))"

fun find_instance_methods :: "jvm \<Rightarrow> string list \<Rightarrow> jenv \<Rightarrow> bool \<times> jenv" where
  "find_instance_methods J [] e = (True, e)"
| "find_instance_methods J (n # ns) e =
     (let (ok, e1) = find_instance_method J n e
      in if ok then find_instance_methods J ns e1 else (False, e1))"

text \<open>The class of an object and a chain of method lookups, up to the first that is NULL.\<close>

definition object_methods :: "jvm \<Rightarrow> jcall list \<Rightarrow> jenv \<Rightarrow> bool \<times> jenv" where
  "object_methods J cs e =
     (let (class_ok, e1) = plain_alloc J (Jni ''GetObjectClass'') e
      in if \<not> class_ok then (False, e1) else java_seq J cs e1)"

section \<open>Text\<close>

text \<open>A byte string as C reads it, up to its first NUL.\<close>

definition c_string :: "string \<Rightarrow> string" where
  "c_string s = takeWhile (\<lambda>c. c \<noteq> CHR 0x00) s"

text \<open>\<open>jstring_to_utf8\<close> followed by the check every builder makes: not NULL and no exception.\<close>

definition utf8_checked :: "jvm \<Rightarrow> string option \<Rightarrow> jenv \<Rightarrow> string option \<times> jenv" where
  "utf8_checked J s e =
     (let (text, e1) = jstring_to_utf8 J s e
      in ((if exception_check e1 then None else map_option c_string text), e1))"

text \<open>\<open>fixed_ascii_length\<close> counts up to the first NUL or the capacity.\<close>

function fixed_ascii_length_from :: "string \<Rightarrow> nat \<Rightarrow> nat \<Rightarrow> nat" where
  "fixed_ascii_length_from value capacity n =
     (if n < capacity \<and> value ! n \<noteq> CHR 0x00
      then fixed_ascii_length_from value capacity (Suc n) else n)"
  by pat_completeness auto

termination
  by (relation "measure (\<lambda>(value, capacity, n). capacity - n)") auto

declare fixed_ascii_length_from.simps [simp del]

definition fixed_ascii_length :: "string \<Rightarrow> nat \<Rightarrow> nat" where
  "fixed_ascii_length value capacity = fixed_ascii_length_from value capacity 0"

text \<open>\<open>copy_fixed_ascii_field\<close>: None if the text does not fit with a terminating NUL.\<close>

definition copy_fixed_ascii_field :: "nat \<Rightarrow> string \<Rightarrow> string option" where
  "copy_fixed_ascii_field destination_size source =
     (if length source \<ge> destination_size then None
      else Some (source @ replicate (destination_size - length source) (CHR 0x00)))"

end
