(* ===== verification/Metadata_Builders.thy ===== *)
theory Metadata_Builders
  imports Flac_Metadata
begin

text \<open>
  The builders of native metadata blocks, one per block type, from the public Java model objects
  (\<open>build_vorbis_comment_block\<close> to \<open>build_cue_sheet_block\<close> of \<open>jflac_jni.c\<close>). A builder allocates
  its block, fills it and stores its address; on every failure it deletes what it allocated. While a
  builder runs nobody else knows its block, so the contents are passed along and stored at the end.
\<close>

section \<open>VORBIS_COMMENT\<close>

text \<open>The loop over the entries; the block is deleted by the caller when it fails.\<close>

definition normalise_entry :: "jvm \<Rightarrow> string \<Rightarrow> jenv \<Rightarrow> string option \<times> jenv" where
  "normalise_entry J entry e =
     (if CHR ''='' \<notin> set entry
      then if int (length entry) > UINT32_MAX - 1 then (None, e)
           else let (ok, e1) = plain_alloc J (Malloc (of_nat (length entry) + 2)) e
                in ((if ok then Some (entry @ ''='') else None), e1)
      else if int (length entry) > UINT32_MAX then (None, e)
      else (Some entry, e))"

fun append_comment_entries ::
  "jvm \<Rightarrow> metadata_api \<Rightarrow> string option list \<Rightarrow> flac_block \<Rightarrow> jenv \<Rightarrow> bool \<times> flac_block \<times> jenv" where
  "append_comment_entries J M [] b e = (True, b, e)"
| "append_comment_entries J M (entry # rest) b e =
     (let (frame_ok, e1) = java_try J (Jni ''PushLocalFrame'') e in
      if \<not> frame_ok then (False, b, e1) else
      let (element_ok, e2) = call_getter J ''GetObjectArrayElement'' e1 in
      if \<not> element_ok then (False, b, e2) else
      let (text, e3) = utf8_checked J entry e2 in
      case text of None \<Rightarrow> (False, b, e3) | Some utf8_entry \<Rightarrow>
      let (normalised, e4) = normalise_entry J utf8_entry e3 in
      case normalised of None \<Rightarrow> (False, b, e4) | Some entry_to_append \<Rightarrow>
      let (append_success, b1) = vorbiscomment_append_comment M b entry_to_append in
      if \<not> append_success then (False, b1, e4)
      else append_comment_entries J M rest b1 e4)"

definition set_vendor ::
  "jvm \<Rightarrow> metadata_api \<Rightarrow> string option \<Rightarrow> flac_block \<Rightarrow> jenv \<Rightarrow> bool \<times> flac_block \<times> jenv" where
  "set_vendor J M vendor b e =
     (if vendor = None then (True, b, e) else
      let (text, e1) = utf8_checked J vendor e in
      case text of None \<Rightarrow> (False, b, e1) | Some v \<Rightarrow>
      let (vendor_success, b1) = vorbiscomment_set_vendor_string M b v
      in (vendor_success, b1, e1))"

definition build_vorbis_comment_block ::
  "jvm \<Rightarrow> metadata_api \<Rightarrow> string option \<Rightarrow> string option list option \<Rightarrow> bool \<Rightarrow> jenv \<Rightarrow> built" where
  "build_vorbis_comment_block J M vendor comment_entries force_create e =
     (let entries = (case comment_entries of None \<Rightarrow> [] | Some es \<Rightarrow> es) in
      if \<not> force_create \<and> vendor = None \<and> entries = [] then (True, None, e) else
      let (block, e1) = metadata_object_new J M METADATA_TYPE_VORBIS_COMMENT e in
      case block of None \<Rightarrow> (False, None, e1) | Some a \<Rightarrow>
      let (vendor_ok, b1, e2) = set_vendor J M vendor (block_at e1 a) e1 in
      if \<not> vendor_ok then discard_block a e2 else
      let (entries_ok, b2, e3) = append_comment_entries J M entries b1 e2 in
      if \<not> entries_ok then discard_block a e3 else publish_block a b2 e3)"

section \<open>PICTURE\<close>

definition set_picture_fields :: "java_picture \<Rightarrow> flac_block \<Rightarrow> flac_block" where
  "set_picture_fields p b =
     (case bl_data b of
        PictureData d \<Rightarrow> b\<lparr>bl_data := PictureData (d\<lparr>pic_type := jp_type p, pic_width := jp_width p,
          pic_height := jp_height p, pic_depth := jp_depth p, pic_colors := jp_colors p\<rparr>)\<rparr>
      | _ \<Rightarrow> b)"

text \<open>A temporary copy of a Java byte array, not made when the array is empty.\<close>

definition copy_byte_array :: "jvm \<Rightarrow> byte list \<Rightarrow> jenv \<Rightarrow> bool \<times> jenv" where
  "copy_byte_array J data e =
     (if length data > 0
      then let (ok, e1) = plain_alloc J (Malloc (of_nat (length data))) e
           in if \<not> ok then (False, e1) else call_getter J ''GetByteArrayRegion'' e1
      else (True, e))"

definition build_picture_block ::
  "jvm \<Rightarrow> metadata_api \<Rightarrow> java_picture option \<Rightarrow> jenv \<Rightarrow> built" where
  "build_picture_block J M picture_object e =
     (case picture_object of None \<Rightarrow> (True, None, e) | Some p \<Rightarrow>
      let (methods_ok, e1) = object_methods J (map GetMethodID [''getType'', ''getMimeType'',
            ''getDescription'', ''getWidth'', ''getHeight'', ''getDepth'', ''getColors'',
            ''getData'']) e in
      if \<not> methods_ok then (False, None, e1) else
      let (values_ok, e2) = call_getters J [''getType'', ''getWidth'', ''getHeight'', ''getDepth'',
            ''getColors'', ''getMimeType'', ''getDescription'', ''getData''] e1 in
      if \<not> values_ok then (False, None, e2) else
      if jp_mime_type p = None \<or> jp_description p = None \<or> jp_data p = None
      then (False, None, throw_illegal_argument_exception
              ''PICTURE MIME type, description, and data must not be null.'' e2) else
      let (block, e3) = metadata_object_new J M METADATA_TYPE_PICTURE e2 in
      case block of None \<Rightarrow> (False, None, e3) | Some a \<Rightarrow>
      let (mime_type, e4) = utf8_checked J (jp_mime_type p) e3 in
      if mime_type = None then discard_block a e4 else
      let (description, e5) = utf8_checked J (jp_description p) e4 in
      if description = None then discard_block a e5 else
      let data = the (jp_data p);
          (data_ok, e6) = copy_byte_array J data e5 in
      if \<not> data_ok then discard_block a e6 else
      let b0 = set_picture_fields p (block_at e6 a);
          (mime_ok, b1) = picture_set_mime_type M b0 (the mime_type) in
      if \<not> mime_ok then discard_block a e6 else
      let (description_ok, b2) = picture_set_description M b1 (the description) in
      if \<not> description_ok then discard_block a e6 else
      let (set_ok, b3) = picture_set_data M b2 data in
      if \<not> set_ok then discard_block a e6 else publish_block a b3 e6)"

section \<open>APPLICATION\<close>

definition set_application_id :: "byte list \<Rightarrow> flac_block \<Rightarrow> flac_block" where
  "set_application_id app_id b =
     (case bl_data b of
        ApplicationData old data \<Rightarrow> b\<lparr>bl_data := ApplicationData app_id data\<rparr>
      | _ \<Rightarrow> b)"

definition build_application_block ::
  "jvm \<Rightarrow> metadata_api \<Rightarrow> java_application option \<Rightarrow> jenv \<Rightarrow> built" where
  "build_application_block J M application_object e =
     (case application_object of
        None \<Rightarrow> (False, None, throw_illegal_argument_exception
                  ''APPLICATION metadata block must not be null.'' e)
      | Some p \<Rightarrow>
      let (methods_ok, e1) = object_methods J (map GetMethodID [''getId'', ''getData'']) e in
      if \<not> methods_ok then (False, None, e1) else
      let (values_ok, e2) = call_getters J [''getId'', ''getData''] e1 in
      if \<not> values_ok then (False, None, e2) else
      if ja_id p = None \<or> ja_data p = None
      then (False, None, throw_illegal_argument_exception
              ''APPLICATION metadata ID and data must not be null.'' e2) else
      if length (the (ja_id p)) \<noteq> JFLAC_APPLICATION_ID_LENGTH
      then (False, None, throw_illegal_argument_exception
              ''APPLICATION metadata ID must be exactly four bytes.'' e2) else
      let (block, e3) = metadata_object_new J M METADATA_TYPE_APPLICATION e2 in
      case block of None \<Rightarrow> (False, None, e3) | Some a \<Rightarrow>
      let (id_ok, e4) = call_getter J ''GetByteArrayRegion'' e3 in
      if \<not> id_ok then discard_block a e4 else
      let b0 = set_application_id (the (ja_id p)) (block_at e4 a);
          data = the (ja_data p);
          (data_ok, e5) = copy_byte_array J data e4 in
      if \<not> data_ok then discard_block a e5 else
      let (success, b1) = application_set_data M b0 data in
      if \<not> success then discard_block a e5 else publish_block a b1 e5)"

section \<open>PADDING and blocks of unknown type\<close>

definition build_padding_block ::
  "jvm \<Rightarrow> metadata_api \<Rightarrow> java_padding option \<Rightarrow> jenv \<Rightarrow> built" where
  "build_padding_block J M padding_object e =
     (case padding_object of
        None \<Rightarrow> (False, None, throw_illegal_argument_exception
                  ''PADDING metadata block must not be null.'' e)
      | Some p \<Rightarrow>
      let (methods_ok, e1) = object_methods J [GetMethodID ''getLength''] e in
      if \<not> methods_ok then (False, None, e1) else
      let (value_ok, e2) = call_getter J ''getLength'' e1 in
      if \<not> value_ok then (False, None, e2) else
      if sint (jpad_length p) < 0 \<or> jpad_length p > JFLAC_METADATA_MAX_BLOCK_LENGTH
      then (False, None, throw_illegal_argument_exception
              ''PADDING metadata length must fit the FLAC 24-bit metadata length field.'' e2) else
      let (block, e3) = metadata_object_new J M METADATA_TYPE_PADDING e2 in
      case block of None \<Rightarrow> (False, None, e3) | Some a \<Rightarrow>
      publish_block a (block_at e3 a\<lparr>bl_length := jpad_length p\<rparr>) e3)"

definition build_unknown_metadata_block ::
  "jvm \<Rightarrow> metadata_api \<Rightarrow> java_unknown option \<Rightarrow> jenv \<Rightarrow> built" where
  "build_unknown_metadata_block J M unknown_object e =
     (case unknown_object of
        None \<Rightarrow> (False, None, throw_illegal_argument_exception
                  ''Unknown metadata block must not be null.'' e)
      | Some p \<Rightarrow>
      let (methods_ok, e1) = object_methods J (map GetMethodID [''getType'', ''getData'']) e in
      if \<not> methods_ok then (False, None, e1) else
      let (values_ok, e2) = call_getters J [''getType'', ''getData''] e1 in
      if \<not> values_ok then (False, None, e2) else
      case ju_data p of
        None \<Rightarrow> (False, None, throw_illegal_argument_exception
                  ''Unknown metadata data must not be null.'' e2)
      | Some data \<Rightarrow>
      if sint (ju_type p) < JFLAC_UNKNOWN_METADATA_MIN_TYPE \<or>
         sint (ju_type p) > JFLAC_UNKNOWN_METADATA_MAX_TYPE
      then (False, None, throw_illegal_argument_exception
              ''Unknown metadata type must be in the FLAC reserved range 7..126.'' e2) else
      if int (length data) > uint JFLAC_METADATA_MAX_BLOCK_LENGTH
      then (False, None, throw_illegal_argument_exception
        ''Unknown metadata payload length must fit the FLAC 24-bit metadata length field.'' e2) else
      let (borrowed, e3) = (if length data > 0
            then plain_alloc J (Jni ''GetByteArrayElements'') e2 else (True, e2)) in
      if \<not> borrowed then (False, None, e3) else
      let source = \<lparr>bl_type = ju_type p, bl_length = of_nat (length data),
                    bl_data = UnknownData data\<rparr>;
          (block, e4) = metadata_object_clone J M source e3
      in (block \<noteq> None, block, e4))"

section \<open>SEEKTABLE\<close>

definition native_seek_point :: "java_seek_point \<Rightarrow> seek_point" where
  "native_seek_point p =
     \<lparr>sp_sample_number = (if js_sample_number p = JFLAC_SEEKPOINT_PLACEHOLDER_JAVA_VALUE
        then JFLAC_SEEKPOINT_PLACEHOLDER else js_sample_number p),
      sp_stream_offset = js_stream_offset p, sp_frame_samples = js_frame_samples p\<rparr>"

fun set_seek_points ::
  "jvm \<Rightarrow> metadata_api \<Rightarrow> u32 \<Rightarrow> java_seek_point option list \<Rightarrow> flac_block \<Rightarrow> jenv \<Rightarrow>
   bool \<times> flac_block \<times> jenv" where
  "set_seek_points J M i [] b e = (True, b, e)"
| "set_seek_points J M i (point # rest) b e =
     (let (element_ok, e1) = call_getter J ''List.get'' e in
      if \<not> element_ok then (False, b, e1) else
      case point of
        None \<Rightarrow> (False, b, throw_illegal_argument_exception ''SEEKTABLE point must not be null.'' e1)
      | Some p \<Rightarrow>
      let (values_ok, e2) = call_getters J [''getSampleNumber'', ''getStreamOffset'',
            ''getFrameSamples''] e1 in
      if \<not> values_ok then (False, b, e2)
      else set_seek_points J M (i + 1) rest (seektable_set_point M b i (native_seek_point p)) e2)"

definition build_seek_table_block ::
  "jvm \<Rightarrow> metadata_api \<Rightarrow> java_seek_table option \<Rightarrow> jenv \<Rightarrow> built" where
  "build_seek_table_block J M seek_table_object e =
     (case seek_table_object of
        None \<Rightarrow> (False, None, throw_illegal_argument_exception
                  ''SEEKTABLE metadata block must not be null.'' e)
      | Some p \<Rightarrow>
      let (methods_ok, e1) = object_methods J [GetMethodID ''getPoints'', Jni ''FindClass List'',
            GetMethodID ''size'', GetMethodID ''get'', Jni ''FindClass FlacSeekPoint'',
            GetMethodID ''getSampleNumber'', GetMethodID ''getStreamOffset'',
            GetMethodID ''getFrameSamples''] e in
      if \<not> methods_ok then (False, None, e1) else
      let (points_ok, e2) = call_getter J ''getPoints'' e1 in
      if \<not> points_ok then (False, None, e2) else
      case js_points p of
        None \<Rightarrow> (False, None, throw_illegal_argument_exception
                  ''SEEKTABLE point list must not be null.'' e2)
      | Some points \<Rightarrow>
      let (size_ok, e3) = call_getter J ''List.size'' e2 in
      if \<not> size_ok then (False, None, e3) else
      let (block, e4) = metadata_object_new J M METADATA_TYPE_SEEKTABLE e3 in
      case block of None \<Rightarrow> (False, None, e4) | Some a \<Rightarrow>
      let (resized, b1) = seektable_resize_points M (block_at e4 a) (of_nat (length points)) in
      if \<not> resized then discard_block a e4 else
      let (filled, b2, e5) = set_seek_points J M 0 points b1 e4 in
      if \<not> filled then discard_block a e5 else
      if \<not> seektable_is_legal M b2
      then discard_block a (throw_encode_exception ''SEEKTABLE metadata block is not legal.'' e5)
      else publish_block a b2 e5)"

section \<open>CUESHEET\<close>

definition update_track :: "u32 \<Rightarrow> (cue_track \<Rightarrow> cue_track) \<Rightarrow> flac_block \<Rightarrow> flac_block" where
  "update_track i f b =
     (case bl_data b of
        CueSheetData c \<Rightarrow> b\<lparr>bl_data := CueSheetData (c\<lparr>cue_tracks :=
          (cue_tracks c)[unat i := f (cue_tracks c ! unat i)]\<rparr>)\<rparr>
      | _ \<Rightarrow> b)"

definition native_cue_index :: "java_cue_index \<Rightarrow> cue_index" where
  "native_cue_index p = \<lparr>ix_offset = ji_offset p, ix_number = ucast (ji_number p)\<rparr>"

fun set_cue_indices ::
  "jvm \<Rightarrow> u32 \<Rightarrow> nat \<Rightarrow> java_cue_index option list \<Rightarrow> flac_block \<Rightarrow> jenv \<Rightarrow>
   bool \<times> flac_block \<times> jenv" where
  "set_cue_indices J track i [] b e = (True, b, e)"
| "set_cue_indices J track i (index # rest) b e =
     (let (element_ok, e1) = call_getter J ''List.get'' e in
      if \<not> element_ok then (False, b, e1) else
      case index of
        None \<Rightarrow> (False, b, throw_illegal_argument_exception ''CUESHEET index must not be null.'' e1)
      | Some p \<Rightarrow>
      let (values_ok, e2) = call_getters J [''getOffset'', ''getNumber''] e1 in
      if \<not> values_ok then (False, b, e2)
      else set_cue_indices J track (Suc i) rest
             (update_track track (\<lambda>t. t\<lparr>tr_indices := (tr_indices t)[i := native_cue_index p]\<rparr>) b) e2)"

definition CUE_ISRC_SIZE :: nat where "CUE_ISRC_SIZE = 13"
definition CUE_MEDIA_CATALOG_NUMBER_SIZE :: nat where "CUE_MEDIA_CATALOG_NUMBER_SIZE = 129"

definition fill_cue_sheet_track ::
  "jvm \<Rightarrow> metadata_api \<Rightarrow> flac_block \<Rightarrow> u32 \<Rightarrow> java_cue_track option \<Rightarrow> jenv \<Rightarrow>
   bool \<times> flac_block \<times> jenv" where
  "fill_cue_sheet_track J M b track_index track_object e =
     (case track_object of
        None \<Rightarrow> (False, b, throw_illegal_argument_exception ''CUESHEET track must not be null.'' e)
      | Some p \<Rightarrow>
      let (methods_ok, e1) = object_methods J (map GetMethodID [''getOffset'', ''getNumber'',
            ''getIsrc'', ''getType'', ''getPreEmphasis'', ''getIndices'']) e in
      if \<not> methods_ok then (False, b, e1) else
      let (values_ok, e2) = call_getters J [''getOffset'', ''getNumber'', ''getIsrc'', ''getType'',
            ''getPreEmphasis'', ''getIndices''] e1 in
      if \<not> values_ok then (False, b, e2) else
      if jt_isrc p = None \<or> jt_indices p = None
      then (False, b, throw_illegal_argument_exception
              ''CUESHEET track ISRC and indices must not be null.'' e2) else
      let (isrc, e3) = utf8_checked J (jt_isrc p) e2 in
      if isrc = None then (False, b, e3) else
      let (lookups_ok, e4) = java_seq J [Jni ''FindClass List'', Jni ''FindClass FlacCueSheetIndex'',
            GetMethodID ''size'', GetMethodID ''get'', GetMethodID ''getOffset'',
            GetMethodID ''getNumber''] e3 in
      if \<not> lookups_ok then (False, b, e4) else
      let (size_ok, e5) = call_getter J ''List.size'' e4;
          indices = the (jt_indices p) in
      if \<not> size_ok then (False, b, e5) else
      let (resized, b1) =
            cuesheet_track_resize_indices M b track_index (of_nat (length indices)) in
      if \<not> resized then (False, b1, e5) else
      let b2 = update_track track_index (\<lambda>t. t\<lparr>tr_offset := jt_offset p,
                 tr_number := ucast (jt_number p), tr_type := and (jt_type p) 1,
                 tr_pre_emphasis := (if jt_pre_emphasis p then 1 else 0)\<rparr>) b1 in
      (case copy_fixed_ascii_field CUE_ISRC_SIZE (the isrc) of
         None \<Rightarrow> (False, b2, throw_illegal_argument_exception
                   ''CUESHEET track ISRC is too long.'' e5)
       | Some field \<Rightarrow> set_cue_indices J track_index 0 indices
                          (update_track track_index (\<lambda>t. t\<lparr>tr_isrc := field\<rparr>) b2) e5))"

fun fill_cue_sheet_tracks ::
  "jvm \<Rightarrow> metadata_api \<Rightarrow> u32 \<Rightarrow> java_cue_track option list \<Rightarrow> flac_block \<Rightarrow> jenv \<Rightarrow>
   bool \<times> flac_block \<times> jenv" where
  "fill_cue_sheet_tracks J M i [] b e = (True, b, e)"
| "fill_cue_sheet_tracks J M i (track # rest) b e =
     (let (frame_ok, e1) = java_try J (Jni ''PushLocalFrame'') e in
      if \<not> frame_ok then (False, b, e1) else
      let (element_ok, e2) = call_getter J ''List.get'' e1 in
      if \<not> element_ok then (False, b, e2) else
      let (track_success, b1, e3) = fill_cue_sheet_track J M b i track e2 in
      if \<not> track_success \<or> exception_check e3 then (False, b1, e3)
      else fill_cue_sheet_tracks J M (i + 1) rest b1 e3)"

definition set_cue_sheet_fields :: "java_cue_sheet \<Rightarrow> flac_block \<Rightarrow> flac_block" where
  "set_cue_sheet_fields p b =
     (case bl_data b of
        CueSheetData c \<Rightarrow> b\<lparr>bl_data := CueSheetData (c\<lparr>cue_lead_in := jc_lead_in p,
          cue_is_cd := jc_is_cd p\<rparr>)\<rparr>
      | _ \<Rightarrow> b)"

definition set_media_catalog_number :: "string \<Rightarrow> flac_block \<Rightarrow> flac_block" where
  "set_media_catalog_number field b =
     (case bl_data b of
        CueSheetData c \<Rightarrow> b\<lparr>bl_data := CueSheetData (c\<lparr>cue_media_catalog_number := field\<rparr>)\<rparr>
      | _ \<Rightarrow> b)"

definition build_cue_sheet_block ::
  "jvm \<Rightarrow> metadata_api \<Rightarrow> java_cue_sheet option \<Rightarrow> jenv \<Rightarrow> built" where
  "build_cue_sheet_block J M cue_sheet_object e =
     (case cue_sheet_object of
        None \<Rightarrow> (False, None, throw_illegal_argument_exception
                  ''CUESHEET metadata block must not be null.'' e)
      | Some p \<Rightarrow>
      let (methods_ok, e1) = object_methods J (map GetMethodID [''getMediaCatalogNumber'',
            ''getLeadIn'', ''isCd'', ''getTracks'']) e in
      if \<not> methods_ok then (False, None, e1) else
      let (values_ok, e2) = call_getters J [''getMediaCatalogNumber'', ''getLeadIn'', ''isCd'',
            ''getTracks''] e1 in
      if \<not> values_ok then (False, None, e2) else
      if jc_media_catalog_number p = None \<or> jc_tracks p = None
      then (False, None, throw_illegal_argument_exception
              ''CUESHEET media catalog number and tracks must not be null.'' e2) else
      let (catalog, e3) = utf8_checked J (jc_media_catalog_number p) e2 in
      if catalog = None then (False, None, e3) else
      let (lookups_ok, e4) = java_seq J [Jni ''FindClass List'', GetMethodID ''size'',
            GetMethodID ''get''] e3 in
      if \<not> lookups_ok then (False, None, e4) else
      let (size_ok, e5) = call_getter J ''List.size'' e4;
          tracks = the (jc_tracks p) in
      if \<not> size_ok then (False, None, e5) else
      let (block, e6) = metadata_object_new J M METADATA_TYPE_CUESHEET e5 in
      case block of None \<Rightarrow> (False, None, e6) | Some a \<Rightarrow>
      let b1 = set_cue_sheet_fields p (block_at e6 a) in
      case copy_fixed_ascii_field CUE_MEDIA_CATALOG_NUMBER_SIZE (the catalog) of
        None \<Rightarrow> (False, None, throw_illegal_argument_exception
                  ''CUESHEET media catalog number is too long.'' (metadata_object_delete a e6))
      | Some field \<Rightarrow>
      let (resized, b2) = cuesheet_resize_tracks M (set_media_catalog_number field b1)
            (of_nat (length tracks)) in
      if \<not> resized then discard_block a e6 else
      let (filled, b3, e7) = fill_cue_sheet_tracks J M 0 tracks b2 e6 in
      if \<not> filled then discard_block a e7 else
      let (legal, violation) = cuesheet_is_legal M b3 (jc_is_cd p) in
      if \<not> legal
      then discard_block a (throw_encode_exception (snprintf_buffer
             (''CUESHEET metadata block is not legal: '' @
              (case violation of Some v \<Rightarrow> v | None \<Rightarrow> ''unknown violation'') @ ''.'')) e7)
      else publish_block a b3 e7)"

end
