(* ===== verification/Metadata_Blocks.thy ===== *)
theory Metadata_Blocks
  imports Metadata_Builders
begin

text \<open>
  The metadata table of an encoder context (\<open>build_metadata_array_blocks\<close>,
  \<open>build_metadata_blocks\<close>, \<open>build_ordered_metadata_block\<close> and \<open>build_ordered_metadata_blocks\<close> of
  \<open>jflac_jni.c\<close>), built either from the grouped arrays of a request or from its ordered list. The
  span of the table is published before the first block is built, so that every failure is cleaned
  up by the one destructor, which skips NULL slots.
\<close>

section \<open>The request\<close>

text \<open>
  The metadata part of \<open>NativeEncodingRequest\<close> and \<open>NativeMetadataEditRequest\<close>: arrays, or null.
\<close>

record metadata_request =
  mr_comment_entries :: "string option list option"
  mr_pictures :: "java_picture option list option"
  mr_application_blocks :: "java_application option list option"
  mr_seek_tables :: "java_seek_table option list option"
  mr_cue_sheets :: "java_cue_sheet option list option"
  mr_padding_blocks :: "java_padding option list option"
  mr_unknown_blocks :: "java_unknown option list option"
  mr_block_types :: "jint list option"
  mr_block_values :: "java_block option list option"

definition array_elements :: "'a list option \<Rightarrow> 'a list" where
  "array_elements a = (case a of None \<Rightarrow> [] | Some xs \<Rightarrow> xs)"

section \<open>Checks\<close>

definition ensure_metadata_block_length_fits :: "nat option \<Rightarrow> jenv \<Rightarrow> bool \<times> jenv" where
  "ensure_metadata_block_length_fits block e =
     (case block of
        None \<Rightarrow> (True, e)
      | Some a \<Rightarrow>
          if bl_length (block_at e a) > JFLAC_METADATA_MAX_BLOCK_LENGTH
          then (False, throw_illegal_argument_exception
                  ''FLAC metadata length must fit the 24-bit metadata length field.'' e)
          else (True, e))"

definition ensure_instance_of :: "jvm \<Rightarrow> bool \<Rightarrow> string \<Rightarrow> jenv \<Rightarrow> bool \<times> jenv" where
  "ensure_instance_of J matches message e =
     (let (class_ok, e1) = java_try J (Jni ''FindClass'') e in
      if \<not> class_ok then (False, e1) else
      let (checked, e2) = call_getter J ''IsInstanceOf'' e1 in
      if \<not> checked then (False, e2) else
      if \<not> matches then (False, throw_illegal_argument_exception message e2) else (True, e2))"

section \<open>Grouped arrays\<close>

definition set_slot :: "u32 \<Rightarrow> nat option \<Rightarrow> 'e encode_context \<Rightarrow> 'e encode_context" where
  "set_slot i block x =
     x\<lparr>ec_metadata_blocks := map_option (\<lambda>slots. slots[unat i := block]) (ec_metadata_blocks x)\<rparr>"

fun build_metadata_array_blocks ::
  "jvm \<Rightarrow> ('v option \<Rightarrow> jenv \<Rightarrow> built) \<Rightarrow> 'v option list \<Rightarrow> 'e encode_context \<Rightarrow> u32 \<Rightarrow> jenv \<Rightarrow>
   bool \<times> 'e encode_context \<times> u32 \<times> jenv" where
  "build_metadata_array_blocks J builder [] x next_index e = (True, x, next_index, e)"
| "build_metadata_array_blocks J builder (value # rest) x next_index e =
     (let (frame_ok, e1) = java_try J (Jni ''PushLocalFrame'') e in
      if \<not> frame_ok then (False, x, next_index, e1) else
      let (element_ok, e2) = call_getter J ''GetObjectArrayElement'' e1 in
      if \<not> element_ok then (False, x, next_index, e2) else
      let (built, block, e3) = builder value e2;
          x1 = set_slot next_index block x;
          builder_threw = exception_check e3;
          (success, e4) = (if built \<and> \<not> builder_threw
                           then ensure_metadata_block_length_fits block e3 else (built, e3)) in
      if \<not> success \<or> builder_threw \<or> exception_check e4 then (False, x1, next_index, e4)
      else build_metadata_array_blocks J builder rest x1 (next_index + 1) e4)"

text \<open>The destruction of what was built, and the failure.\<close>

definition drop_metadata ::
  "'e encode_context \<Rightarrow> jenv \<Rightarrow> bool \<times> 'e encode_context \<times> jenv" where
  "drop_metadata x e = (let (x1, e1) = destroy_metadata_blocks x e in (False, x1, e1))"

definition start_metadata_table ::
  "jvm \<Rightarrow> nat \<Rightarrow> 'e encode_context \<Rightarrow> jenv \<Rightarrow> bool \<times> 'e encode_context \<times> jenv" where
  "start_metadata_table J total_blocks x e =
     (let (table_ok, e1) = plain_alloc J (Malloc (8 * of_nat total_blocks)) e in
      if \<not> table_ok then (False, x\<lparr>ec_metadata_blocks := None, ec_metadata_count := 0\<rparr>, e1)
      else (True, x\<lparr>ec_metadata_blocks := Some (replicate total_blocks None),
                   ec_metadata_count := of_nat total_blocks\<rparr>, e1))"

definition total_metadata_blocks :: "'r metadata_request_scheme \<Rightarrow> nat" where
  "total_metadata_blocks r =
     (if array_elements (mr_comment_entries r) \<noteq> [] then 1 else 0) +
     length (array_elements (mr_pictures r)) + length (array_elements (mr_application_blocks r)) +
     length (array_elements (mr_seek_tables r)) + length (array_elements (mr_cue_sheets r)) +
     length (array_elements (mr_padding_blocks r)) + length (array_elements (mr_unknown_blocks r))"

text \<open>The block made of all comments.\<close>

definition build_comment_slot ::
  "jvm \<Rightarrow> metadata_api \<Rightarrow> string option list option \<Rightarrow> 'e encode_context \<Rightarrow> jenv \<Rightarrow>
   bool \<times> 'e encode_context \<times> u32 \<times> jenv" where
  "build_comment_slot J M comment_entries x e =
     (if array_elements comment_entries = [] then (True, x, 0, e) else
      let (built, block, e1) = build_vorbis_comment_block J M None comment_entries False e;
          x1 = set_slot 0 block x in
      if \<not> built then (False, x1, 0, e1) else
      let (fits, e2) = ensure_metadata_block_length_fits block e1 in
      if \<not> fits then (False, x1, 0, e2) else (True, x1, 1, e2))"

definition build_metadata_blocks ::
  "jvm \<Rightarrow> metadata_api \<Rightarrow> 'r metadata_request_scheme \<Rightarrow> 'e encode_context \<Rightarrow> jenv \<Rightarrow>
   bool \<times> 'e encode_context \<times> jenv" where
  "build_metadata_blocks J M r x e =
     (let total_blocks = total_metadata_blocks r in
      if int total_blocks > UINT32_MAX
      then (False, x,
        throw_encode_exception ''Too many FLAC metadata blocks were requested.'' e) else
      if total_blocks = 0 then (True, x\<lparr>ec_metadata_blocks := None, ec_metadata_count := 0\<rparr>, e) else
      let (table_ok, x0, e0) = start_metadata_table J total_blocks x e in
      if \<not> table_ok then (False, x0, e0) else
      let (ok1, x1, i1, e1) = build_comment_slot J M (mr_comment_entries r) x0 e0 in
      if \<not> ok1 then drop_metadata x1 e1 else
      let (ok2, x2, i2, e2) = build_metadata_array_blocks J (build_picture_block J M)
            (array_elements (mr_pictures r)) x1 i1 e1 in
      if \<not> ok2 then drop_metadata x2 e2 else
      let (ok3, x3, i3, e3) = build_metadata_array_blocks J (build_application_block J M)
            (array_elements (mr_application_blocks r)) x2 i2 e2 in
      if \<not> ok3 then drop_metadata x3 e3 else
      let (ok4, x4, i4, e4) = build_metadata_array_blocks J (build_seek_table_block J M)
            (array_elements (mr_seek_tables r)) x3 i3 e3 in
      if \<not> ok4 then drop_metadata x4 e4 else
      let (ok5, x5, i5, e5) = build_metadata_array_blocks J (build_cue_sheet_block J M)
            (array_elements (mr_cue_sheets r)) x4 i4 e4 in
      if \<not> ok5 then drop_metadata x5 e5 else
      let (ok6, x6, i6, e6) = build_metadata_array_blocks J (build_padding_block J M)
            (array_elements (mr_padding_blocks r)) x5 i5 e5 in
      if \<not> ok6 then drop_metadata x6 e6 else
      let (ok7, x7, i7, e7) = build_metadata_array_blocks J (build_unknown_metadata_block J M)
            (array_elements (mr_unknown_blocks r)) x6 i6 e6 in
      if \<not> ok7 then drop_metadata x7 e7 else (True, x7, e7))"

section \<open>The ordered list\<close>

definition build_vorbis_comment_transport_block ::
  "jvm \<Rightarrow> metadata_api \<Rightarrow> java_block \<Rightarrow> jenv \<Rightarrow> built" where
  "build_vorbis_comment_transport_block J M value e =
     (let (instance_ok, e1) = ensure_instance_of J
            (case value of JVorbisComment p \<Rightarrow> True | _ \<Rightarrow> False)
            ''VORBIS_COMMENT ordered metadata value must be NativeVorbisCommentBlock.'' e in
      if \<not> instance_ok then (False, None, e1) else
      case value of
        JVorbisComment p \<Rightarrow>
          let (methods_ok, e2) = object_methods J (map GetMethodID [''getVendor'', ''getEntries'']) e1 in
          if \<not> methods_ok then (False, None, e2) else
          let (values_ok, e3) = call_getters J [''getVendor'', ''getEntries''] e2 in
          if \<not> values_ok then (False, None, e3) else
          if jvc_entries p = None
          then (False, None, throw_illegal_argument_exception
                  ''VORBIS_COMMENT entries must not be null.'' e3)
          else build_vorbis_comment_block J M (jvc_vendor p) (jvc_entries p) True e3
      | _ \<Rightarrow> (False, None, e1))"

text \<open>The \<open>ensure_instance_of(...) && build_...(...)\<close> of each case of the switch.\<close>

definition build_typed ::
  "jvm \<Rightarrow> 'v option \<Rightarrow> string \<Rightarrow> ('v option \<Rightarrow> jenv \<Rightarrow> built) \<Rightarrow> jenv \<Rightarrow> built" where
  "build_typed J value message builder e =
     (let (instance_ok, e1) = ensure_instance_of J (value \<noteq> None) message e
      in if \<not> instance_ok then (False, None, e1) else builder value e1)"

definition dispatch_ordered_block ::
  "jvm \<Rightarrow> metadata_api \<Rightarrow> jint \<Rightarrow> java_block \<Rightarrow> jenv \<Rightarrow> built" where
  "dispatch_ordered_block J M block_type value e =
     (if block_type = METADATA_TYPE_STREAMINFO
      then (False, None, throw_illegal_argument_exception
              ''STREAMINFO metadata blocks cannot be supplied to the encoder.'' e)
      else if block_type = METADATA_TYPE_PADDING
      then build_typed J (case value of JPadding p \<Rightarrow> Some p | _ \<Rightarrow> None)
             ''PADDING ordered metadata value must be FlacPaddingBlock.'' (build_padding_block J M) e
      else if block_type = METADATA_TYPE_APPLICATION
      then build_typed J (case value of JApplication p \<Rightarrow> Some p | _ \<Rightarrow> None)
             ''APPLICATION ordered metadata value must be FlacApplicationBlock.''
             (build_application_block J M) e
      else if block_type = METADATA_TYPE_SEEKTABLE
      then build_typed J (case value of JSeekTable p \<Rightarrow> Some p | _ \<Rightarrow> None)
             ''SEEKTABLE ordered metadata value must be FlacSeekTable.'' (build_seek_table_block J M) e
      else if block_type = METADATA_TYPE_VORBIS_COMMENT
      then build_vorbis_comment_transport_block J M value e
      else if block_type = METADATA_TYPE_CUESHEET
      then build_typed J (case value of JCueSheet p \<Rightarrow> Some p | _ \<Rightarrow> None)
             ''CUESHEET ordered metadata value must be FlacCueSheet.'' (build_cue_sheet_block J M) e
      else if block_type = METADATA_TYPE_PICTURE
      then build_typed J (case value of JPicture p \<Rightarrow> Some p | _ \<Rightarrow> None)
             ''PICTURE ordered metadata value must be FlacPicture.'' (build_picture_block J M) e
      else build_typed J (case value of JUnknown p \<Rightarrow> Some p | _ \<Rightarrow> None)
             ''Unknown ordered metadata value must be FlacUnknownMetadataBlock.''
             (build_unknown_metadata_block J M) e)"

definition build_ordered_metadata_block ::
  "jvm \<Rightarrow> metadata_api \<Rightarrow> jint \<Rightarrow> java_block option \<Rightarrow> jenv \<Rightarrow> built" where
  "build_ordered_metadata_block J M block_type block_value e =
     (case block_value of
        None \<Rightarrow> (False, None, throw_illegal_argument_exception
                  ''Ordered metadata block value must not be null.'' e)
      | Some value \<Rightarrow>
      let (success, block, e1) = dispatch_ordered_block J M block_type value e in
      if \<not> success then (False, block, e1) else
      let (fits, e2) = ensure_metadata_block_length_fits block e1 in
      if \<not> fits
      then (False, None, (case block of None \<Rightarrow> e2 | Some a \<Rightarrow> metadata_object_delete a e2))
      else (True, block, e2))"

fun build_ordered_loop ::
  "jvm \<Rightarrow> metadata_api \<Rightarrow> (jint \<times> java_block option) list \<Rightarrow> 'e encode_context \<Rightarrow> u32 \<Rightarrow> jenv \<Rightarrow>
   bool \<times> 'e encode_context \<times> jenv" where
  "build_ordered_loop J M [] x i e = (True, x, e)"
| "build_ordered_loop J M ((block_type, block_value) # rest) x i e =
     (let (frame_ok, e1) = java_try J (Jni ''PushLocalFrame'') e in
      if \<not> frame_ok then drop_metadata x e1 else
      let (type_ok, e2) = call_getter J ''GetIntArrayRegion'' e1 in
      if \<not> type_ok then drop_metadata x e2 else
      let (value_ok, e3) = call_getter J ''GetObjectArrayElement'' e2 in
      if \<not> value_ok then drop_metadata x e3 else
      let (success, block, e4) = build_ordered_metadata_block J M block_type block_value e3;
          x1 = set_slot i block x in
      if \<not> success \<or> exception_check e4 then drop_metadata x1 e4
      else build_ordered_loop J M rest x1 (i + 1) e4)"

definition build_ordered_metadata_blocks ::
  "jvm \<Rightarrow> metadata_api \<Rightarrow> 'r metadata_request_scheme \<Rightarrow> 'e encode_context \<Rightarrow> jenv \<Rightarrow>
   bool \<times> 'e encode_context \<times> jenv" where
  "build_ordered_metadata_blocks J M r x e =
     (let types = array_elements (mr_block_types r);
          values = array_elements (mr_block_values r) in
      if length types \<noteq> length values
      then (False, x, throw_illegal_argument_exception
              ''Ordered metadata type and value counts must match.'' e) else
      if types = [] then (True, x\<lparr>ec_metadata_blocks := None, ec_metadata_count := 0\<rparr>, e) else
      let (table_ok, x0, e0) = start_metadata_table J (length types) x e in
      if \<not> table_ok then (False, x0, e0)
      else build_ordered_loop J M (zip types values) x0 0 e0)"

text \<open>The choice between the two, as the encoder and the editor make it.\<close>

definition build_request_metadata ::
  "jvm \<Rightarrow> metadata_api \<Rightarrow> 'r metadata_request_scheme \<Rightarrow> 'e encode_context \<Rightarrow> jenv \<Rightarrow>
   bool \<times> 'e encode_context \<times> jenv" where
  "build_request_metadata J M r x e =
     (if array_elements (mr_block_types r) \<noteq> [] then build_ordered_metadata_blocks J M r x e
      else build_metadata_blocks J M r x e)"

end
