(* ===== verification/Metadata_Contract.thy ===== *)
theory Metadata_Contract
  imports Metadata_Blocks
begin

text \<open>
  The contract every builder of a metadata block keeps, as a predicate on its result and as the
  locale \<open>block_builder\<close>: what it allocated is either given to the caller in the result or deleted,
  and no other metadata object, reference, decoder or encoder is touched. A second part follows the
  type of the block through the calls into libFLAC, which are assumed to keep it.
\<close>

section \<open>Quiet steps\<close>

text \<open>Steps that only call Java: no resource and no metadata object changes.\<close>

definition harmless :: "jenv \<Rightarrow> jenv \<Rightarrow> bool" where
  "harmless e e' \<longleftrightarrow> same_resources e e' \<and> block_at e' = block_at e"

lemma harmless_refl [simp, intro]: "harmless e e"
  by (simp add: harmless_def)

lemma harmless_trans: "harmless e1 e2 \<Longrightarrow> harmless e2 e3 \<Longrightarrow> harmless e1 e3"
  by (auto simp: harmless_def intro: same_resources_trans)

lemma harmless_raise [simp]: "harmless e (raise x e1) \<longleftrightarrow> harmless e e1"
  by (simp add: harmless_def raise_def same_resources_def)

lemma harmless_throw [simp]:
  "harmless e (throw_illegal_argument_exception m e1) \<longleftrightarrow> harmless e e1"
  "harmless e (throw_illegal_state_exception m e1) \<longleftrightarrow> harmless e e1"
  "harmless e (throw_encode_exception m e1) \<longleftrightarrow> harmless e e1"
  "harmless e (throw_metadata_edit_exception m e1) \<longleftrightarrow> harmless e e1"
  "harmless e (throw_unsupported_feature_exception m e1) \<longleftrightarrow> harmless e e1"
  by (simp_all add: throw_defs)

lemma harmless_java_call [simp]: "harmless e (java_call J c e1) \<longleftrightarrow> harmless e e1"
  by (simp add: harmless_def java_call_def raise_def same_resources_def Let_def split: option.splits)

lemma harmless_plain_alloc [simp]: "harmless e (snd (plain_alloc J c e1)) \<longleftrightarrow> harmless e e1"
  by (simp add: harmless_def plain_alloc_def same_resources_def)

lemma harmless_java_try [simp]: "harmless e (snd (java_try J c e1)) \<longleftrightarrow> harmless e e1"
  by (simp add: java_try_def)

lemma harmless_call_getter [simp]: "harmless e (snd (call_getter J g e1)) \<longleftrightarrow> harmless e e1"
  by (simp add: call_getter_def Let_def)

text \<open>A chain of steps is harmless when each step is.\<close>

lemma harmless_bind:
  assumes "harmless e (snd c)" "\<And>x e1. harmless e1 (snd (k x e1))"
  shows "harmless e (snd (case c of (x, e1) \<Rightarrow> k x e1))"
  using assms by (cases c) (auto intro: harmless_trans)

lemma harmless_result: "c = (x, e1) \<Longrightarrow> harmless e (snd c) \<Longrightarrow> harmless e e1"
  by simp

lemma harmless_if:
  assumes "b \<Longrightarrow> harmless e (snd r1)" "\<not> b \<Longrightarrow> harmless e (snd r2)"
  shows "harmless e (snd (if b then r1 else r2))"
  using assms by simp

lemma harmless_pair: "harmless e e1 \<Longrightarrow> harmless e (snd (x, e1))"
  by simp

lemmas harmless_intros = harmless_bind harmless_if harmless_pair

declare call_getters.simps [simp del] java_seq.simps [simp del] find_instance_methods.simps [simp del]

lemma harmless_call_getters [simp]: "harmless e (snd (call_getters J gs e))"
proof (induction gs arbitrary: e)
  case (Cons g gs)
  show ?case
    unfolding call_getters.simps Let_def
    by (rule harmless_bind) (simp_all add: Cons.IH)
qed (simp add: call_getters.simps)

lemma harmless_find_instance_method [simp]: "harmless e (snd (find_instance_method J n e))"
  by (simp add: find_instance_method_def java_try_def)

lemma harmless_find_instance_methods [simp]: "harmless e (snd (find_instance_methods J ns e))"
proof (induction ns arbitrary: e)
  case (Cons n ns)
  show ?case
    unfolding find_instance_methods.simps Let_def
    by (rule harmless_bind) (simp_all add: Cons.IH)
qed (simp add: find_instance_methods.simps)

lemma harmless_java_seq [simp]: "harmless e (snd (java_seq J cs e))"
proof (induction cs arbitrary: e)
  case (Cons c cs)
  show ?case
    unfolding java_seq.simps Let_def
    by (rule harmless_bind) (simp_all add: Cons.IH)
qed (simp add: java_seq.simps)

lemma harmless_object_methods [simp]: "harmless e (snd (object_methods J cs e))"
  unfolding object_methods_def Let_def by (rule harmless_bind) simp_all

lemma harmless_jstring_to_utf8 [simp]: "harmless e (snd (jstring_to_utf8 J s e))"
proof (cases s)
  case (Some bytes)
  then show ?thesis
    unfolding jstring_to_utf8_def Let_def Some option.case
    by (intro harmless_intros) simp_all
qed (simp add: jstring_to_utf8_def)

lemma harmless_utf8_checked [simp]: "harmless e (snd (utf8_checked J s e))"
  by (simp add: utf8_checked_def Let_def split: prod.split)
    (metis harmless_jstring_to_utf8 snd_conv)

lemma harmless_copy_byte_array [simp]: "harmless e (snd (copy_byte_array J data e))"
  unfolding copy_byte_array_def Let_def
  by (intro harmless_intros) simp_all

lemma harmless_normalise_entry [simp]: "harmless e (snd (normalise_entry J entry e))"
  unfolding normalise_entry_def Let_def
  by (intro harmless_intros) simp_all

lemma harmless_ensure_length [simp]: "harmless e (snd (ensure_metadata_block_length_fits block e))"
  by (simp add: ensure_metadata_block_length_fits_def split: option.split)

lemma harmless_ensure_instance_of [simp]: "harmless e (snd (ensure_instance_of J matches message e))"
  unfolding ensure_instance_of_def Let_def
  by (intro harmless_intros) simp_all

section \<open>The contract\<close>

text \<open>What libFLAC's metadata calls keep: the type of the object is among \<open>T\<close>.\<close>

definition keeps :: "metadata_api \<Rightarrow> u32 set \<Rightarrow> bool" where
  "keeps M T \<longleftrightarrow>
     (\<forall>t \<in> T. bl_type (mo_new M t) \<in> T) \<and>
     (\<forall>b. bl_type b \<in> T \<longrightarrow> bl_type (mo_clone M b) \<in> T \<and>
        (\<forall>s. bl_type (snd (vorbiscomment_set_vendor_string M b s)) \<in> T \<and>
             bl_type (snd (vorbiscomment_append_comment M b s)) \<in> T \<and>
             bl_type (snd (picture_set_mime_type M b s)) \<in> T \<and>
             bl_type (snd (picture_set_description M b s)) \<in> T) \<and>
        (\<forall>d. bl_type (snd (picture_set_data M b d)) \<in> T \<and>
             bl_type (snd (application_set_data M b d)) \<in> T) \<and>
        (\<forall>n p i. bl_type (snd (seektable_resize_points M b n)) \<in> T \<and>
             bl_type (seektable_set_point M b n p) \<in> T \<and>
             bl_type (snd (cuesheet_resize_tracks M b n)) \<in> T \<and>
             bl_type (snd (cuesheet_track_resize_indices M b i n)) \<in> T))"

text \<open>Documented behaviour of the metadata object API: no call changes the type of an object.\<close>

definition type_preserving :: "metadata_api \<Rightarrow> bool" where
  "type_preserving M \<longleftrightarrow> (\<forall>t. keeps M {t})"

lemma keeps_UNIV [simp]: "keeps M UNIV"
  by (simp add: keeps_def)

lemma keepsD:
  assumes "keeps M T"
  shows "t \<in> T \<Longrightarrow> bl_type (mo_new M t) \<in> T"
    "bl_type b \<in> T \<Longrightarrow> bl_type (mo_clone M b) \<in> T"
    "bl_type b \<in> T \<Longrightarrow> bl_type (snd (vorbiscomment_set_vendor_string M b s)) \<in> T"
    "bl_type b \<in> T \<Longrightarrow> bl_type (snd (vorbiscomment_append_comment M b s)) \<in> T"
    "bl_type b \<in> T \<Longrightarrow> bl_type (snd (picture_set_mime_type M b s)) \<in> T"
    "bl_type b \<in> T \<Longrightarrow> bl_type (snd (picture_set_description M b s)) \<in> T"
    "bl_type b \<in> T \<Longrightarrow> bl_type (snd (picture_set_data M b d)) \<in> T"
    "bl_type b \<in> T \<Longrightarrow> bl_type (snd (application_set_data M b d)) \<in> T"
    "bl_type b \<in> T \<Longrightarrow> bl_type (snd (seektable_resize_points M b n)) \<in> T"
    "bl_type b \<in> T \<Longrightarrow> bl_type (seektable_set_point M b n p) \<in> T"
    "bl_type b \<in> T \<Longrightarrow> bl_type (snd (cuesheet_resize_tracks M b n)) \<in> T"
    "bl_type b \<in> T \<Longrightarrow> bl_type (snd (cuesheet_track_resize_indices M b i n)) \<in> T"
  using assms by (simp_all add: keeps_def)

lemma type_preserving_keeps:
  assumes "type_preserving M"
  shows "keeps M T"
proof -
  have *: "keeps M {t}" for t using assms by (simp add: type_preserving_def)
  note eqs = keepsD [OF *, simplified, OF refl] keepsD(1) [OF *, simplified]
  show ?thesis unfolding keeps_def by (auto simp: eqs)
qed

lemma field_setters_keep_type [simp]:
  "bl_type (set_picture_fields p b) = bl_type b"
  "bl_type (set_application_id i b) = bl_type b"
  "bl_type (update_track n f b) = bl_type b"
  "bl_type (set_cue_sheet_fields c b) = bl_type b"
  "bl_type (set_media_catalog_number s b) = bl_type b"
  by (simp_all add: set_picture_fields_def set_application_id_def update_track_def
      set_cue_sheet_fields_def set_media_catalog_number_def split: block_data.split)

text \<open>
  The result of a builder that starts in \<open>e\<close>; \<open>N\<close> tells whether it may succeed without a block.
\<close>

definition same_refs :: "jenv \<Rightarrow> jenv \<Rightarrow> bool" where
  "same_refs e e' \<longleftrightarrow> global_refs e' = global_refs e \<and> live_decoders e' = live_decoders e \<and>
     live_encoders e' = live_encoders e"

definition built_ok :: "bool \<Rightarrow> u32 set \<Rightarrow> jenv \<Rightarrow> built \<Rightarrow> bool" where
  "built_ok N T e r \<longleftrightarrow>
     (case r of (ok, block, e') \<Rightarrow>
        same_refs e e' \<and> (\<forall>b \<in> set (live_blocks e). block_at e' b = block_at e b) \<and>
        (case block of
           None \<Rightarrow> live_blocks e' = live_blocks e \<and> (ok \<longrightarrow> N)
         | Some a \<Rightarrow> ok \<and> a \<notin> set (live_blocks e) \<and> live_blocks e' = a # live_blocks e \<and>
                     bl_type (block_at e' a) \<in> T))"

text \<open>The rest of a builder that has allocated its block \<open>a\<close>.\<close>

definition held_ok :: "u32 set \<Rightarrow> nat \<Rightarrow> jenv \<Rightarrow> built \<Rightarrow> bool" where
  "held_ok T a e r \<longleftrightarrow>
     (case r of (ok, block, e') \<Rightarrow>
        same_refs e e' \<and> (\<forall>b. b \<noteq> a \<longrightarrow> block_at e' b = block_at e b) \<and>
        (case block of
           None \<Rightarrow> \<not> ok \<and> live_blocks e' = remove1 a (live_blocks e)
         | Some a' \<Rightarrow> ok \<and> a' = a \<and> live_blocks e' = live_blocks e \<and>
                     bl_type (block_at e' a) \<in> T))"

lemma built_harmless:
  assumes "harmless e e1" "built_ok N T e1 r"
  shows "built_ok N T e r"
  using assms by (auto simp: built_ok_def harmless_def same_resources_def same_refs_def
      split: option.splits)

lemma held_harmless:
  assumes "harmless e e1" "held_ok T a e1 r"
  shows "held_ok T a e r"
  using assms by (auto simp: held_ok_def harmless_def same_resources_def same_refs_def
      split: option.splits)

subsection \<open>Rules for the shapes of the code\<close>

lemma built_nothing: "harmless e e1 \<Longrightarrow> (ok \<Longrightarrow> N) \<Longrightarrow> built_ok N T e (ok, None, e1)"
  by (simp add: built_ok_def harmless_def same_resources_def same_refs_def)

lemma built_bind:
  assumes "harmless e (snd c)" "\<And>x e1. built_ok N T e1 (k x e1)"
  shows "built_ok N T e (case c of (x, e1) \<Rightarrow> k x e1)"
  using assms by (cases c) (auto intro: built_harmless)

lemma built_if:
  assumes "b \<Longrightarrow> built_ok N T e r1" "\<not> b \<Longrightarrow> built_ok N T e r2"
  shows "built_ok N T e (if b then r1 else r2)"
  using assms by simp

lemma built_option:
  assumes "v = None \<Longrightarrow> built_ok N T e r1" "\<And>x. v = Some x \<Longrightarrow> built_ok N T e (r2 x)"
  shows "built_ok N T e (case v of None \<Rightarrow> r1 | Some x \<Rightarrow> r2 x)"
  using assms by (simp split: option.split)

lemma fresh_block_unused: "fresh_block e \<notin> set (live_blocks e)"
proof -
  have "b \<le> foldr max bs 0" if "b \<in> set bs" for b :: nat and bs
    using that by (induction bs) auto
  then show ?thesis by (fastforce simp: fresh_block_def)
qed

lemma held_built:
  assumes "held_ok T a e0 r" "a \<notin> set (live_blocks e1)" "live_blocks e0 = a # live_blocks e1"
    "\<forall>b \<in> set (live_blocks e1). block_at e0 b = block_at e1 b" "same_refs e1 e0"
  shows "built_ok N T e1 r"
proof (cases r)
  case (fields ok block e')
  have "b \<noteq> a" if "b \<in> set (live_blocks e1)" for b using that assms(2) by auto
  with fields assms show ?thesis
    by (cases block) (auto simp: held_ok_def built_ok_def same_refs_def)
qed

lemma built_alloc:
  assumes "bl_type b \<in> T"
    "\<And>a e1. bl_type (block_at e1 a) \<in> T \<Longrightarrow> held_ok T a e1 (k a e1)"
  shows "built_ok N T e (case alloc_block J name b e of
    (block, e1) \<Rightarrow> (case block of None \<Rightarrow> (False, None, e1) | Some a \<Rightarrow> k a e1))"
proof -
  obtain ok e1 where p: "plain_alloc J (Jni name) e = (ok, e1)" by (cases "plain_alloc J (Jni name) e")
  have q: "harmless e e1" using harmless_plain_alloc [of e J "Jni name" e] p by simp
  let ?a = "fresh_block e1"
  let ?e2 = "e1\<lparr>live_blocks := ?a # live_blocks e1, block_at := (block_at e1)(?a := b)\<rparr>"
  have "held_ok T ?a ?e2 (k ?a ?e2)" using assms by simp
  with fresh_block_unused [of e1] have "built_ok N T e1 (k ?a ?e2)"
    by (intro held_built [where a = ?a and ?e0.0 = ?e2]) (auto simp: same_refs_def)
  with q show ?thesis
    by (simp add: alloc_block_def p Let_def built_nothing built_harmless)
qed

lemma built_clone:
  assumes "bl_type b \<in> T"
  shows "built_ok N T e (case alloc_block J name b e of (block, e1) \<Rightarrow> (block \<noteq> None, block, e1))"
proof -
  have "built_ok N T e (case alloc_block J name b e of (block, e1) \<Rightarrow>
      (case block of None \<Rightarrow> (False, None, e1) | Some a \<Rightarrow> (True, Some a, e1)))"
    by (rule built_alloc) (simp_all add: assms held_ok_def same_refs_def)
  then show ?thesis by (auto split: prod.splits option.splits)
qed

lemma built_new:
  assumes "bl_type (mo_new M t) \<in> T"
    "\<And>a e1. bl_type (block_at e1 a) \<in> T \<Longrightarrow> held_ok T a e1 (k a e1)"
  shows "built_ok N T e (case metadata_object_new J M t e of
    (block, e1) \<Rightarrow> (case block of None \<Rightarrow> (False, None, e1) | Some a \<Rightarrow> k a e1))"
  unfolding metadata_object_new_def using assms by (rule built_alloc)

lemma held_bind:
  assumes "harmless e (snd c)" "bl_type (block_at e a) \<in> T"
    "\<And>x e1. bl_type (block_at e1 a) \<in> T \<Longrightarrow> held_ok T a e1 (k x e1)"
  shows "held_ok T a e (case c of (x, e1) \<Rightarrow> k x e1)"
proof (cases c)
  case (Pair x e1)
  with assms(1,2) have "bl_type (block_at e1 a) \<in> T" "harmless e e1" by (auto simp: harmless_def)
  with assms(3) Pair show ?thesis by (auto intro: held_harmless)
qed

lemma held_pure:
  fixes c :: "bool \<times> flac_block"
  assumes "bl_type (snd c) \<in> T" "\<And>x b. bl_type b \<in> T \<Longrightarrow> held_ok T a e (k x b)"
  shows "held_ok T a e (case c of (x, b) \<Rightarrow> k x b)"
  using assms by (cases c) auto

lemma held_verdict:
  fixes c :: "bool \<times> string option"
  assumes "\<And>x v. held_ok T a e (k x v)"
  shows "held_ok T a e (case c of (x, v) \<Rightarrow> k x v)"
  using assms by (cases c) auto

lemma held_if:
  assumes "b \<Longrightarrow> held_ok T a e r1" "\<not> b \<Longrightarrow> held_ok T a e r2"
  shows "held_ok T a e (if b then r1 else r2)"
  using assms by simp

lemma held_option:
  assumes "v = None \<Longrightarrow> held_ok T a e r1" "\<And>x. v = Some x \<Longrightarrow> held_ok T a e (r2 x)"
  shows "held_ok T a e (case v of None \<Rightarrow> r1 | Some x \<Rightarrow> r2 x)"
  using assms by (simp split: option.split)

lemma held_discard: "harmless e e1 \<Longrightarrow> held_ok T a e (discard_block a e1)"
  by (auto simp: discard_block_def held_ok_def harmless_def same_resources_def same_refs_def
      metadata_object_delete_def)

lemma held_discard_throw:
  "held_ok T a e (False, None, throw_illegal_argument_exception m (metadata_object_delete a e))"
  by (auto simp: held_ok_def same_refs_def metadata_object_delete_def throw_defs raise_def)

lemma held_publish: "bl_type b \<in> T \<Longrightarrow> held_ok T a e (publish_block a b e)"
  by (simp add: publish_block_def held_ok_def same_refs_def)

lemmas built_intros = built_new built_option built_if built_nothing built_bind
lemmas held_intros = held_discard held_discard_throw held_publish held_if held_option
  held_pure held_verdict held_bind

section \<open>The builders\<close>

lemma build_application_ok:
  assumes "keeps M T" "METADATA_TYPE_APPLICATION \<in> T"
  shows "built_ok N T e (build_application_block J M p e)"
  unfolding build_application_block_def Let_def
  by (rule built_intros held_intros | simp add: assms keepsD [OF assms(1)])+

lemma build_padding_ok:
  assumes "keeps M T" "METADATA_TYPE_PADDING \<in> T"
  shows "built_ok N T e (build_padding_block J M p e)"
  unfolding build_padding_block_def Let_def
  by (rule built_intros held_intros | simp add: assms keepsD [OF assms(1)])+

lemma build_unknown_ok:
  assumes "keeps M T" "\<And>p. q = Some p \<Longrightarrow> ju_type p \<in> T"
  shows "built_ok N T e (build_unknown_metadata_block J M q e)"
  unfolding build_unknown_metadata_block_def Let_def metadata_object_clone_def
  by (rule built_clone built_intros | simp add: assms keepsD [OF assms(1)])+

lemma build_picture_ok:
  assumes "keeps M T" "METADATA_TYPE_PICTURE \<in> T" "p = None \<Longrightarrow> N"
  shows "built_ok N T e (build_picture_block J M p e)"
  unfolding build_picture_block_def Let_def
  by (rule built_intros held_intros | simp add: assms keepsD [OF assms(1)])+

text \<open>The loops inside a builder are harmless and keep the type of the block they fill.\<close>

definition fills :: "u32 set \<Rightarrow> jenv \<Rightarrow> bool \<times> flac_block \<times> jenv \<Rightarrow> bool" where
  "fills T e r \<longleftrightarrow> harmless e (snd (snd r)) \<and> bl_type (fst (snd r)) \<in> T"

lemma fills_pair: "harmless e e1 \<Longrightarrow> bl_type b \<in> T \<Longrightarrow> fills T e (ok, b, e1)"
  by (simp add: fills_def)

lemma fills_bind:
  assumes "harmless e (snd c)" "\<And>x e1. fills T e1 (k x e1)"
  shows "fills T e (case c of (x, e1) \<Rightarrow> k x e1)"
  using assms by (cases c) (auto simp: fills_def intro: harmless_trans)

lemma fills_fill:
  assumes "fills T e c" "\<And>x b e1. bl_type b \<in> T \<Longrightarrow> fills T e1 (k x b e1)"
  shows "fills T e (case c of (x, b, e1) \<Rightarrow> k x b e1)"
  using assms by (cases c) (auto simp: fills_def intro: harmless_trans)

lemma fills_pure:
  fixes c :: "bool \<times> flac_block"
  assumes "bl_type (snd c) \<in> T" "\<And>x b. bl_type b \<in> T \<Longrightarrow> fills T e (k x b)"
  shows "fills T e (case c of (x, b) \<Rightarrow> k x b)"
  using assms by (cases c) auto

lemma fills_if:
  assumes "b \<Longrightarrow> fills T e r1" "\<not> b \<Longrightarrow> fills T e r2"
  shows "fills T e (if b then r1 else r2)"
  using assms by simp

lemma fills_option:
  assumes "v = None \<Longrightarrow> fills T e r1" "\<And>x. v = Some x \<Longrightarrow> fills T e (r2 x)"
  shows "fills T e (case v of None \<Rightarrow> r1 | Some x \<Rightarrow> r2 x)"
  using assms by (simp split: option.split)

lemmas fills_intros = fills_if fills_option fills_pair fills_fill fills_pure fills_bind

lemma held_fills:
  assumes "fills T e c" "\<And>x b e1. bl_type b \<in> T \<Longrightarrow> held_ok T a e1 (k x b e1)"
  shows "held_ok T a e (case c of (x, b, e1) \<Rightarrow> k x b e1)"
  using assms by (cases c) (auto simp: fills_def intro: held_harmless)

lemma set_vendor_fills:
  assumes "keeps M T" "bl_type b \<in> T"
  shows "fills T e (set_vendor J M vendor b e)"
  unfolding set_vendor_def Let_def
  by (rule fills_intros | simp add: assms keepsD [OF assms(1)])+

lemma append_comment_entries_fills:
  assumes "keeps M T" "bl_type b \<in> T"
  shows "fills T e (append_comment_entries J M entries b e)"
  using assms(2)
proof (induction entries arbitrary: b e)
  case (Cons entry rest)
  then show ?case
    unfolding append_comment_entries.simps Let_def
    by - (rule fills_intros Cons.IH | simp add: keepsD [OF assms(1)])+
qed (simp add: fills_def)

lemma set_seek_points_fills:
  assumes "keeps M T" "bl_type b \<in> T"
  shows "fills T e (set_seek_points J M i points b e)"
  using assms(2)
proof (induction points arbitrary: i b e)
  case (Cons point rest)
  then show ?case
    unfolding set_seek_points.simps Let_def
    by - (rule fills_intros Cons.IH | simp add: keepsD [OF assms(1)])+
qed (simp add: fills_def)

lemma set_cue_indices_fills:
  assumes "bl_type b \<in> T"
  shows "fills T e (set_cue_indices J track i indices b e)"
  using assms
proof (induction indices arbitrary: i b e)
  case (Cons index rest)
  then show ?case
    unfolding set_cue_indices.simps Let_def
    by - (rule fills_intros Cons.IH | simp)+
qed (simp add: fills_def)

lemma fill_cue_sheet_track_fills:
  assumes "keeps M T" "bl_type b \<in> T"
  shows "fills T e (fill_cue_sheet_track J M b i track e)"
  unfolding fill_cue_sheet_track_def Let_def
  by (rule fills_intros set_cue_indices_fills | simp add: assms keepsD [OF assms(1)])+

lemma fill_cue_sheet_tracks_fills:
  assumes "keeps M T" "bl_type b \<in> T"
  shows "fills T e (fill_cue_sheet_tracks J M i tracks b e)"
  using assms(2)
proof (induction tracks arbitrary: i b e)
  case (Cons track rest)
  then show ?case
    unfolding fill_cue_sheet_tracks.simps Let_def
    by - (rule fill_cue_sheet_track_fills [OF assms(1)] fills_intros Cons.IH | simp)+
qed (simp add: fills_def)

lemma build_vorbis_comment_ok:
  assumes "keeps M T" "METADATA_TYPE_VORBIS_COMMENT \<in> T" "\<not> force \<Longrightarrow> N"
  shows "built_ok N T e (build_vorbis_comment_block J M vendor entries force e)"
  unfolding build_vorbis_comment_block_def Let_def
  by (rule built_intros held_fills held_intros set_vendor_fills append_comment_entries_fills |
      simp add: assms keepsD [OF assms(1)])+

lemma build_seek_table_ok:
  assumes "keeps M T" "METADATA_TYPE_SEEKTABLE \<in> T"
  shows "built_ok N T e (build_seek_table_block J M p e)"
  unfolding build_seek_table_block_def Let_def
  by (rule built_intros held_fills held_intros set_seek_points_fills |
      simp add: assms keepsD [OF assms(1)])+

lemma build_cue_sheet_ok:
  assumes "keeps M T" "METADATA_TYPE_CUESHEET \<in> T"
  shows "built_ok N T e (build_cue_sheet_block J M p e)"
  unfolding build_cue_sheet_block_def Let_def
  by (rule built_intros held_fills held_intros fill_cue_sheet_tracks_fills |
      simp add: assms keepsD [OF assms(1)])+

end
