(* ===== verification/Metadata_Ownership.thy ===== *)
theory Metadata_Ownership
  imports Metadata_Contract
begin

text \<open>
  Who owns the metadata objects while the table of a context is built: the invariant of the table,
  the loop over one array proved once for every builder that keeps the contract (the locale
  \<open>block_builder\<close>, interpreted on the six builders the arrays use), and the two whole constructions.
\<close>

section \<open>The table\<close>

definition same_context :: "'e encode_context \<Rightarrow> 'e encode_context \<Rightarrow> bool" where
  "same_context x x' \<longleftrightarrow>
     x'\<lparr>ec_metadata_blocks := None, ec_metadata_count := 0\<rparr> =
     x\<lparr>ec_metadata_blocks := None, ec_metadata_count := 0\<rparr>"

lemma same_context_refl [simp]: "same_context x x"
  by (simp add: same_context_def)

lemma same_context_trans: "same_context x y \<Longrightarrow> same_context y z \<Longrightarrow> same_context x z"
  by (simp add: same_context_def)

lemma same_context_table [simp]:
  "same_context x (x\<lparr>ec_metadata_blocks := s, ec_metadata_count := n\<rparr>)"
  "same_context x (set_slot i b x)"
  by (simp_all add: same_context_def set_slot_def)

lemma same_context_fields:
  assumes "same_context x x'"
  shows "ec_encoder x' = ec_encoder x" "ec_output_stream x' = ec_output_stream x"
    "ec_output_channel x' = ec_output_channel x" "ec_channels x' = ec_channels x"
proof -
  have eq: "x'\<lparr>ec_metadata_blocks := None, ec_metadata_count := 0\<rparr> =
     x\<lparr>ec_metadata_blocks := None, ec_metadata_count := 0\<rparr>"
    using assms by (simp add: same_context_def)
  show "ec_encoder x' = ec_encoder x" "ec_output_stream x' = ec_output_stream x"
    "ec_output_channel x' = ec_output_channel x" "ec_channels x' = ec_channels x"
    using arg_cong [OF eq, of ec_encoder] arg_cong [OF eq, of ec_output_stream]
      arg_cong [OF eq, of ec_output_channel] arg_cong [OF eq, of ec_channels] by simp_all
qed

lemma same_refs_refl [simp]: "same_refs e e"
  by (simp add: same_refs_def)

lemma same_refs_trans: "same_refs e1 e2 \<Longrightarrow> same_refs e2 e3 \<Longrightarrow> same_refs e1 e3"
  by (simp add: same_refs_def)

lemma harmless_same_refs: "harmless e e' \<Longrightarrow> same_refs e e'"
  by (simp add: harmless_def same_resources_def same_refs_def)

definition present :: "'a option list \<Rightarrow> 'a list" where
  "present slots = map the (filter (\<lambda>b. b \<noteq> None) slots)"

lemma set_present: "a \<in> set (present slots) \<longleftrightarrow> Some a \<in> set slots"
  by (force simp: present_def)

lemma present_simps [simp]:
  "present [] = []" "present (None # bs) = present bs" "present (Some a # bs) = a # present bs"
  "present (bs @ cs) = present bs @ present cs"
  by (simp_all add: present_def)

lemma mset_present_update:
  assumes "n < length slots" "slots ! n = None"
  shows "mset (present (slots[n := block])) =
    mset (present slots) + (case block of None \<Rightarrow> {#} | Some a \<Rightarrow> {#a#})"
proof -
  have "present slots = present (take n slots @ None # drop (Suc n) slots)"
    using id_take_nth_drop [OF assms(1)] assms(2) by simp
  then show ?thesis
    by (cases block) (simp_all add: upd_conv_take_nth_drop [OF assms(1)])
qed

definition fitting :: "jenv \<Rightarrow> nat \<Rightarrow> bool" where
  "fitting e a \<longleftrightarrow> bl_length (block_at e a) \<le> JFLAC_METADATA_MAX_BLOCK_LENGTH"

text \<open>The context owns what was allocated beyond \<open>L\<close>.\<close>

definition owns_table :: "nat list \<Rightarrow> nat option list \<Rightarrow> 'e encode_context \<Rightarrow> jenv \<Rightarrow> bool" where
  "owns_table L slots x e \<longleftrightarrow>
     ec_metadata_blocks x = Some slots \<and> unat (ec_metadata_count x) = length slots \<and>
     mset (live_blocks e) = mset L + mset (present slots)"

text \<open>The first \<open>n\<close> slots of the table are done.\<close>

definition table_at :: "nat list \<Rightarrow> nat \<Rightarrow> nat option list \<Rightarrow> 'e encode_context \<Rightarrow> jenv \<Rightarrow> bool" where
  "table_at L n slots x e \<longleftrightarrow> owns_table L slots x e \<and>
     (\<forall>j < length slots. n \<le> j \<longrightarrow> slots ! j = None) \<and>
     (\<forall>a \<in> set (present slots). fitting e a)"

lemma owned_blocks_table: "owns_table L slots x e \<Longrightarrow> owned_blocks x = present slots"
  by (simp add: owns_table_def owned_blocks_def present_def)

lemma present_live: "owns_table L slots x e \<Longrightarrow> a \<in> set (present slots) \<Longrightarrow> a \<in> set (live_blocks e)"
  unfolding owns_table_def by (metis Un_iff set_mset_mset set_mset_union)

lemma owns_table_harmless: "owns_table L slots x e \<Longrightarrow> harmless e e1 \<Longrightarrow> owns_table L slots x e1"
  by (simp add: owns_table_def harmless_def same_resources_def)

lemma table_at_harmless: "table_at L n slots x e \<Longrightarrow> harmless e e1 \<Longrightarrow> table_at L n slots x e1"
  by (auto simp: table_at_def fitting_def owns_table_harmless) (simp add: harmless_def)

text \<open>Storing what a builder returned.\<close>

lemma store_slot:
  assumes "table_at L n slots x e" "built_ok N T e (ok, block, e1)" "unat i = n" "n < length slots"
  shows "owns_table L (slots[n := block]) (set_slot i block x) e1"
    "\<And>a. a \<in> set (present slots) \<Longrightarrow> block_at e1 a = block_at e a"
    "(\<And>a. block = Some a \<Longrightarrow> fitting e1 a) \<Longrightarrow>
      table_at L (Suc n) (slots[n := block]) (set_slot i block x) e1"
proof -
  have own: "owns_table L slots x e" and none: "slots ! n = None"
    and rest: "\<forall>j < length slots. n \<le> j \<longrightarrow> slots ! j = None"
    using assms(1,4) by (simp_all add: table_at_def)
  have "mset (live_blocks e1) =
      mset (live_blocks e) + (case block of None \<Rightarrow> {#} | Some a \<Rightarrow> {#a#})"
    using assms(2) by (simp add: built_ok_def split: option.splits)
  then show own1: "owns_table L (slots[n := block]) (set_slot i block x) e1"
    using own assms(3) mset_present_update [OF assms(4) none, of block]
    by (simp add: owns_table_def set_slot_def)
  show same: "block_at e1 a = block_at e a" if "a \<in> set (present slots)" for a
    using present_live [OF own that] assms(2) by (simp add: built_ok_def)
  assume fits: "\<And>a. block = Some a \<Longrightarrow> fitting e1 a"
  have "fitting e1 a" if "a \<in> set (present (slots[n := block]))" for a
  proof -
    from that have "Some a \<in> set slots \<or> block = Some a"
      using set_update_subset_insert [of slots n block] by (auto simp: set_present)
    with same fits assms(1) show ?thesis by (auto simp: set_present table_at_def fitting_def)
  qed
  with own1 rest show "table_at L (Suc n) (slots[n := block]) (set_slot i block x) e1"
    by (simp add: table_at_def)
qed

lemma ensure_length_fits:
  "fst (ensure_metadata_block_length_fits block e) \<longleftrightarrow> (\<forall>a. block = Some a \<longrightarrow> fitting e a)"
  by (auto simp: ensure_metadata_block_length_fits_def fitting_def not_less split: option.split)

text \<open>Success and failure of a construction that started with the objects \<open>L\<close>.\<close>

definition wf_table :: "'e encode_context \<Rightarrow> bool" where
  "wf_table x \<longleftrightarrow>
     (\<forall>slots. ec_metadata_blocks x = Some slots \<longrightarrow> unat (ec_metadata_count x) = length slots)"

lemma owns_table_wf: "owns_table L slots x e \<Longrightarrow> wf_table x"
  by (simp add: owns_table_def wf_table_def)

definition finished :: "nat list \<Rightarrow> 'e encode_context \<Rightarrow> jenv \<Rightarrow> bool" where
  "finished L x e \<longleftrightarrow> mset (live_blocks e) = mset L + mset (owned_blocks x) \<and>
     (ec_metadata_blocks x = None \<longrightarrow> ec_metadata_count x = 0) \<and>
     (\<forall>a \<in> set (owned_blocks x). fitting e a)"

definition metadata_ok ::
  "nat list \<Rightarrow> 'e encode_context \<Rightarrow> jenv \<Rightarrow> bool \<times> 'e encode_context \<times> jenv \<Rightarrow> bool" where
  "metadata_ok L x e r \<longleftrightarrow>
     (case r of (ok, x', e') \<Rightarrow> same_refs e e' \<and> same_context x x' \<and> wf_table x' \<and>
        (if ok then finished L x' e'
         else owned_blocks x' = [] \<and> mset (live_blocks e') = mset L))"

lemma delete_metadata_slots_refs: "same_refs e (delete_metadata_slots blocks i n e)"
proof (induction n arbitrary: i e)
  case (Suc n)
  have "same_refs e (case blocks ! i of None \<Rightarrow> e | Some b \<Rightarrow> metadata_object_delete b e)"
    by (simp add: metadata_object_delete_def same_refs_def split: option.split)
  with Suc.IH show ?case by (auto intro: same_refs_trans)
qed simp

lemma drop_metadata_ok:
  assumes "owns_table L slots x e"
  shows "metadata_ok L x e (drop_metadata x e)"
  using assms delete_metadata_slots_blocks [of 0 "length slots" slots e]
  by (simp add: owns_table_def drop_metadata_def destroy_metadata_blocks_def metadata_ok_def
      present_def owned_blocks_def wf_table_def delete_metadata_slots_refs)

section \<open>One array\<close>

locale block_builder =
  fixes build :: "'v option \<Rightarrow> jenv \<Rightarrow> built"
  assumes build_contract: "built_ok True UNIV e (build value e)"
begin

lemma array_blocks:
  assumes "build_metadata_array_blocks J build values x i e = (ok, x', i', e')"
    "table_at L n slots x e" "unat i = n" "n + length values \<le> length slots"
  shows "same_refs e e' \<and> same_context x x' \<and>
    (\<exists>slots'. owns_table L slots' x' e' \<and> length slots' = length slots \<and>
       (ok \<longrightarrow> table_at L (n + length values) slots' x' e' \<and> unat i' = n + length values))"
  using assms
proof (induction "values" arbitrary: x i e n slots)
  case Nil
  then show ?case by (auto simp: table_at_def)
next
  case (Cons v rest)
  have start: "table_at L n slots x e1" if "harmless e e1" for e1
    using Cons.prems(2) that by (rule table_at_harmless)
  have refs: "same_refs e e1" if "harmless e e1" for e1 using that by (rule harmless_same_refs)
  obtain frame_ok e1 where p1: "java_try J (Jni ''PushLocalFrame'') e = (frame_ok, e1)" by force
  have q1: "harmless e e1" using p1 by (rule harmless_result) simp
  obtain element_ok e2 where p2: "call_getter J ''GetObjectArrayElement'' e1 = (element_ok, e2)"
    by force
  have q2: "harmless e e2" using p2 by (rule harmless_result) (simp add: q1)
  obtain built block e3 where p3: "build v e2 = (built, block, e3)" by (metis surj_pair)
  let ?x1 = "set_slot i block x"
  define r where "r = (if built \<and> \<not> exception_check e3
      then ensure_metadata_block_length_fits block e3 else (built, e3))"
  obtain success e4 where p4: "r = (success, e4)" by force
  have b: "built_ok True UNIV e2 (built, block, e3)" using build_contract [of e2 v] p3 by simp
  have n: "n < length slots" using Cons.prems(4) by simp
  note store = store_slot [OF start [OF q2] b Cons.prems(3) n]
  have q4: "harmless e3 e4"
    using p4 by (auto simp: r_def split: if_splits elim: harmless_result)
  have refs4: "same_refs e e4"
    using refs [OF q2] harmless_same_refs [OF q4] b by (auto simp: built_ok_def intro: same_refs_trans)
  have own4: "owns_table L (slots[n := block]) ?x1 e4"
    using store(1) q4 by (rule owns_table_harmless)
  note res = Cons.prems(1) [unfolded build_metadata_array_blocks.simps p1 p2 p3 Let_def prod.case
      r_def [symmetric] p4]
  show ?case
  proof (cases "frame_ok \<and> element_ok \<and> success \<and> \<not> exception_check e3 \<and> \<not> exception_check e4")
    case True
    with p4 have "fst (ensure_metadata_block_length_fits block e3) \<or> \<not> built" "built \<or> \<not> success"
      by (auto simp: r_def split: if_splits)
    with True have fits: "\<And>a. block = Some a \<Longrightarrow> fitting e3 a" by (simp add: ensure_length_fits)
    have at: "table_at L (Suc n) (slots[n := block]) ?x1 e4"
      by (rule table_at_harmless [OF store(3) [OF fits] q4])
    have "length slots < 4294967296"
      using own4 unat_u32_less [of "ec_metadata_count ?x1"] by (simp add: owns_table_def)
    then have i: "unat (i + 1) = Suc n" using Cons.prems(3) n by (simp add: unat_word_ariths)
    from True res have
      "build_metadata_array_blocks J build rest ?x1 (i + 1) e4 = (ok, x', i', e')" by simp
    from Cons.IH [OF this at i] Cons.prems(4) refs4 show ?thesis
      by (auto intro: same_refs_trans same_context_trans [OF same_context_table(2)])
  next
    case False
    with res consider "\<not> ok" "x' = x" "e' = e1" | "\<not> ok" "x' = x" "e' = e2"
      | "\<not> ok" "x' = ?x1" "e' = e4"
      by (auto split: if_splits)
    then show ?thesis
    proof cases
      case 1
      with start [OF q1] refs [OF q1] show ?thesis by (auto simp: table_at_def)
    next
      case 2
      with start [OF q2] refs [OF q2] show ?thesis by (auto simp: table_at_def)
    next
      case 3
      with own4 refs4 show ?thesis by auto
    qed
  qed
qed

text \<open>The array as a step of the construction.\<close>

lemma array_step:
  assumes "table_at L n slots x e" "unat i = n" "n + length values \<le> length slots"
    "\<And>slots' x1 i1 e1. table_at L (n + length values) slots' x1 e1 \<Longrightarrow>
       unat i1 = n + length values \<Longrightarrow> length slots' = length slots \<Longrightarrow>
       metadata_ok L x1 e1 (k x1 i1 e1)"
  shows "metadata_ok L x e (case build_metadata_array_blocks J build values x i e of
    (ok, x1, i1, e1) \<Rightarrow> if \<not> ok then drop_metadata x1 e1 else k x1 i1 e1)"
proof -
  obtain ok x1 i1 e1 where r: "build_metadata_array_blocks J build values x i e = (ok, x1, i1, e1)"
    by (metis surj_pair)
  from array_blocks [OF this assms(1-3)] obtain slots' where
    s: "same_refs e e1" "same_context x x1" "owns_table L slots' x1 e1"
      "length slots' = length slots"
      "ok \<Longrightarrow> table_at L (n + length values) slots' x1 e1 \<and> unat i1 = n + length values"
    by blast
  have "metadata_ok L x1 e1 (if \<not> ok then drop_metadata x1 e1 else k x1 i1 e1)"
    using drop_metadata_ok [OF s(3)] assms(4) s(4,5) by auto
  with s(1,2) show ?thesis
    by (auto simp: r metadata_ok_def intro: same_refs_trans same_context_trans)
qed

end

interpretation pictures: block_builder "build_picture_block J M" for J M
  by unfold_locales (simp add: build_picture_ok)
interpretation applications: block_builder "build_application_block J M" for J M
  by unfold_locales (simp add: build_application_ok)
interpretation seek_tables: block_builder "build_seek_table_block J M" for J M
  by unfold_locales (simp add: build_seek_table_ok)
interpretation cue_sheets: block_builder "build_cue_sheet_block J M" for J M
  by unfold_locales (simp add: build_cue_sheet_ok)
interpretation paddings: block_builder "build_padding_block J M" for J M
  by unfold_locales (simp add: build_padding_ok)
interpretation unknowns: block_builder "build_unknown_metadata_block J M" for J M
  by unfold_locales (simp add: build_unknown_ok)

section \<open>The grouped construction\<close>

lemma start_table:
  assumes "start_metadata_table J k x e = (table_ok, x0, e0)" "k < 4294967296"
  shows "harmless e e0" "same_context x x0" "wf_table x0" "table_ok \<Longrightarrow> table_at (live_blocks e) 0 (replicate k None) x0 e0"
    "\<not> table_ok \<Longrightarrow> owned_blocks x0 = []"
proof -
  have q: "harmless e e0"
    using assms(1) by (auto simp: start_metadata_table_def Let_def split: prod.splits if_splits
        elim: harmless_result)
  then show "harmless e e0" .
  show "same_context x x0" "wf_table x0" "\<not> table_ok \<Longrightarrow> owned_blocks x0 = []"
    using assms by (auto simp: start_metadata_table_def Let_def owned_blocks_def wf_table_def
        unat_of_nat split: prod.splits if_splits)
  have "present (replicate k None) = ([] :: nat list)" by (induction k) simp_all
  moreover have "live_blocks e0 = live_blocks e" using q by (simp add: harmless_def same_resources_def)
  moreover assume table_ok
  ultimately show "table_at (live_blocks e) 0 (replicate k None) x0 e0"
    using assms by (auto simp: start_metadata_table_def Let_def table_at_def owns_table_def
        unat_of_nat split: prod.splits if_splits)
qed

lemma comment_step:
  assumes "table_at L 0 slots x e"
    "(if array_elements entries \<noteq> [] then 1 else 0) \<le> length slots"
    "\<And>n slots' x1 i1 e1. n = (if array_elements entries \<noteq> [] then 1 else 0) \<Longrightarrow>
       table_at L n slots' x1 e1 \<Longrightarrow> unat i1 = n \<Longrightarrow> length slots' = length slots \<Longrightarrow>
       metadata_ok L x1 e1 (k x1 i1 e1)"
  shows "metadata_ok L x e (case build_comment_slot J M entries x e of
    (ok, x1, i1, e1) \<Rightarrow> if \<not> ok then drop_metadata x1 e1 else k x1 i1 e1)"
proof (cases "array_elements entries = []")
  case True
  with assms show ?thesis by (simp add: build_comment_slot_def)
next
  case False
  obtain built block e1 where b: "build_vorbis_comment_block J M None entries False e = (built, block, e1)"
    by (metis surj_pair)
  have bok: "built_ok True UNIV e (built, block, e1)"
    using build_vorbis_comment_ok [of M UNIV False True e J None entries] b by simp
  obtain fits e2 where f: "ensure_metadata_block_length_fits block e1 = (fits, e2)" by force
  have q: "harmless e1 e2" using f by (rule harmless_result) simp
  have "0 < length slots" using assms(2) False by auto
  note store = store_slot [OF assms(1) bok _ this, of 0, simplified]
  let ?x1 = "set_slot 0 block x"
  have refs: "same_refs e e1" using bok by (simp add: built_ok_def)
  then have refs2: "same_refs e e2" using harmless_same_refs [OF q] by (rule same_refs_trans)
  note own2 = owns_table_harmless [OF store(1) q]
  have lift: "metadata_ok L x e r" if "same_refs e e'" "metadata_ok L ?x1 e' r" for e' r
    using that by (auto simp: metadata_ok_def intro: same_refs_trans
        same_context_trans [OF same_context_table(2)])
  consider "\<not> built" | "built" "\<not> fits" | "built" fits by blast
  then show ?thesis
  proof cases
    case 1
    then show ?thesis
      using lift [OF refs drop_metadata_ok [OF store(1)]] False
      by (simp add: build_comment_slot_def b)
  next
    case 2
    then show ?thesis
      using lift [OF refs2 drop_metadata_ok [OF own2]] False
      by (simp add: build_comment_slot_def b f)
  next
    case 3
    then have "\<And>a. block = Some a \<Longrightarrow> fitting e1 a"
      using ensure_length_fits [of block e1] f by simp
    from table_at_harmless [OF store(3) [OF this] q] have "metadata_ok L ?x1 e2 (k ?x1 1 e2)"
      using assms(3) [of 1 "slots[0 := block]" ?x1 e2 1] False by simp
    from lift [OF refs2 this] 3 False show ?thesis by (simp add: build_comment_slot_def b f)
  qed
qed

lemma finished_table:
  assumes "table_at L n slots x e"
  shows "metadata_ok L x e (True, x, e)"
  using assms owned_blocks_table [of L slots x e] owns_table_wf [of L slots x e]
  by (auto simp: metadata_ok_def finished_def table_at_def owns_table_def)

lemma build_metadata_blocks_ok:
  assumes "ec_metadata_blocks x = None"
  shows "metadata_ok (live_blocks e) x e (build_metadata_blocks J M r x e)"
proof -
  let ?k = "total_metadata_blocks r"
  consider "int ?k > UINT32_MAX" | "?k = 0" | "0 < ?k" "?k < 4294967296" by linarith
  then show ?thesis
  proof cases
    case 1
    then show ?thesis using assms by (simp add: build_metadata_blocks_def metadata_ok_def throw_defs
          raise_def same_refs_def owned_blocks_def wf_table_def)
  next
    case 2
    then show ?thesis
      by (simp add: build_metadata_blocks_def metadata_ok_def finished_def owned_blocks_def
          wf_table_def)
  next
    case 3
    obtain table_ok x0 e0 where t: "start_metadata_table J ?k x e = (table_ok, x0, e0)"
      by (metis surj_pair)
    note st = start_table [OF t 3(2)]
    have lift: "metadata_ok L x e rr" if "metadata_ok L x0 e0 rr" for L rr
      using that harmless_same_refs [OF st(1)] st(2)
      by (auto simp: metadata_ok_def intro: same_refs_trans same_context_trans)
    show ?thesis
    proof (cases table_ok)
      case False
      with st have "metadata_ok (live_blocks e) x0 e0 (False, x0, e0)"
        by (simp add: metadata_ok_def harmless_def same_resources_def)
      from lift [OF this] False 3 show ?thesis by (simp add: build_metadata_blocks_def t)
    next
      case True
      show ?thesis
        unfolding build_metadata_blocks_def Let_def t prod.case using 3 True
        by simp (rule lift, rule comment_step [OF st(4) [OF True]],
          (rule pictures.array_step applications.array_step seek_tables.array_step
            cue_sheets.array_step paddings.array_step unknowns.array_step finished_table |
           assumption | simp add: total_metadata_blocks_def)+)
    qed
  qed
qed

section \<open>The ordered construction\<close>

text \<open>The types a block requested with type code \<open>t\<close> can have.\<close>

definition ordered_types :: "jint \<Rightarrow> u32 set" where
  "ordered_types t =
     (if t \<in> {METADATA_TYPE_PADDING, METADATA_TYPE_APPLICATION, METADATA_TYPE_SEEKTABLE,
             METADATA_TYPE_VORBIS_COMMENT, METADATA_TYPE_CUESHEET, METADATA_TYPE_PICTURE}
      then {t}
      else {u. JFLAC_UNKNOWN_METADATA_MIN_TYPE \<le> sint u \<and> sint u \<le> JFLAC_UNKNOWN_METADATA_MAX_TYPE})"

lemma ensure_instance_of_matches:
  "ensure_instance_of J matches message e = (True, e1) \<Longrightarrow> matches"
  by (auto simp: ensure_instance_of_def Let_def split: prod.splits if_splits)

lemma built_typed:
  assumes "\<And>p e. value = Some p \<Longrightarrow> built_ok N T e (builder (Some p) e)"
  shows "built_ok N T e (build_typed J value message builder e)"
proof -
  obtain ok e1 where i: "ensure_instance_of J (value \<noteq> None) message e = (ok, e1)" by force
  then have q: "harmless e e1" by (rule harmless_result) simp
  show ?thesis
  proof (cases ok)
    case True
    with ensure_instance_of_matches [of J "value \<noteq> None" message e e1] i
    obtain p where p: "value = Some p" by auto
    show ?thesis
      unfolding build_typed_def i Let_def prod.case
      using built_harmless [OF q assms [OF p]] True by (simp add: p)
  next
    case False
    then show ?thesis
      unfolding build_typed_def i Let_def prod.case using q by (simp add: built_nothing)
  qed
qed

lemma build_unknown_typed:
  assumes "keeps M T"
    "{u. JFLAC_UNKNOWN_METADATA_MIN_TYPE \<le> sint u \<and> sint u \<le> JFLAC_UNKNOWN_METADATA_MAX_TYPE} \<subseteq> T"
  shows "built_ok N T e (build_unknown_metadata_block J M q e)"
  unfolding build_unknown_metadata_block_def Let_def metadata_object_clone_def
  by (rule built_clone built_intros keepsD(2) [OF assms(1)] | (simp; fail) |
      use assms(2) in force)+

lemma build_transport_ok:
  assumes "keeps M T" "METADATA_TYPE_VORBIS_COMMENT \<in> T"
  shows "built_ok N T e (build_vorbis_comment_transport_block J M value e)"
  unfolding build_vorbis_comment_transport_block_def Let_def
  by (cases "value"; simp only: java_block.case)
    (rule built_intros build_vorbis_comment_ok | simp add: assms)+

lemma dispatch_ordered_ok:
  assumes "keeps M T" "ordered_types t \<subseteq> T"
  shows "built_ok N T e (dispatch_ordered_block J M t value e)"
  unfolding dispatch_ordered_block_def
  using assms(2)
  by (intro built_if built_typed build_transport_ok build_padding_ok build_application_ok
      build_seek_table_ok build_cue_sheet_ok build_picture_ok build_unknown_typed assms(1)
      built_nothing) (auto simp: ordered_types_def)

lemma build_ordered_block_ok:
  assumes "keeps M T" "ordered_types t \<subseteq> T"
    "build_ordered_metadata_block J M t v e = (ok, block, e')"
  shows "built_ok False T e (ok, block, e') \<and> (\<forall>a. ok \<longrightarrow> block = Some a \<longrightarrow> fitting e' a)"
proof (cases v)
  case None
  with assms(3) show ?thesis
    by (auto simp: build_ordered_metadata_block_def intro!: built_nothing)
next
  case (Some w)
  obtain built b1 e1 where d: "dispatch_ordered_block J M t w e = (built, b1, e1)"
    by (metis surj_pair)
  have d_ok: "built_ok False T e (built, b1, e1)"
    using dispatch_ordered_ok [OF assms(1,2), of False e J w] d by simp
  obtain fits e2 where f: "ensure_metadata_block_length_fits b1 e1 = (fits, e2)" by force
  have q: "harmless e1 e2" using f by (rule harmless_result) simp
  have fit: "fits \<longleftrightarrow> (\<forall>a. b1 = Some a \<longrightarrow> fitting e1 a)" using ensure_length_fits [of b1 e1] f by simp
  have same: "block_at e2 = block_at e1" "live_blocks e2 = live_blocks e1" "same_refs e1 e2"
    using q by (simp_all add: harmless_def same_resources_def same_refs_def)
  note res = assms(3) [unfolded build_ordered_metadata_block_def Some option.case Let_def d prod.case f]
  consider "\<not> built" | "built" "\<not> fits" | "built" fits by blast
  then show ?thesis
  proof cases
    case 1
    with res d_ok show ?thesis by auto
  next
    case 2
    then obtain a where "b1 = Some a" using fit by auto
    with 2 res d_ok same show ?thesis
      by (auto simp: built_ok_def metadata_object_delete_def same_refs_def)
  next
    case 3
    with res d_ok same fit show ?thesis
      by (auto simp: built_ok_def fitting_def same_refs_def split: option.splits)
  qed
qed

text \<open>The slots of a finished prefix hold blocks of the requested types, in order.\<close>

definition typed_slots :: "jint list \<Rightarrow> nat option list \<Rightarrow> jenv \<Rightarrow> bool" where
  "typed_slots ts slots e \<longleftrightarrow>
     list_all2 (\<lambda>t s. \<exists>a. s = Some a \<and> bl_type (block_at e a) \<in> ordered_types t) ts slots"

lemma typed_slots_step:
  assumes "typed_slots ts (take n slots) e" "n < length slots"
    "\<And>a. a \<in> set (present slots) \<Longrightarrow> block_at e1 a = block_at e a"
    "block = Some a" "bl_type (block_at e1 a) \<in> ordered_types t"
  shows "typed_slots (ts @ [t]) (take (Suc n) (slots[n := block])) e1"
proof -
  have "take (Suc n) (slots[n := block]) = take n slots @ [block]"
    using assms(2) by (simp add: take_Suc_conv_app_nth)
  moreover have "typed_slots ts (take n slots) e1"
    using assms(1) unfolding typed_slots_def
  proof (rule list.rel_mono_strong)
    fix t s assume "s \<in> set (take n slots)"
      and "\<exists>a. s = Some a \<and> bl_type (block_at e a) \<in> ordered_types t"
    then show "\<exists>a. s = Some a \<and> bl_type (block_at e1 a) \<in> ordered_types t"
      using assms(3) by (auto simp: set_present dest!: in_set_takeD)
  qed
  ultimately show ?thesis
    using assms(4,5) by (simp add: typed_slots_def list_all2_appendI)
qed

lemma typed_slots_harmless: "typed_slots ts slots e \<Longrightarrow> harmless e e1 \<Longrightarrow> typed_slots ts slots e1"
  by (simp add: typed_slots_def harmless_def)

lemma ordered_loop_ok:
  assumes "build_ordered_loop J M todo x i e = (ok, x', e')"
    "table_at L n slots x e" "unat i = n" "n + length todo = length slots"
    "type_preserving M \<Longrightarrow> typed_slots ts (take n slots) e"
  shows "metadata_ok L x e (ok, x', e') \<and>
    (ok \<longrightarrow> type_preserving M \<longrightarrow>
       (\<exists>slots'. ec_metadata_blocks x' = Some slots' \<and> typed_slots (ts @ map fst todo) slots' e'))"
  using assms
proof (induction todo arbitrary: x i e n slots ts)
  case Nil
  then show ?case using finished_table [OF Nil.prems(2)]
    by (auto simp: table_at_def owns_table_def)
next
  case (Cons item rest)
  obtain t v where item: "item = (t, v)" by force
  obtain frame_ok e1 where p1: "java_try J (Jni ''PushLocalFrame'') e = (frame_ok, e1)" by force
  have q1: "harmless e e1" using p1 by (rule harmless_result) simp
  obtain type_ok e2 where p2: "call_getter J ''GetIntArrayRegion'' e1 = (type_ok, e2)" by force
  have q2: "harmless e e2" using p2 by (rule harmless_result) (simp add: q1)
  obtain value_ok e3 where p3: "call_getter J ''GetObjectArrayElement'' e2 = (value_ok, e3)"
    by force
  have q3: "harmless e e3" using p3 by (rule harmless_result) (simp add: q2)
  obtain success block e4 where p4: "build_ordered_metadata_block J M t v e3 = (success, block, e4)"
    by (metis surj_pair)
  let ?x1 = "set_slot i block x"
  have b: "built_ok False UNIV e3 (success, block, e4)"
    and fits: "\<And>a. success \<Longrightarrow> block = Some a \<Longrightarrow> fitting e4 a"
    using build_ordered_block_ok [OF keeps_UNIV _ p4] by auto
  have n: "n < length slots" using Cons.prems(4) by simp
  have own: "owns_table L slots x e" using Cons.prems(2) by (simp add: table_at_def)
  note store = store_slot [OF table_at_harmless [OF Cons.prems(2) q3] b Cons.prems(3) n]
  have refs4: "same_refs e e4"
    using harmless_same_refs [OF q3] b by (auto simp: built_ok_def intro: same_refs_trans)
  have stop: "metadata_ok L x e (drop_metadata x ee)" if "harmless e ee" for ee
    using drop_metadata_ok [OF owns_table_harmless [OF own that]] harmless_same_refs [OF that]
    by (auto simp: metadata_ok_def intro: same_refs_trans)
  have lift: "metadata_ok L x e r" if "metadata_ok L ?x1 e4 r" for r
    using that refs4 by (auto simp: metadata_ok_def intro: same_refs_trans
        same_context_trans [OF same_context_table(2)])
  note res = Cons.prems(1) [unfolded item build_ordered_loop.simps p1 p2 p3 p4 Let_def prod.case]
  consider "drop_metadata x e1 = (ok, x', e')" | "drop_metadata x e2 = (ok, x', e')"
    | "drop_metadata x e3 = (ok, x', e')" | "drop_metadata ?x1 e4 = (ok, x', e')"
    | "success" "\<not> exception_check e4" "build_ordered_loop J M rest ?x1 (i + 1) e4 = (ok, x', e')"
    using res by (auto split: if_splits)
  then show ?case
  proof cases
    case 5
    then obtain a where a: "block = Some a" using b by (auto simp: built_ok_def split: option.splits)
    have at: "table_at L (Suc n) (slots[n := block]) ?x1 e4" using store(3) fits 5(1) by blast
    have "length slots < 4294967296"
      using own unat_u32_less [of "ec_metadata_count x"] by (simp add: owns_table_def)
    then have i: "unat (i + 1) = Suc n" using Cons.prems(3) n by (simp add: unat_word_ariths)
    have typed: "typed_slots (ts @ [t]) (take (Suc n) (slots[n := block])) e4"
      if tp: "type_preserving M"
    proof -
      have "bl_type (block_at e4 a) \<in> ordered_types t"
        using build_ordered_block_ok [OF type_preserving_keeps [OF tp] subset_refl p4] a
        by (simp add: built_ok_def)
      from typed_slots_step [OF typed_slots_harmless [OF Cons.prems(5) [OF tp] q3] n store(2) a this]
      show ?thesis .
    qed
    from Cons.IH [OF 5(3) at i _ typed] Cons.prems(4) lift show ?thesis by (simp add: item)
  qed (use stop [OF q1] stop [OF q2] stop [OF q3] lift [OF drop_metadata_ok [OF store(1)]] in
      \<open>auto simp: drop_metadata_def Let_def split: prod.splits\<close>)
qed

lemma build_ordered_metadata_blocks_ok:
  assumes "ec_metadata_blocks x = None" "length (array_elements (mr_block_types r)) < 4294967296"
    "build_ordered_metadata_blocks J M r x e = (ok, x', e')"
  shows "metadata_ok (live_blocks e) x e (ok, x', e') \<and>
    (ok \<longrightarrow> type_preserving M \<longrightarrow> array_elements (mr_block_types r) \<noteq> [] \<longrightarrow>
       (\<exists>slots. ec_metadata_blocks x' = Some slots \<and>
          typed_slots (array_elements (mr_block_types r)) slots e'))"
proof -
  let ?ts = "array_elements (mr_block_types r)" and ?vs = "array_elements (mr_block_values r)"
  obtain table_ok x0 e0 where t: "start_metadata_table J (length ?ts) x e = (table_ok, x0, e0)"
    by (metis surj_pair)
  note st = start_table [OF t assms(2)]
  have lift: "metadata_ok L x e rr" if "metadata_ok L x0 e0 rr" for L rr
    using that harmless_same_refs [OF st(1)] st(2)
    by (auto simp: metadata_ok_def intro: same_refs_trans same_context_trans)
  note res = assms(3) [unfolded build_ordered_metadata_blocks_def Let_def t prod.case]
  consider "length ?ts \<noteq> length ?vs" | "length ?ts = length ?vs" "?ts = []"
    | "length ?ts = length ?vs" "?ts \<noteq> []" "\<not> table_ok"
    | "length ?ts = length ?vs" "?ts \<noteq> []" "table_ok" by blast
  then show ?thesis
  proof cases
    case 1
    with res assms(1) show ?thesis
      by (auto simp: metadata_ok_def throw_defs raise_def same_refs_def owned_blocks_def wf_table_def)
  next
    case 2
    with res show ?thesis
      by (auto simp: metadata_ok_def finished_def owned_blocks_def wf_table_def)
  next
    case 3
    with st have "metadata_ok (live_blocks e) x0 e0 (False, x0, e0)"
      by (simp add: metadata_ok_def harmless_def same_resources_def)
    from lift [OF this] 3 res show ?thesis by auto
  next
    case 4
    with res have loop: "build_ordered_loop J M (zip ?ts ?vs) x0 0 e0 = (ok, x', e')" by simp
    from ordered_loop_ok [OF loop st(4) [OF 4(3)], of "[]"] 4(1) lift show ?thesis
      by (auto simp: typed_slots_def)
  qed
qed

end
