(* ===== verification/Encode_Session.thy ===== *)
theory Encode_Session
  imports Encode_Callbacks Metadata_Ownership
begin

text \<open>
  The encoder's entry points: opening over a file, an \<open>OutputStream\<close> or a \<open>SeekableByteChannel\<close>,
  writing interleaved PCM, finishing and releasing. \<open>address\<close> is the address \<open>calloc\<close> returns for a
  new context, None when it fails. A context is private to the call that opens it until it is
  registered, so it is passed along and put at its address when it is destroyed or registered. A
  metadata slot of the table refers to an object of the environment. None is the result of a call
  whose search for a free handle does not return.
\<close>

section \<open>The request\<close>

record encoding_request = metadata_request +
  rq_sample_rate :: jint
  rq_channels :: jint
  rq_bits_per_sample :: jint
  rq_total_samples_estimate :: "jlong option"
  rq_compression_level :: jint
  rq_verify :: bool
  rq_streamable_subset :: bool
  rq_block_size :: "jint option"
  rq_num_threads :: jint
  rq_container :: jint
  rq_ogg_serial_number :: "jint option"

definition encoding_request_methods :: "string list" where
  "encoding_request_methods =
    [''getSampleRate'', ''getChannels'', ''getBitsPerSample'', ''getTotalSamplesEstimate'',
     ''getCompressionLevel'', ''isVerify'', ''isStreamableSubset'', ''getBlockSize'',
     ''getNumThreads'', ''getContainer'', ''getOggSerialNumber'', ''getCommentEntries'',
     ''getPictures'', ''getApplicationBlocks'', ''getSeekTables'', ''getCueSheets'',
     ''getPaddingBlocks'', ''getUnknownBlocks'', ''getMetadataBlockTypes'',
     ''getMetadataBlockValues'']"

definition encoding_request_getters :: "string list" where
  "encoding_request_getters =
    [''getSampleRate'', ''getChannels'', ''getBitsPerSample'', ''getCompressionLevel'',
     ''isVerify'', ''isStreamableSubset'', ''getNumThreads'', ''getContainer'',
     ''getTotalSamplesEstimate'', ''getBlockSize'', ''getOggSerialNumber'', ''getCommentEntries'',
     ''getPictures'', ''getApplicationBlocks'', ''getSeekTables'', ''getCueSheets'',
     ''getPaddingBlocks'', ''getUnknownBlocks'', ''getMetadataBlockTypes'',
     ''getMetadataBlockValues'']"

text \<open>A boxed value: its class and method, looked up only when a value needs them; its value.\<close>

definition find_boxed_method :: "jvm \<Rightarrow> bool \<Rightarrow> string \<Rightarrow> string \<Rightarrow> jenv \<Rightarrow> bool \<times> jenv" where
  "find_boxed_method J needed class_name method e =
     (if \<not> needed then (True, e) else
      let (class_ok, e1) = java_try J (Jni class_name) e in
      if \<not> class_ok then (False, e1) else find_instance_method J method e1)"

definition unbox :: "jvm \<Rightarrow> 'v option \<Rightarrow> string \<Rightarrow> jenv \<Rightarrow> bool \<times> jenv" where
  "unbox J value getter e = (if value = None then (True, e) else call_getter J getter e)"

text \<open>Reading the request, up to the allocation of the context.\<close>

definition read_encoding_request :: "jvm \<Rightarrow> encoding_request \<Rightarrow> jenv \<Rightarrow> bool \<times> jenv" where
  "read_encoding_request J q e =
     (let (class_ok, e1) = plain_alloc J (Jni ''GetObjectClass'') e in
      if \<not> class_ok then (False, e1) else
      let (methods_ok, e2) = find_instance_methods J encoding_request_methods e1 in
      if \<not> methods_ok then (False, e2) else
      let (values_ok, e3) = call_getters J encoding_request_getters e2 in
      if \<not> values_ok then (False, e3) else
      let (valid, e4) = validate_container (rq_container q) e3 in
      if \<not> valid then (False, e4) else
      if rq_container q \<noteq> JFLAC_CONTAINER_OGG \<and> rq_ogg_serial_number q \<noteq> None
      then (False, throw_illegal_argument_exception
              ''Ogg serial number can only be set for Ogg FLAC encoding.'' e4) else
      let (long_ok, e5) = find_boxed_method J (rq_total_samples_estimate q \<noteq> None)
            ''FindClass Long'' ''longValue'' e4 in
      if \<not> long_ok then (False, e5) else
      let (integer_ok, e6) = find_boxed_method J
            (rq_block_size q \<noteq> None \<or> rq_ogg_serial_number q \<noteq> None)
            ''FindClass Integer'' ''intValue'' e5 in
      if \<not> integer_ok then (False, e6) else
      if exception_check e6 then (False, e6) else
      let (total_ok, e7) = unbox J (rq_total_samples_estimate q) ''longValue'' e6 in
      if \<not> total_ok then (False, e7) else
      let (size_ok, e8) = unbox J (rq_block_size q) ''intValue'' e7 in
      if \<not> size_ok then (False, e8) else
      unbox J (rq_ogg_serial_number q) ''intValue'' e8)"

section \<open>Configuration\<close>

text \<open>A chain of setters joined by \<open>||\<close> on failure: it stops at the first that fails.\<close>

fun apply_setters :: "('e \<Rightarrow> bool \<times> 'e) list \<Rightarrow> 'e \<Rightarrow> bool \<times> 'e" where
  "apply_setters [] d = (True, d)"
| "apply_setters (setter # rest) d =
     (let (ok, d1) = setter d in if ok then apply_setters rest d1 else (False, d1))"

definition encoder_setters ::
  "'e encoder_api \<Rightarrow> encoding_request \<Rightarrow> ('e \<Rightarrow> bool \<times> 'e) list" where
  "encoder_setters A q =
    [\<lambda>d. stream_encoder_set_verify A d (rq_verify q),
     \<lambda>d. stream_encoder_set_streamable_subset A d (rq_streamable_subset q),
     \<lambda>d. stream_encoder_set_channels A d (rq_channels q),
     \<lambda>d. stream_encoder_set_bits_per_sample A d (rq_bits_per_sample q),
     \<lambda>d. stream_encoder_set_sample_rate A d (rq_sample_rate q),
     \<lambda>d. stream_encoder_set_compression_level A d (rq_compression_level q)] @
    (case rq_block_size q of None \<Rightarrow> []
     | Some v \<Rightarrow> [\<lambda>d. stream_encoder_set_blocksize A d v]) @
    (case rq_ogg_serial_number q of None \<Rightarrow> []
     | Some v \<Rightarrow> [\<lambda>d. stream_encoder_set_ogg_serial_number A d (sint v)]) @
    (case rq_total_samples_estimate q of None \<Rightarrow> []
     | Some v \<Rightarrow> [\<lambda>d. stream_encoder_set_total_samples_estimate A d v])"

definition throw_thread_status :: "num_threads_status \<Rightarrow> jenv \<Rightarrow> jenv" where
  "throw_thread_status status e =
     (case status of
        NUM_THREADS_NOT_COMPILED \<Rightarrow> throw_unsupported_feature_exception
          (''Parallel FLAC encoding is unavailable because the bundled '' @
           ''libFLAC was built without pthread support.'') e
      | NUM_THREADS_ALREADY_INITIALIZED \<Rightarrow> throw_encode_exception
          ''FLAC encoder thread count was set after encoder initialisation.'' e
      | NUM_THREADS_TOO_MANY \<Rightarrow> throw_illegal_argument_exception
          ''Encoder thread count must be between 1 and 128.'' e
      | _ \<Rightarrow> throw_encode_exception
          ''libFLAC returned an unknown encoder thread configuration status.'' e)"

definition set_encoder_threads ::
  "'e encoder_api \<Rightarrow> jint \<Rightarrow> 'e \<Rightarrow> num_threads_status \<times> 'e" where
  "set_encoder_threads A num_threads d =
     (if num_threads \<noteq> 1 then stream_encoder_set_num_threads A d num_threads
      else (NUM_THREADS_OK, d))"

definition init_stream_encoder_for_container ::
  "'e encoder_api \<Rightarrow> 'e \<Rightarrow> target_kind \<Rightarrow> jint \<Rightarrow> 'e encoder_run" where
  "init_stream_encoder_for_container A d target container =
     stream_encoder_init A target (container = JFLAC_CONTAINER_OGG) d"

definition init_file_encoder_for_container ::
  "'e encoder_api \<Rightarrow> 'e \<Rightarrow> string \<Rightarrow> jint \<Rightarrow> 'e encoder_run" where
  "init_file_encoder_for_container A d filename container =
     stream_encoder_init A (FileTarget filename) (container = JFLAC_CONTAINER_OGG) d"

section \<open>Opening\<close>

definition zero_encode_context :: "'e encode_context" where
  "zero_encode_context = \<lparr>ec_encoder = None, ec_metadata_blocks = None, ec_metadata_count = 0,
     ec_channels = 0, ec_jvm = False, ec_output_stream = None, ec_output_write = False,
     ec_output_flush = False, ec_output_channel = None, ec_channel_read = False,
     ec_channel_write = False, ec_channel_position = False, ec_channel_seek = False,
     ec_channel_base_offset = 0, ec_handle = 0, ec_reference_count = 0, ec_released = False,
     ec_in_use = False\<rparr>"

text \<open>\<open>destroy_encode_context\<close> on the context of the call, and the failure result.\<close>

definition abandon_open ::
  "nat \<Rightarrow> 'e encode_context \<Rightarrow> (jenv \<Rightarrow> jenv) \<Rightarrow> 'e encode_registry \<Rightarrow> jenv \<Rightarrow>
   (jlong \<times> 'e encode_registry \<times> jenv) option" where
  "abandon_open a x report r e =
     (let (r1, e1) = destroy_encode_context (Some a) (new_encode_context x a r) e
      in Some (0, r1, report e1))"

definition prepare_encode_target ::
  "jvm \<Rightarrow> jobject option \<Rightarrow> jobject option \<Rightarrow> 'e encode_context \<Rightarrow> jenv \<Rightarrow>
   bool \<times> 'e encode_context \<times> jenv" where
  "prepare_encode_target J output_stream output_channel x e =
     (let (stream_ok, x1, e1) = (if output_stream \<noteq> None
            then prepare_encode_output_stream J x output_stream e else (True, x, e)) in
      if \<not> stream_ok then (False, x1, e1) else
      if output_channel \<noteq> None then prepare_encode_output_channel J x1 output_channel e1
      else (True, x1, e1))"

definition init_encode_target ::
  "'e encoder_api \<Rightarrow> 'e \<Rightarrow> string option \<Rightarrow> jobject option \<Rightarrow> jobject option \<Rightarrow> jint \<Rightarrow>
   'e encoder_run" where
  "init_encode_target A d utf8_path output_stream output_channel container =
     (if output_stream \<noteq> None then init_stream_encoder_for_container A d StreamTarget container
      else if output_channel \<noteq> None
      then init_stream_encoder_for_container A d ChannelTarget container
      else init_file_encoder_for_container A d (the utf8_path) container)"

text \<open>The context with its encoder: metadata, initialisation and registration.\<close>

definition start_encoder ::
  "jvm \<Rightarrow> 'e encoder_api \<Rightarrow> metadata_api \<Rightarrow> nat \<Rightarrow> string option \<Rightarrow> jobject option \<Rightarrow>
   jobject option \<Rightarrow> encoding_request \<Rightarrow> 'e \<Rightarrow> 'e encode_context \<Rightarrow> 'e encode_registry \<Rightarrow> jenv \<Rightarrow>
   (jlong \<times> 'e encode_registry \<times> jenv) option" where
  "start_encoder J A M a utf8_path output_stream output_channel q d x r e =
     (let (metadata_success, x1, e1) = build_request_metadata J M q x e in
      if \<not> metadata_success
      then abandon_open a x1 (\<lambda>e. if \<not> exception_check e
             then throw_encode_exception ''Failed to build FLAC metadata blocks.'' e else e) r e1 else
      let (attached, d1) = (if ec_metadata_count x1 > 0
            then stream_encoder_set_metadata A d (the (ec_metadata_blocks x1)) (ec_metadata_count x1)
            else (True, d));
          x2 = x1\<lparr>ec_encoder := Some d1\<rparr> in
      if \<not> attached
      then abandon_open a x2 (throw_encode_exception (snprintf_buffer
             (''Failed to attach FLAC metadata blocks: '' @ encoder_state_or_unknown A d1 @ ''.'')))
             r e1 else
      let (init_ok, d2, e2) = run_encoder_callbacks J x2
            (init_encode_target A d1 utf8_path output_stream output_channel (rq_container q)) e1;
          x3 = x2\<lparr>ec_encoder := Some d2\<rparr> in
      if \<not> init_ok
      then abandon_open a x3 (\<lambda>e. if \<not> exception_check e
             then throw_encode_exception (snprintf_buffer
                    (''Failed to initialize FLAC encoder output: '' @
                     encoder_state_or_unknown A d2 @ ''.'')) e else e) r e2 else
      (case register_encode_context J a (new_encode_context x3 a r) e2 of
         None \<Rightarrow> None
       | Some (handle, r1, e3) \<Rightarrow>
           if handle = 0
           then let (r2, e4) = destroy_encode_context (Some a) r1 e3
                in Some (0, r2, throw_encode_exception
                     ''Failed to register FLAC encoder handle.'' e4)
           else Some (handle, r1, e3)))"

definition open_encoder_internal ::
  "jvm \<Rightarrow> 'e encoder_api \<Rightarrow> metadata_api \<Rightarrow> nat option \<Rightarrow> string option \<Rightarrow> jobject option \<Rightarrow>
   jobject option \<Rightarrow> encoding_request option \<Rightarrow> 'e encode_registry \<Rightarrow> jenv \<Rightarrow>
   (jlong \<times> 'e encode_registry \<times> jenv) option" where
  "open_encoder_internal J A M address utf8_path output_stream output_channel request r e =
     (if utf8_path = None \<and> output_stream = None \<and> output_channel = None \<or> request = None
      then Some (0, r, throw_illegal_argument_exception
             ''Encoder output and request must not be null.'' e) else
      let q = the request;
          (read_ok, e1) = read_encoding_request J q e in
      if \<not> read_ok then Some (0, r, e1) else
      case address of
        None \<Rightarrow> Some (0, r, throw_encode_exception ''Failed to allocate encoder context.'' e1)
      | Some a \<Rightarrow>
      let x0 = zero_encode_context\<lparr>ec_channels := rq_channels q\<rparr>;
          (prepared, x1, e2) = prepare_encode_target J output_stream output_channel x0 e1 in
      if \<not> prepared then abandon_open a x1 id r e2 else
      let (encoder, e3) = new_encoder A e2 in
      (case encoder of
        None \<Rightarrow> abandon_open a x1
          (throw_encode_exception ''Failed to allocate FLAC encoder.'') r e3
      | Some d0 \<Rightarrow>
      let (status, d1) = set_encoder_threads A (rq_num_threads q) d0 in
      if status \<noteq> NUM_THREADS_OK
      then abandon_open a (x1\<lparr>ec_encoder := Some d1\<rparr>) (throw_thread_status status) r e3 else
      let (configured, d2) = apply_setters (encoder_setters A q) d1;
          x2 = x1\<lparr>ec_encoder := Some d2\<rparr> in
      if \<not> configured
      then abandon_open a x2 (throw_encode_exception (snprintf_buffer
             (''Failed to configure FLAC encoder: '' @ encoder_state_or_unknown A d2 @ ''.''))) r e3
      else start_encoder J A M a utf8_path output_stream output_channel q d2 x2 r e3))"

definition openEncoderFile ::
  "jvm \<Rightarrow> 'e encoder_api \<Rightarrow> metadata_api \<Rightarrow> nat option \<Rightarrow> string option \<Rightarrow>
   encoding_request option \<Rightarrow> 'e encode_registry \<Rightarrow> jenv \<Rightarrow>
   (jlong \<times> 'e encode_registry \<times> jenv) option" where
  "openEncoderFile J A M address path request r e =
     (let (ready, e1) = flac_api_ready J e in if \<not> ready then Some (0, r, e1) else
      if path = None \<or> request = None
      then Some (0, r, throw_illegal_argument_exception
             ''Encoder path and request must not be null.'' e1) else
      let (utf8_path, e2) = jstring_to_utf8 J path e1 in
      if utf8_path = None
      then Some (0, r, if \<not> exception_check e2
             then throw_encode_exception ''Failed to encode output file path to UTF-8.'' e2 else e2)
      else open_encoder_internal J A M address utf8_path None None request r e2)"

definition openEncoderStream ::
  "jvm \<Rightarrow> 'e encoder_api \<Rightarrow> metadata_api \<Rightarrow> nat option \<Rightarrow> jobject option \<Rightarrow>
   encoding_request option \<Rightarrow> 'e encode_registry \<Rightarrow> jenv \<Rightarrow>
   (jlong \<times> 'e encode_registry \<times> jenv) option" where
  "openEncoderStream J A M address output_stream request r e =
     (let (ready, e1) = flac_api_ready J e in if \<not> ready then Some (0, r, e1)
      else open_encoder_internal J A M address None output_stream None request r e1)"

definition openEncoderChannel ::
  "jvm \<Rightarrow> 'e encoder_api \<Rightarrow> metadata_api \<Rightarrow> nat option \<Rightarrow> jobject option \<Rightarrow>
   encoding_request option \<Rightarrow> 'e encode_registry \<Rightarrow> jenv \<Rightarrow>
   (jlong \<times> 'e encode_registry \<times> jenv) option" where
  "openEncoderChannel J A M address output_channel request r e =
     (let (ready, e1) = flac_api_ready J e in if \<not> ready then Some (0, r, e1)
      else open_encoder_internal J A M address None None output_channel request r e1)"

section \<open>Writing, finishing, releasing\<close>

text \<open>
  \<open>others\<close> is what other native calls do to the registry between the acquisition and the release.
  The call writes back its encoder and drops its reference.
\<close>

definition leave_encoder ::
  "('e encode_registry \<Rightarrow> 'e encode_registry) \<Rightarrow> nat \<Rightarrow> 'e encode_context \<Rightarrow> 'e encode_registry \<Rightarrow>
   jenv \<Rightarrow> 'e encode_registry \<times> jenv" where
  "leave_encoder others a x r e =
     release_encode_context_reference (Some a) (update_encode_context x a (others r)) e"

definition writeEncoderInterleaved ::
  "jvm \<Rightarrow> 'e encoder_api \<Rightarrow> ('e encode_registry \<Rightarrow> 'e encode_registry) \<Rightarrow> jlong \<Rightarrow>
   jint list option \<Rightarrow> jint \<Rightarrow> 'e encode_registry \<Rightarrow> jenv \<Rightarrow> 'e encode_registry \<times> jenv" where
  "writeEncoderInterleaved J A others handle samples frames r e =
     (let (context, r1, e1) = acquire_encode_context handle r e in
      case context of None \<Rightarrow> (r1, e1) | Some a \<Rightarrow>
      let x = the (er_contexts r1 a); d = the (ec_encoder x) in
      if sint frames < 0
      then let (r2, e2) = leave_encoder others a x r1 e1
           in (r2, throw_illegal_argument_exception ''Frame count must be non-negative.'' e2) else
      if frames = 0 then leave_encoder others a x r1 e1 else
      if samples = None
      then let (r2, e2) = leave_encoder others a x r1 e1
           in (r2, throw_illegal_argument_exception ''PCM sample buffer must not be null.'' e2) else
      if (of_nat (length (the samples)) :: u64) \<noteq> scast frames * ucast (ec_channels x)
      then let (r2, e2) = leave_encoder others a x r1 e1
           in (r2, throw_illegal_argument_exception
                ''Sample array length must equal frames * channels.'' e2) else
      let (elements_ok, e2) = plain_alloc J (Jni ''GetIntArrayElements'') e1 in
      if \<not> elements_ok
      then let (r2, e3) = leave_encoder others a x r1 e2
           in (r2, throw_encode_exception ''Failed to access PCM samples for encoding.'' e3) else
      let (success, d1, e3) = run_encoder_callbacks J x
            (stream_encoder_process_interleaved A d (the samples) frames) e2;
          (r2, e4) = leave_encoder others a (x\<lparr>ec_encoder := Some d1\<rparr>) r1 e3 in
      if \<not> success \<and> \<not> exception_check e3
      then (r2, throw_encode_exception (snprintf_buffer
             (''FLAC encoding failed while processing PCM: '' @ encoder_state_or_unknown A d1 @
              ''.'')) e4)
      else (r2, e4))"

definition finishEncoder ::
  "jvm \<Rightarrow> 'e encoder_api \<Rightarrow> ('e encode_registry \<Rightarrow> 'e encode_registry) \<Rightarrow> jlong \<Rightarrow>
   'e encode_registry \<Rightarrow> jenv \<Rightarrow> 'e encode_registry \<times> jenv" where
  "finishEncoder J A others handle r e =
     (let (context, r1, e1) = acquire_encode_context handle r e in
      case context of None \<Rightarrow> (r1, e1) | Some a \<Rightarrow>
      let (removed, r2) = remove_encode_context handle r1;
          x = the (er_contexts r2 a);
          (success, d1, e2) = run_encoder_callbacks J x (stream_encoder_finish A (the (ec_encoder x))) e1;
          e3 = (if success \<and> ec_output_stream x \<noteq> None \<and> ec_output_flush x
                then java_call J OutputFlush e2 else e2);
          (r3, e4) = leave_encoder others a (x\<lparr>ec_encoder := Some d1\<rparr>) r2 e3 in
      if exception_check e4 then (r3, e4) else
      if \<not> success
      then (r3, throw_encode_exception (snprintf_buffer
             (''Failed to finalize FLAC encoding: '' @ encoder_state_or_unknown A d1 @ ''.'')) e4)
      else (r3, e4))"

definition releaseEncoder ::
  "jlong \<Rightarrow> 'e encode_registry \<Rightarrow> jenv \<Rightarrow> 'e encode_registry \<times> jenv" where
  "releaseEncoder handle r e =
     (let (context, r1) = remove_encode_context handle r in destroy_encode_context context r1 e)"

definition activeEncoderContextCount :: "'e encode_registry \<Rightarrow> jlong" where
  "activeEncoderContextCount r = active_encode_context_count r"

end
