(* ===== verification/Metadata_Edit.thy ===== *)
theory Metadata_Edit
  imports Encode_Session
begin

text \<open>
  Editing the metadata of an existing file (\<open>writeMetadata\<close>, \<open>throw_metadata_chain_edit_exception\<close>
  and \<open>metadata_chain_status_name\<close> of \<open>jflac_jni.c\<close>). libFLAC's chain and the iterator on it are one
  abstract state, the parameter \<open>'c\<close>. The call's own state says which of the two objects exist; a
  libFLAC call on an object that does not exist sets the fault flag. Every write of the chain to the
  file is recorded with the chain as it was, the two options, and libFLAC's answer.
\<close>

section \<open>libFLAC's metadata chain\<close>

datatype chain_status =
    CHAIN_OK | CHAIN_ILLEGAL_INPUT | CHAIN_ERROR_OPENING_FILE | CHAIN_NOT_A_FLAC_FILE
  | CHAIN_NOT_WRITABLE | CHAIN_BAD_METADATA | CHAIN_READ_ERROR | CHAIN_SEEK_ERROR
  | CHAIN_WRITE_ERROR | CHAIN_RENAME_ERROR | CHAIN_UNLINK_ERROR | CHAIN_MEMORY_ALLOCATION_ERROR
  | CHAIN_INTERNAL_ERROR | CHAIN_INVALID_CALLBACKS | CHAIN_READ_WRITE_MISMATCH
  | CHAIN_WRONG_WRITE_CALL | CHAIN_OTHER nat

record 'c chain_api =
  metadata_chain_new :: 'c
  metadata_chain_read :: "'c \<Rightarrow> string \<Rightarrow> bool \<times> 'c"
  metadata_chain_status :: "'c \<Rightarrow> chain_status"
  metadata_chain_write :: "'c \<Rightarrow> bool \<Rightarrow> bool \<Rightarrow> bool \<times> 'c"
  metadata_iterator_init :: "'c \<Rightarrow> 'c"
  metadata_iterator_get_block :: "'c \<Rightarrow> flac_block option"
  metadata_iterator_next :: "'c \<Rightarrow> bool \<times> 'c"
  metadata_iterator_delete_block :: "'c \<Rightarrow> bool \<Rightarrow> bool \<times> 'c"
  metadata_iterator_insert_block_after :: "'c \<Rightarrow> flac_block \<Rightarrow> bool \<times> 'c"

record 'c edit_state =
  es_chain :: "'c option"
  es_iterator :: bool
  es_fault :: bool
  es_writes :: "('c \<times> bool \<times> bool \<times> bool) list"

definition no_edit :: "'c edit_state" where
  "no_edit = \<lparr>es_chain = None, es_iterator = False, es_fault = False, es_writes = []\<rparr>"

text \<open>A call on the chain, and one on the iterator.\<close>

definition chain_call :: "('c \<Rightarrow> bool \<times> 'c) \<Rightarrow> 'c edit_state \<Rightarrow> bool \<times> 'c edit_state" where
  "chain_call f s =
     (case es_chain s of
        None \<Rightarrow> (False, s\<lparr>es_fault := True\<rparr>)
      | Some c \<Rightarrow> let (ok, c1) = f c in (ok, s\<lparr>es_chain := Some c1\<rparr>))"

definition iterator_call :: "('c \<Rightarrow> bool \<times> 'c) \<Rightarrow> 'c edit_state \<Rightarrow> bool \<times> 'c edit_state" where
  "iterator_call f s = (if es_iterator s then chain_call f s else (False, s\<lparr>es_fault := True\<rparr>))"

definition metadata_chain_delete :: "'c edit_state \<Rightarrow> 'c edit_state" where
  "metadata_chain_delete s =
     s\<lparr>es_chain := None, es_fault := es_fault s \<or> es_chain s = None\<rparr>"

definition metadata_iterator_delete :: "'c edit_state \<Rightarrow> 'c edit_state" where
  "metadata_iterator_delete s =
     s\<lparr>es_iterator := False, es_fault := es_fault s \<or> \<not> es_iterator s\<rparr>"

section \<open>Errors\<close>

fun metadata_chain_status_name :: "chain_status \<Rightarrow> string" where
  "metadata_chain_status_name CHAIN_OK = ''OK''"
| "metadata_chain_status_name CHAIN_ILLEGAL_INPUT = ''ILLEGAL_INPUT''"
| "metadata_chain_status_name CHAIN_ERROR_OPENING_FILE = ''ERROR_OPENING_FILE''"
| "metadata_chain_status_name CHAIN_NOT_A_FLAC_FILE = ''NOT_A_FLAC_FILE''"
| "metadata_chain_status_name CHAIN_NOT_WRITABLE = ''NOT_WRITABLE''"
| "metadata_chain_status_name CHAIN_BAD_METADATA = ''BAD_METADATA''"
| "metadata_chain_status_name CHAIN_READ_ERROR = ''READ_ERROR''"
| "metadata_chain_status_name CHAIN_SEEK_ERROR = ''SEEK_ERROR''"
| "metadata_chain_status_name CHAIN_WRITE_ERROR = ''WRITE_ERROR''"
| "metadata_chain_status_name CHAIN_RENAME_ERROR = ''RENAME_ERROR''"
| "metadata_chain_status_name CHAIN_UNLINK_ERROR = ''UNLINK_ERROR''"
| "metadata_chain_status_name CHAIN_MEMORY_ALLOCATION_ERROR = ''MEMORY_ALLOCATION_ERROR''"
| "metadata_chain_status_name CHAIN_INTERNAL_ERROR = ''INTERNAL_ERROR''"
| "metadata_chain_status_name CHAIN_INVALID_CALLBACKS = ''INVALID_CALLBACKS''"
| "metadata_chain_status_name CHAIN_READ_WRITE_MISMATCH = ''READ_WRITE_MISMATCH''"
| "metadata_chain_status_name CHAIN_WRONG_WRITE_CALL = ''WRONG_WRITE_CALL''"
| "metadata_chain_status_name (CHAIN_OTHER n) = ''UNKNOWN''"

definition throw_metadata_chain_edit_exception ::
  "'c chain_api \<Rightarrow> string \<Rightarrow> 'c edit_state \<Rightarrow> jenv \<Rightarrow> 'c edit_state \<times> jenv" where
  "throw_metadata_chain_edit_exception C action s e =
     (let status = (case es_chain s of None \<Rightarrow> CHAIN_INTERNAL_ERROR
                    | Some c \<Rightarrow> metadata_chain_status C c)
      in (s\<lparr>es_fault := es_fault s \<or> es_chain s = None\<rparr>,
          throw_metadata_edit_exception (snprintf_buffer
            (action @ '': '' @ metadata_chain_status_name status @ ''.'')) e))"

section \<open>The steps of an edit\<close>

text \<open>The clean-up of a failure after the iterator exists, without and with libFLAC's status.\<close>

definition close_edit :: "'c edit_state \<Rightarrow> 'c edit_state" where
  "close_edit s = metadata_chain_delete (metadata_iterator_delete s)"

definition fail_edit ::
  "'c chain_api \<Rightarrow> string \<Rightarrow> 'c edit_state \<Rightarrow> jenv \<Rightarrow> 'c edit_state \<times> jenv" where
  "fail_edit C action s e =
     (let (s1, e1) = throw_metadata_chain_edit_exception C action (metadata_iterator_delete s) e
      in (metadata_chain_delete s1, e1))"

text \<open>The chain is read and an iterator stands on its STREAMINFO block.\<close>

definition open_chain ::
  "jvm \<Rightarrow> 'c chain_api \<Rightarrow> string \<Rightarrow> 'c edit_state \<Rightarrow> jenv \<Rightarrow> bool \<times> 'c edit_state \<times> jenv" where
  "open_chain J C utf8_path s e =
     (let (chain_ok, e1) = plain_alloc J (Jni ''metadata_chain_new'') e in
      if \<not> chain_ok
      then (False, s,
        throw_metadata_edit_exception ''Failed to allocate FLAC metadata chain.'' e1) else
      let s1 = s\<lparr>es_chain := Some (metadata_chain_new C)\<rparr>;
          (read_ok, s2) = chain_call (\<lambda>c. metadata_chain_read C c utf8_path) s1 in
      if \<not> read_ok
      then let (s3, e2) = throw_metadata_chain_edit_exception C
                 ''Failed to read FLAC metadata for editing'' s2 e1
           in (False, metadata_chain_delete s3, e2) else
      let (iterator_ok, e2) = plain_alloc J (Jni ''metadata_iterator_new'') e1 in
      if \<not> iterator_ok
      then (False, metadata_chain_delete s2,
        throw_metadata_edit_exception ''Failed to allocate FLAC metadata iterator.'' e2) else
      let (initialised, s3) = iterator_call (\<lambda>c. (True, metadata_iterator_init C c))
            (s2\<lparr>es_iterator := True\<rparr>);
          first_block = (case es_chain s3 of None \<Rightarrow> None
                         | Some c \<Rightarrow> metadata_iterator_get_block C c) in
      if (case first_block of None \<Rightarrow> True | Some b \<Rightarrow> bl_type b \<noteq> METADATA_TYPE_STREAMINFO)
      then (False, close_edit s3, throw_metadata_edit_exception
              ''FLAC file does not contain a leading STREAMINFO metadata block.'' e2)
      else (True, s3, e2))"

text \<open>The loop over the old blocks; None when the fuel is used up.\<close>

fun delete_old_blocks ::
  "'c chain_api \<Rightarrow> nat \<Rightarrow> 'c edit_state \<Rightarrow> (bool \<times> 'c edit_state) option" where
  "delete_old_blocks C 0 s = None"
| "delete_old_blocks C (Suc fuel) s =
     (let (moved, s1) = iterator_call (metadata_iterator_next C) s in
      if \<not> moved then Some (True, s1) else
      let (deleted, s2) = iterator_call (\<lambda>c. metadata_iterator_delete_block C c False) s1 in
      if \<not> deleted then Some (False, s2) else delete_old_blocks C fuel s2)"

definition edit_request_methods :: "string list" where
  "edit_request_methods =
    [''getCommentEntries'', ''getPictures'', ''getApplicationBlocks'', ''getSeekTables'',
     ''getCueSheets'', ''getPaddingBlocks'', ''getUnknownBlocks'', ''getMetadataBlockTypes'',
     ''getMetadataBlockValues'']"

definition read_edit_request :: "jvm \<Rightarrow> jenv \<Rightarrow> bool \<times> jenv" where
  "read_edit_request J e =
     (let (class_ok, e1) = plain_alloc J (Jni ''GetObjectClass'') e in
      if \<not> class_ok then (False, e1) else
      let (methods_ok, e2) = find_instance_methods J edit_request_methods e1 in
      if \<not> methods_ok then (False, e2) else call_getters J edit_request_methods e2)"

text \<open>The chain takes over a block it accepted.\<close>

definition transfer_block :: "nat \<Rightarrow> jenv \<Rightarrow> jenv" where
  "transfer_block a e = e\<lparr>live_blocks := remove1 a (live_blocks e)\<rparr>"

fun insert_blocks ::
  "'c chain_api \<Rightarrow> nat \<Rightarrow> u32 \<Rightarrow> 'e encode_context \<Rightarrow> 'c edit_state \<Rightarrow> jenv \<Rightarrow>
   bool \<times> 'e encode_context \<times> 'c edit_state \<times> jenv" where
  "insert_blocks C 0 i x s e = (True, x, s, e)"
| "insert_blocks C (Suc n) i x s e =
     (case the (ec_metadata_blocks x) ! unat i of
        None \<Rightarrow> insert_blocks C n (i + 1) x s e
      | Some a \<Rightarrow>
          (let (inserted, s1) = iterator_call
                 (\<lambda>c. metadata_iterator_insert_block_after C c (block_at e a)) s in
           if \<not> inserted then (False, x, s1, e)
           else insert_blocks C n (i + 1) (set_slot i None x) s1 (transfer_block a e)))"

definition write_chain ::
  "'c chain_api \<Rightarrow> bool \<Rightarrow> bool \<Rightarrow> 'c edit_state \<Rightarrow> jenv \<Rightarrow> 'c edit_state \<times> jenv" where
  "write_chain C use_padding preserve_file_stats s e =
     (let (written, s1) = chain_call
            (\<lambda>c. metadata_chain_write C c use_padding preserve_file_stats) s;
          s2 = s1\<lparr>es_writes := (case es_chain s of None \<Rightarrow> es_writes s1
             | Some c \<Rightarrow> es_writes s1 @ [(c, use_padding, preserve_file_stats, written)])\<rparr> in
      if \<not> written then fail_edit C ''Failed to write FLAC metadata edits'' s2 e
      else (close_edit s2, e))"

text \<open>The replacement: building the new blocks, inserting them, writing the chain.\<close>

definition replace_blocks ::
  "jvm \<Rightarrow> 'c chain_api \<Rightarrow> metadata_api \<Rightarrow> metadata_request \<Rightarrow> bool \<Rightarrow> bool \<Rightarrow>
   'c edit_state \<Rightarrow> jenv \<Rightarrow> 'c edit_state \<times> jenv" where
  "replace_blocks J C M q use_padding preserve_file_stats s e =
     (let x = (zero_encode_context :: unit encode_context);
          (metadata_success, x1, e1) = build_request_metadata J M q x e in
      if \<not> metadata_success
      then let (x2, e2) = destroy_metadata_blocks x1 e1
           in (close_edit s, if \<not> exception_check e2
                then throw_metadata_edit_exception ''Failed to build FLAC metadata edit blocks.'' e2
                else e2) else
      let (initialised, s1) = iterator_call (\<lambda>c. (True, metadata_iterator_init C c)) s;
          (inserted, x2, s2, e2) = insert_blocks C (unat (ec_metadata_count x1)) 0 x1 s1 e1;
          (x3, e3) = destroy_metadata_blocks x2 e2 in
      if \<not> inserted then fail_edit C ''Failed to insert FLAC metadata edit block'' s2 e3
      else write_chain C use_padding preserve_file_stats s2 e3)"

section \<open>The operation\<close>

definition writeMetadata ::
  "jvm \<Rightarrow> 'c chain_api \<Rightarrow> metadata_api \<Rightarrow> nat \<Rightarrow> string option \<Rightarrow> metadata_request option \<Rightarrow>
   bool \<Rightarrow> bool \<Rightarrow> jenv \<Rightarrow> ('c edit_state \<times> jenv) option" where
  "writeMetadata J C M fuel path request use_padding preserve_file_stats e =
     (let (ready, e1) = flac_api_ready J e in
      if \<not> ready then Some (no_edit, e1) else
      if path = None \<or> request = None
      then Some (no_edit, throw_illegal_argument_exception
             ''Metadata edit path and request must not be null.'' e1) else
      let (utf8_path, e2) = jstring_to_utf8 J path e1 in
      if utf8_path = None
      then Some (no_edit, if \<not> exception_check e2
             then throw_metadata_edit_exception ''Failed to encode file path to UTF-8.'' e2
             else e2) else
      let (opened, s3, e3) = open_chain J C (the utf8_path) no_edit e2 in
      if \<not> opened then Some (s3, e3) else
      (case delete_old_blocks C fuel s3 of
         None \<Rightarrow> None
       | Some (deleted, s4) \<Rightarrow>
           if \<not> deleted
           then Some (fail_edit C ''Failed to delete existing FLAC metadata block'' s4 e3) else
           let (request_ok, e4) = read_edit_request J e3 in
           if \<not> request_ok then Some (close_edit s4, e4)
           else Some (replace_blocks J C M (the request) use_padding preserve_file_stats s4 e4)))"

end
