(* ===== verification/Metadata_Guarantees.thy ===== *)
theory Metadata_Guarantees
  imports Metadata_Ownership
begin

text \<open>
  What building metadata guarantees: ownership, order and types of the blocks, and the fixed-width
  text fields. A small libFLAC metadata API and a request instantiate the parameters for the samples.
\<close>

section \<open>A sample\<close>

definition empty_data :: "u32 \<Rightarrow> block_data" where
  "empty_data t =
     (if t = METADATA_TYPE_APPLICATION then ApplicationData [0, 0, 0, 0] []
      else if t = METADATA_TYPE_SEEKTABLE then SeekTableData []
      else if t = METADATA_TYPE_PADDING then PaddingData else UnknownData [])"

definition sample_metadata :: metadata_api where
  "sample_metadata = \<lparr>mo_new = (\<lambda>t. \<lparr>bl_type = t, bl_length = 0, bl_data = empty_data t\<rparr>),
     mo_clone = (\<lambda>b. b),
     vorbiscomment_set_vendor_string = (\<lambda>b s. (True, b)),
     vorbiscomment_append_comment = (\<lambda>b s. (True, b\<lparr>bl_length := bl_length b + of_nat (length s)\<rparr>)),
     picture_set_mime_type = (\<lambda>b s. (True, b)), picture_set_description = (\<lambda>b s. (True, b)),
     picture_set_data = (\<lambda>b s. (True, b)),
     application_set_data = (\<lambda>b d. (True, b\<lparr>bl_length := 4 + of_nat (length d)\<rparr>)),
     seektable_resize_points = (\<lambda>b n. (True, b\<lparr>bl_length := 18 * n\<rparr>)),
     seektable_set_point = (\<lambda>b i p. b), seektable_is_legal = (\<lambda>b. True),
     cuesheet_resize_tracks = (\<lambda>b n. (True, b)),
     cuesheet_track_resize_indices = (\<lambda>b i n. (True, b)),
     cuesheet_is_legal = (\<lambda>b cd. (True, None))\<rparr>"

lemma sample_metadata_type_preserving: "type_preserving sample_metadata"
  by (simp add: type_preserving_def keeps_def sample_metadata_def)

text \<open>Padding of 16 bytes, then a block of the reserved type 9 with three bytes.\<close>

definition sample_metadata_request :: metadata_request where
  "sample_metadata_request = \<lparr>mr_comment_entries = None, mr_pictures = None,
     mr_application_blocks = None, mr_seek_tables = None, mr_cue_sheets = None,
     mr_padding_blocks = None, mr_unknown_blocks = None, mr_block_types = Some [1, 9],
     mr_block_values = Some [Some (JPadding \<lparr>jpad_length = 16\<rparr>),
       Some (JUnknown \<lparr>ju_type = 9, ju_data = Some [1, 2, 3]\<rparr>)]\<rparr>"

lemma sample_jvm_steps:
  "java_try sample_jvm c e = (True, e\<lparr>calls := c # calls e\<rparr>)"
  "plain_alloc sample_jvm c e = (True, e\<lparr>calls := c # calls e\<rparr>)"
  "pending e = None \<Longrightarrow> call_getter sample_jvm g e = (True, e\<lparr>calls := Jni g # calls e\<rparr>)"
  by (simp_all add: java_try_def java_call_def plain_alloc_def call_getter_def sample_jvm_def
      exception_check_def Let_def)

lemma sample_padding:
  assumes "pending e = None"
  shows "\<exists>e'. build_ordered_metadata_block sample_jvm sample_metadata 1
      (Some (JPadding \<lparr>jpad_length = 16\<rparr>)) e = (True, Some (fresh_block e), e') \<and>
    live_blocks e' = fresh_block e # live_blocks e \<and> pending e' = None"
  using assms
  by (simp add: build_ordered_metadata_block_def dispatch_ordered_block_def metadata_type_defs
      build_typed_def ensure_instance_of_def sample_jvm_steps build_padding_block_def
      object_methods_def java_seq.simps JFLAC_METADATA_MAX_BLOCK_LENGTH_def metadata_object_new_def
      alloc_block_def publish_block_def ensure_metadata_block_length_fits_def fresh_block_def)

lemma sample_unknown:
  assumes "pending e = None"
  shows "\<exists>e'. build_ordered_metadata_block sample_jvm sample_metadata 9
      (Some (JUnknown \<lparr>ju_type = 9, ju_data = Some [1, 2, 3]\<rparr>)) e = (True, Some (fresh_block e), e') \<and>
    live_blocks e' = fresh_block e # live_blocks e \<and> pending e' = None"
  using assms
  by (simp add: build_ordered_metadata_block_def dispatch_ordered_block_def metadata_type_defs
      build_typed_def ensure_instance_of_def sample_jvm_steps build_unknown_metadata_block_def
      object_methods_def java_seq.simps call_getters.simps JFLAC_METADATA_MAX_BLOCK_LENGTH_def
      JFLAC_UNKNOWN_METADATA_MIN_TYPE_def JFLAC_UNKNOWN_METADATA_MAX_TYPE_def
      metadata_object_clone_def alloc_block_def sample_metadata_def
      ensure_metadata_block_length_fits_def fresh_block_def)

lemma sample_metadata_run:
  fixes x :: "'e encode_context"
  assumes "ec_metadata_blocks x = None"
  shows "\<exists>x' e'. build_request_metadata sample_jvm sample_metadata sample_metadata_request x
      initial_env = (True, x', e') \<and> ec_metadata_blocks x' = Some [Some 1, Some 2] \<and>
    ec_metadata_count x' = 2"
proof -
  let ?steps = "[Jni ''GetObjectArrayElement'', Jni ''GetIntArrayRegion'', Jni ''PushLocalFrame'']"
  let ?x0 = "x\<lparr>ec_metadata_blocks := Some [None, None], ec_metadata_count := 2\<rparr>"
  let ?e0 = "initial_env\<lparr>calls := ?steps @ [Malloc 16]\<rparr>"
  have free: "fresh_block ?e0 = 1" "pending ?e0 = None"
    by (simp_all add: fresh_block_def initial_env_def)
  from sample_padding [OF free(2)] obtain e1 where
    b1: "build_ordered_metadata_block sample_jvm sample_metadata 1
      (Some (JPadding \<lparr>jpad_length = 16\<rparr>)) ?e0 = (True, Some 1, e1)"
    and l1: "live_blocks e1 = [1]" "pending e1 = None"
    using free(1) by (auto simp: initial_env_def)
  let ?e1 = "e1\<lparr>calls := ?steps @ calls e1\<rparr>"
  have free1: "fresh_block ?e1 = 2" "pending ?e1 = None" using l1 by (simp_all add: fresh_block_def)
  from sample_unknown [OF free1(2)] obtain e2 where
    b2: "build_ordered_metadata_block sample_jvm sample_metadata 9
      (Some (JUnknown \<lparr>ju_type = 9, ju_data = Some [1, 2, 3]\<rparr>)) ?e1 = (True, Some 2, e2)"
    and l2: "pending e2 = None"
    using free1(1) by auto
  have start: "start_metadata_table sample_jvm (Suc (Suc 0)) x initial_env =
      (True, ?x0, initial_env\<lparr>calls := [Malloc 16]\<rparr>)"
    by (simp add: start_metadata_table_def sample_jvm_steps initial_env_def)
  have "build_ordered_loop sample_jvm sample_metadata
      [(1, Some (JPadding \<lparr>jpad_length = 16\<rparr>)),
       (9, Some (JUnknown \<lparr>ju_type = 9, ju_data = Some [1, 2, 3]\<rparr>))] ?x0 0
      (initial_env\<lparr>calls := [Malloc 16]\<rparr>) =
    (True, x\<lparr>ec_metadata_blocks := Some [Some 1, Some 2], ec_metadata_count := 2\<rparr>, e2)"
    using b1 b2 l1 l2
    by (simp add: sample_jvm_steps set_slot_def exception_check_def initial_env_def)
  with start show ?thesis
    by (simp add: build_request_metadata_def build_ordered_metadata_blocks_def array_elements_def
        sample_metadata_request_def del: build_ordered_loop.simps)
qed

section \<open>Facts\<close>

lemma ordered_types_cases:
  "ordered_types t = (if 1 \<le> t \<and> t \<le> 6 then {t} else {u. 7 \<le> u \<and> u \<le> 126})"
proof -
  have "{u :: u32. 7 \<le> sint u \<and> sint u \<le> 126} = {u. 7 \<le> u \<and> u \<le> 126}"
  proof (intro Collect_cong iffI)
    fix u :: u32
    assume "7 \<le> sint u \<and> sint u \<le> 126"
    then show "7 \<le> u \<and> u \<le> 126" by (simp add: word_le_def sint_nonneg_uint)
  next
    fix u :: u32
    assume u: "7 \<le> u \<and> u \<le> 126"
    then have "uint u \<le> 126" by (simp add: word_le_def)
    moreover have "- (2 ^ 31) \<le> uint u" by (rule order_trans [of _ 0]) simp_all
    ultimately have "sint u = uint u"
      by (simp add: sint_uint signed_take_bit_int_eq_self)
    with u show "7 \<le> sint u \<and> sint u \<le> 126" by (simp add: word_le_def)
  qed
  moreover have "t \<in> {1, 2, 3, 4, 5, 6} \<longleftrightarrow> 1 \<le> t \<and> t \<le> 6"
  proof
    assume "1 \<le> t \<and> t \<le> 6"
    then have "1 \<le> unat t" "unat t \<le> 6" by (simp_all add: word_le_nat_alt)
    then have "unat t \<in> {1, 2, 3, 4, 5, 6}" by auto
    then have "of_nat (unat t) \<in> (of_nat ` {1, 2, 3, 4, 5, 6} :: u32 set)" by (rule imageI)
    moreover have "of_nat (unat t) = t" by simp
    ultimately show "t \<in> {1, 2, 3, 4, 5, 6}" by (simp only: image_insert image_empty of_nat_numeral
          of_nat_1)
  qed auto
  ultimately show ?thesis
    by (simp add: ordered_types_def metadata_type_defs JFLAC_UNKNOWN_METADATA_MIN_TYPE_def
        JFLAC_UNKNOWN_METADATA_MAX_TYPE_def)
qed

lemma fixed_ascii_length_padded:
  assumes "length s < n" "CHR 0x00 \<notin> set s"
  shows "fixed_ascii_length (s @ replicate (n - length s) (CHR 0x00)) n = length s"
proof -
  let ?f = "s @ replicate (n - length s) (CHR 0x00)"
  have "fixed_ascii_length_from ?f n (length s - k) = length s" if "k \<le> length s" for k
    using that
  proof (induction k)
    case 0
    show ?case using assms(1) by (subst fixed_ascii_length_from.simps) (simp add: nth_append)
  next
    case (Suc k)
    then have "length s - Suc k < length s" by simp
    moreover from this have "s ! (length s - Suc k) \<in> set s" by simp
    with assms(2) have "s ! (length s - Suc k) \<noteq> CHR 0x00" by metis
    ultimately have "?f ! (length s - Suc k) \<noteq> CHR 0x00" by (simp add: nth_append)
    moreover have "Suc (length s - Suc k) = length s - k" "length s - Suc k < n"
      using Suc.prems assms(1) by simp_all
    ultimately show ?case
      using Suc by (subst fixed_ascii_length_from.simps) simp
  qed
  from this [of "length s"] show ?thesis by (simp add: fixed_ascii_length_def)
qed

section \<open>Building the table\<close>

lemma build_request_metadata_ok:
  assumes "ec_metadata_blocks x = None" "length (array_elements (mr_block_types r)) < 4294967296"
  shows "metadata_ok (live_blocks e) x e (build_request_metadata J M r x e)"
proof -
  obtain ok x' e' where "build_ordered_metadata_blocks J M r x e = (ok, x', e')" by (metis surj_pair)
  with build_ordered_metadata_blocks_ok [OF assms this] 
    build_metadata_blocks_ok [OF assms(1), of e J M r]
  show ?thesis by (simp add: build_request_metadata_def)
qed

text \<open>
  C30: building the metadata of a request neither leaks nor loses an object, whatever Java and
  libFLAC answer at each step. On success the context owns exactly the new objects and each fits the
  24-bit length field; on failure everything that was built is deleted again and nothing else.
\<close>

theorem build_request_metadata_owns:
  assumes "ec_metadata_blocks x = None" "length (array_elements (mr_block_types r)) < 4294967296"
    "build_request_metadata J M r x e = (ok, x', e')"
  shows "mset (live_blocks e') = mset (live_blocks e) + mset (owned_blocks x') \<and>
    (\<not> ok \<longrightarrow> owned_blocks x' = []) \<and>
    (ok \<longrightarrow> (\<forall>a \<in> set (owned_blocks x'). uint (bl_length (block_at e' a)) < 2 ^ 24)) \<and>
    global_refs e' = global_refs e \<and> live_encoders e' = live_encoders e \<and>
    live_decoders e' = live_decoders e"
proof -
  have "metadata_ok (live_blocks e) x e (ok, x', e')"
    using build_request_metadata_ok [OF assms(1,2), of e J M] assms(3) by simp
  moreover have "uint w < 2 ^ 24" if "w \<le> JFLAC_METADATA_MAX_BLOCK_LENGTH" for w :: u32
    using that by (simp add: JFLAC_METADATA_MAX_BLOCK_LENGTH_def word_le_def)
  ultimately show ?thesis
    by (auto simp: metadata_ok_def finished_def fitting_def same_refs_def split: if_splits)
qed

lemma build_request_metadata_owns_witness:
  "\<exists>x' e'. build_request_metadata sample_jvm sample_metadata sample_metadata_request
      (sample_encode_context\<lparr>ec_metadata_blocks := None\<rparr>) initial_env = (True, x', e') \<and>
    mset (live_blocks e') = {#1, 2#}"
proof -
  let ?x = "sample_encode_context\<lparr>ec_metadata_blocks := None\<rparr>"
  obtain x' e' where run: "build_request_metadata sample_jvm sample_metadata sample_metadata_request
      ?x initial_env = (True, x', e')"
    and table: "ec_metadata_blocks x' = Some [Some 1, Some 2]" "ec_metadata_count x' = 2"
    using sample_metadata_run [of ?x] by auto
  from build_request_metadata_owns [OF _ _ run] table run show ?thesis
    by (auto simp: array_elements_def sample_metadata_request_def owned_blocks_def take_Cons'
        initial_env_def)
qed

text \<open>
  C31: the ordered form of a request is an exact replacement list. If building succeeds, the table
  has one block for each entry, in the caller's order, none missing, and the block's type is the
  requested one, or a reserved type 7 to 126 for every other type code; given that libFLAC's
  metadata calls do not change the type of an object.
\<close>

theorem ordered_metadata_in_order:
  assumes "ec_metadata_blocks x = None" "length (array_elements (mr_block_types r)) < 4294967296"
    "array_elements (mr_block_types r) \<noteq> []" "type_preserving M"
    "build_request_metadata J M r x e = (True, x', e')"
  shows "\<exists>slots. ec_metadata_blocks x' = Some slots \<and>
    length slots = length (array_elements (mr_block_types r)) \<and>
    (\<forall>i < length slots. \<exists>a. slots ! i = Some a \<and>
       (let t = array_elements (mr_block_types r) ! i; u = bl_type (block_at e' a) in
        if 1 \<le> t \<and> t \<le> 6 then u = t else 7 \<le> u \<and> u \<le> 126))"
proof -
  have "build_ordered_metadata_blocks J M r x e = (True, x', e')"
    using assms(3,5) by (simp add: build_request_metadata_def)
  from build_ordered_metadata_blocks_ok [OF assms(1,2) this] assms(3,4) obtain slots where
    s: "ec_metadata_blocks x' = Some slots" "typed_slots (array_elements (mr_block_types r)) slots e'"
    by auto
  have "(if 1 \<le> t \<and> t \<le> 6 then u = t else 7 \<le> u \<and> u \<le> 126)" if "u \<in> ordered_types t"
    for t u :: u32
    using that ordered_types_cases [of t] by (auto split: if_splits)
  with s show ?thesis by (fastforce simp: typed_slots_def list_all2_conv_all_nth Let_def)
qed

lemma ordered_metadata_in_order_witness:
  "\<exists>x' e'. build_request_metadata sample_jvm sample_metadata sample_metadata_request
      (sample_encode_context\<lparr>ec_metadata_blocks := None\<rparr>) initial_env = (True, x', e') \<and>
    bl_type (block_at e' 1) = 1"
proof -
  let ?x = "sample_encode_context\<lparr>ec_metadata_blocks := None\<rparr>"
  obtain x' e' where run: "build_request_metadata sample_jvm sample_metadata sample_metadata_request
      ?x initial_env = (True, x', e')"
    and table: "ec_metadata_blocks x' = Some [Some 1, Some 2]" "ec_metadata_count x' = 2"
    using sample_metadata_run [of ?x] by auto
  from ordered_metadata_in_order [OF _ _ _ sample_metadata_type_preserving run] table
  have "bl_type (block_at e' 1) = 1"
    by (auto simp: array_elements_def sample_metadata_request_def Let_def All_less_Suc)
  with run show ?thesis by blast
qed

section \<open>Fixed-width text\<close>

text \<open>
  C32: what \<open>copy_fixed_ascii_field\<close> stores, \<open>fixed_ascii_length\<close> finds again: the field has the
  fixed size, the length read from it is that of the text, and the bytes are the text's. A text is
  refused exactly when it does not fit with its terminating NUL.
\<close>

theorem fixed_ascii_roundtrip:
  "case copy_fixed_ascii_field n (c_string text) of
     None \<Rightarrow> n \<le> length (c_string text)
   | Some field \<Rightarrow> length field = n \<and> length (c_string text) < n \<and>
       take (fixed_ascii_length field n) field = c_string text"
proof (cases "length (c_string text) < n")
  case True
  let ?s = "c_string text"
  have "CHR 0x00 \<notin> set ?s" by (auto simp: c_string_def dest: set_takeWhileD)
  with fixed_ascii_length_padded [OF True this] show ?thesis
    using True by (simp add: copy_fixed_ascii_field_def)
qed (simp add: copy_fixed_ascii_field_def)

end
