(* ===== verification/Edit_Guarantees.thy ===== *)
theory Edit_Guarantees
  imports Metadata_Edit Metadata_Guarantees
begin

text \<open>
  What an edit guarantees: the file is written at most once, as the last step, with the STREAMINFO
  block it had and the blocks of the request behind it; every object of libFLAC is given back.
\<close>

section \<open>The documented behaviour of libFLAC's chain\<close>

text \<open>
  \<open>view\<close> reads the blocks of a chain and the iterator's position. The iterator starts at the first
  block; it moves while there is a next block; deleting a block steps back to its predecessor;
  inserting steps forward to the new block; a call that fails changes nothing.
\<close>

definition chain_laws :: "'c chain_api \<Rightarrow> ('c \<Rightarrow> flac_block list \<times> nat) \<Rightarrow> bool" where
  "chain_laws C view \<longleftrightarrow>
     (\<forall>c bs i. view c = (bs, i) \<longrightarrow>
        view (metadata_iterator_init C c) = (bs, 0) \<and>
        metadata_iterator_get_block C c = (if i < length bs then Some (bs ! i) else None) \<and>
        (case metadata_iterator_next C c of (moved, c1) \<Rightarrow>
           moved = (Suc i < length bs) \<and> view c1 = (bs, if Suc i < length bs then Suc i else i)) \<and>
        (case metadata_iterator_delete_block C c False of (deleted, c1) \<Rightarrow>
           0 < i \<and> i < length bs \<longrightarrow>
           view c1 = (if deleted then (take i bs @ drop (Suc i) bs, i - 1) else (bs, i))) \<and>
        (\<forall>b. case metadata_iterator_insert_block_after C c b of (inserted, c1) \<Rightarrow>
           i < length bs \<longrightarrow>
           view c1 = (if inserted then (take (Suc i) bs @ b # drop (Suc i) bs, Suc i) else (bs, i))))"

lemma chain_lawsD:
  assumes "chain_laws C view" "view c = (bs, i)"
  shows "view (metadata_iterator_init C c) = (bs, 0)"
    "metadata_iterator_get_block C c = (if i < length bs then Some (bs ! i) else None)"
    "metadata_iterator_next C c = (moved, c1) \<Longrightarrow>
       moved = (Suc i < length bs) \<and> view c1 = (bs, if Suc i < length bs then Suc i else i)"
    "metadata_iterator_delete_block C c False = (deleted, c1) \<Longrightarrow> 0 < i \<Longrightarrow> i < length bs \<Longrightarrow>
       view c1 = (if deleted then (take i bs @ drop (Suc i) bs, i - 1) else (bs, i))"
    "metadata_iterator_insert_block_after C c b = (inserted, c1) \<Longrightarrow> i < length bs \<Longrightarrow>
       view c1 = (if inserted then (take (Suc i) bs @ b # drop (Suc i) bs, Suc i) else (bs, i))"
proof -
  note laws = assms(1) [unfolded chain_laws_def, THEN spec, THEN spec, THEN spec, THEN mp, OF assms(2)]
  show "view (metadata_iterator_init C c) = (bs, 0)"
    "metadata_iterator_get_block C c = (if i < length bs then Some (bs ! i) else None)"
    using laws by blast+
  show "metadata_iterator_next C c = (moved, c1) \<Longrightarrow>
      moved = (Suc i < length bs) \<and> view c1 = (bs, if Suc i < length bs then Suc i else i)"
    "metadata_iterator_delete_block C c False = (deleted, c1) \<Longrightarrow> 0 < i \<Longrightarrow> i < length bs \<Longrightarrow>
      view c1 = (if deleted then (take i bs @ drop (Suc i) bs, i - 1) else (bs, i))"
    "metadata_iterator_insert_block_after C c b = (inserted, c1) \<Longrightarrow> i < length bs \<Longrightarrow>
      view c1 = (if inserted then (take (Suc i) bs @ b # drop (Suc i) bs, Suc i) else (bs, i))"
    using laws [THEN conjunct2, THEN conjunct2] by (auto split: prod.splits)
qed

text \<open>A call on live objects.\<close>

lemma calls_live:
  assumes "es_chain s = Some c" "f c = (ok, c1)"
  shows "chain_call f s = (ok, s\<lparr>es_chain := Some c1\<rparr>)"
    "es_iterator s \<Longrightarrow> iterator_call f s = (ok, s\<lparr>es_chain := Some c1\<rparr>)"
  using assms by (simp_all add: chain_call_def iterator_call_def)

section \<open>Deleting the old blocks\<close>

lemma delete_old_blocks_done:
  assumes "chain_laws C view" "es_chain s = Some c" "es_iterator s" "view c = (b0 # bs, 0)"
    "length bs < fuel"
  shows "\<exists>ok c'. delete_old_blocks C fuel s = Some (ok, s\<lparr>es_chain := Some c'\<rparr>) \<and>
    (ok \<longrightarrow> view c' = ([b0], 0))"
  using assms(2-5)
proof (induction fuel arbitrary: s c bs)
  case (Suc fuel)
  note laws = chain_lawsD [OF assms(1)]
  obtain moved c1 where n: "metadata_iterator_next C c = (moved, c1)" by force
  note step = calls_live(2) [where f = "metadata_iterator_next C", OF Suc.prems(1) n Suc.prems(2)]
  show ?case
  proof (cases bs)
    case Nil
    with laws(3) [OF Suc.prems(3) n] show ?thesis
      using Suc.prems(3) by (auto simp: step)
  next
    case (Cons b bs')
    with laws(3) [OF Suc.prems(3) n] have moved: "moved" and v1: "view c1 = (b0 # b # bs', 1)"
      by simp_all
    let ?s1 = "s\<lparr>es_chain := Some c1\<rparr>"
    obtain deleted c2 where d: "metadata_iterator_delete_block C c1 False = (deleted, c2)" by force
    have del: "iterator_call (\<lambda>c. metadata_iterator_delete_block C c False) ?s1 =
        (deleted, ?s1\<lparr>es_chain := Some c2\<rparr>)"
      by (rule calls_live(2) [where c = c1]) (simp_all add: d Suc.prems(2))
    have v2: "deleted \<Longrightarrow> view c2 = (b0 # bs', 0)" using laws(4) [OF v1 d] by simp
    show ?thesis
    proof (cases deleted)
      case True
      from Suc.IH [of "?s1\<lparr>es_chain := Some c2\<rparr>" c2 bs'] v2 [OF True] Suc.prems(2,4) Cons
      show ?thesis by (simp add: step moved del True)
    qed (auto simp: step moved del)
  qed
qed simp

section \<open>Inserting the new blocks\<close>

lemma transfer_owned:
  assumes "owns_table L slots x e" "n < length slots" "slots ! n = Some a" "unat i = n"
  shows "owns_table L (slots[n := None]) (set_slot i None x) (transfer_block a e)"
proof -
  have "slots = take n slots @ Some a # drop (Suc n) slots"
    using id_take_nth_drop [OF assms(2)] assms(3) by simp
  from arg_cong [OF this, of present]
  have "present slots = present (take n slots) @ a # present (drop (Suc n) slots)" by simp
  then have "mset (present slots) = add_mset a (mset (present (slots[n := None])))"
    by (simp add: upd_conv_take_nth_drop [OF assms(2)])
  with assms(1,4) show ?thesis by (simp add: owns_table_def set_slot_def transfer_block_def)
qed

lemma insert_blocks_done:
  assumes "chain_laws C view" "es_chain s = Some c" "es_iterator s" "owns_table L slots x e"
    "unat i + n = length slots" "length slots < 4294967296" "present (take (unat i) slots) = []"
    "view c = (bs, length bs - 1)" "bs \<noteq> []"
  shows "\<exists>ok x' slots' c' e'. insert_blocks C n i x s e = (ok, x', s\<lparr>es_chain := Some c'\<rparr>, e') \<and>
    owns_table L slots' x' e' \<and> same_refs e e' \<and> pending e' = pending e \<and>
    (ok \<longrightarrow> present slots' = [] \<and>
       fst (view c') = bs @ map (block_at e) (present (drop (unat i) slots)))"
  using assms(2-)
proof (induction n arbitrary: i x s e c slots bs)
  case 0
  have "s\<lparr>es_chain := Some c\<rparr> = s" using 0(1) by (cases s) simp
  with 0 show ?case
    by (intro exI [of _ True] exI [of _ x] exI [of _ slots] exI [of _ c] exI [of _ e]) simp
next
  case (Suc n)
  have lt: "unat i < length slots" using Suc.prems(4) by simp
  have i1: "unat (i + 1) = Suc (unat i)"
    using Suc.prems(5) lt by (simp add: unat_word_ariths)
  have slots: "drop (unat i) slots = slots ! unat i # drop (Suc (unat i)) slots"
    using lt by (simp add: Cons_nth_drop_Suc)
  have tk: "take (Suc (unat i)) slots = take (unat i) slots @ [slots ! unat i]"
    using lt by (rule take_Suc_conv_app_nth)
  have tab: "ec_metadata_blocks x = Some slots" using Suc.prems(3) by (simp add: owns_table_def)
  show ?case
  proof (cases "slots ! unat i")
    case None
    with Suc.IH [OF Suc.prems(1-3), of "i + 1" bs] Suc.prems(4-) show ?thesis
      by (simp add: tab i1 slots tk)
  next
    case (Some a)
    obtain ok c1 where r: "metadata_iterator_insert_block_after C c (block_at e a) = (ok, c1)"
      by force
    have call: "iterator_call (\<lambda>c. metadata_iterator_insert_block_after C c (block_at e a)) s =
        (ok, s\<lparr>es_chain := Some c1\<rparr>)"
      by (rule calls_live(2) [where c = c]) (simp_all add: r Suc.prems(1,2))
    show ?thesis
    proof (cases ok)
      case False
      with Suc.prems(3) show ?thesis
        by (intro exI [of _ False] exI [of _ x] exI [of _ slots] exI [of _ c1] exI [of _ e])
          (simp add: tab Some call)
    next
      case True
      let ?slots = "slots[unat i := None]" and ?e = "transfer_block a e"
      from chain_lawsD(5) [OF assms(1) Suc.prems(7) r] Suc.prems(8) True
      have v: "view c1 = (bs @ [block_at e a], length (bs @ [block_at e a]) - 1)" by simp
      have e: "same_refs e ?e" "pending ?e = pending e" "block_at ?e = block_at e"
        by (simp_all add: transfer_block_def same_refs_def)
      from Suc.IH [of "s\<lparr>es_chain := Some c1\<rparr>" c1 ?slots "set_slot i None x" ?e "i + 1",
          OF _ _ transfer_owned [OF Suc.prems(3) lt Some refl] _ _ _ v] Suc.prems(2,4,5,6)
      obtain ok' x' slots' c' e' where
        "insert_blocks C n (i + 1) (set_slot i None x) (s\<lparr>es_chain := Some c1\<rparr>) ?e =
           (ok', x', s\<lparr>es_chain := Some c'\<rparr>, e')"
        "owns_table L slots' x' e'" "same_refs ?e e'" "pending e' = pending ?e"
        "ok' \<longrightarrow> present slots' = [] \<and> fst (view c') =
           (bs @ [block_at e a]) @ map (block_at ?e) (present (drop (Suc (unat i)) slots))"
        by (auto simp: i1 take_Suc_conv_app_nth lt)
      with e same_refs_trans [OF e(1)] show ?thesis
        by (intro exI [of _ ok'] exI [of _ x'] exI [of _ slots'] exI [of _ c'] exI [of _ e'])
          (simp add: tab Some call True slots)
    qed
  qed
qed

section \<open>The outcome\<close>

lemma delete_metadata_slots_pending:
  "pending (delete_metadata_slots blocks i n e) = pending e"
  by (induction n arbitrary: i e) (simp_all add: metadata_object_delete_def split: option.split)

definition clean_edit :: "'c edit_state \<Rightarrow> bool" where
  "clean_edit s \<longleftrightarrow> es_chain s = None \<and> \<not> es_iterator s \<and> \<not> es_fault s"

definition edit_ended ::
  "jvm \<Rightarrow> metadata_api \<Rightarrow> ('c \<Rightarrow> flac_block list \<times> nat) \<Rightarrow> flac_block \<Rightarrow> metadata_request \<Rightarrow> bool \<Rightarrow> bool \<Rightarrow>
   jenv \<Rightarrow> 'c edit_state \<times> jenv \<Rightarrow> bool" where
  "edit_ended J M view b0 q pad stats e r \<longleftrightarrow>
     (case r of (s', e') \<Rightarrow> clean_edit s' \<and> mset (live_blocks e') = mset (live_blocks e) \<and>
        same_refs e e' \<and>
        (if es_writes s' = [] then exception_check e'
         else \<exists>c ok e0 x1 e1. es_writes s' = [(c, pad, stats, ok)] \<and>
           build_request_metadata J M q (zero_encode_context :: unit encode_context) e0 =
             (True, x1, e1) \<and>
           fst (view c) = b0 # map (block_at e1) (owned_blocks x1) \<and>
           (exception_check e' \<longleftrightarrow> \<not> ok \<or> exception_check e1)))"

definition editing :: "'c edit_state \<Rightarrow> 'c \<Rightarrow> bool" where
  "editing s c \<longleftrightarrow> es_chain s = Some c \<and> es_iterator s \<and> \<not> es_fault s"

lemma close_editing:
  assumes "editing s c"
  shows "clean_edit (close_edit s)" "es_writes (close_edit s) = es_writes s"
  using assms by (simp_all add: clean_edit_def editing_def close_edit_def
      metadata_chain_delete_def metadata_iterator_delete_def)

lemma fail_editing:
  assumes "editing s c" "fail_edit C action s e = (s', e')"
  shows "clean_edit s'" "es_writes s' = es_writes s" "exception_check e'"
    "live_blocks e' = live_blocks e" "same_refs e e'"
  using assms
  by (auto simp: clean_edit_def editing_def fail_edit_def metadata_chain_delete_def
      metadata_iterator_delete_def throw_metadata_chain_edit_exception_def Let_def throw_defs
      raise_def exception_check_def same_refs_def)

lemma edit_ended_after:
  assumes "mset (live_blocks e1) = mset (live_blocks e)" "same_refs e e1"
    "edit_ended J M view b0 q pad stats e1 r"
  shows "edit_ended J M view b0 q pad stats e r"
  using assms by (auto simp: edit_ended_def intro: same_refs_trans)

lemma edit_ended_failed:
  assumes "clean_edit s" "es_writes s = []" "exception_check e'"
    "mset (live_blocks e') = mset (live_blocks e)" "same_refs e e'"
  shows "edit_ended J M view b0 q pad stats e (s, e')"
  using assms by (simp add: edit_ended_def)

lemma edit_ended_written:
  assumes "clean_edit s" "mset (live_blocks e') = mset (live_blocks e)" "same_refs e e'"
    "es_writes s = [(c, pad, stats, ok)]"
    "build_request_metadata J M q (zero_encode_context :: unit encode_context) e0 = (True, x1, e1)"
    "fst (view c) = b0 # map (block_at e1) (owned_blocks x1)"
    "exception_check e' \<longleftrightarrow> \<not> ok \<or> exception_check e1"
  shows "edit_ended J M view b0 q pad stats e (s, e')"
  using assms unfolding edit_ended_def by (simp, blast)

lemma destroy_owned:
  assumes "wf_table x" "mset (live_blocks e) = mset L + mset (owned_blocks x)"
    "destroy_metadata_blocks x e = (x', e')"
  shows "mset (live_blocks e') = mset L \<and> same_refs e e' \<and> pending e' = pending e"
proof (cases "ec_metadata_blocks x")
  case None
  with assms show ?thesis by (simp add: destroy_metadata_blocks_def owned_blocks_def)
next
  case (Some blocks)
  have e': "e' = delete_metadata_slots blocks 0 (length blocks) e"
    and live: "mset (live_blocks e) = mset L + mset (present blocks)"
    using assms Some by (auto simp: destroy_metadata_blocks_def wf_table_def owned_blocks_def present_def)
  with delete_metadata_slots_blocks [of 0 "length blocks" blocks e] show ?thesis
    by (simp add: present_def delete_metadata_slots_refs delete_metadata_slots_pending)
qed

lemma insert_owned:
  assumes "chain_laws C view" "es_chain s = Some c" "es_iterator s" "view c = ([b0], 0)"
    "wf_table x" "finished L x e"
  shows "\<exists>ok x' c' e'. insert_blocks C (unat (ec_metadata_count x)) 0 x s e =
      (ok, x', s\<lparr>es_chain := Some c'\<rparr>, e') \<and>
    wf_table x' \<and> mset (live_blocks e') = mset L + mset (owned_blocks x') \<and> same_refs e e' \<and>
    pending e' = pending e \<and> (ok \<longrightarrow> fst (view c') = b0 # map (block_at e) (owned_blocks x))"
proof (cases "ec_metadata_blocks x")
  case None
  have "s\<lparr>es_chain := Some c\<rparr> = s" using assms(2) by (cases s) simp
  with None assms(4-6) show ?thesis
    by (intro exI [of _ True] exI [of _ x] exI [of _ c] exI [of _ e])
      (simp add: finished_def owned_blocks_def)
next
  case (Some slots)
  then have own: "owns_table L slots x e" and n: "unat (ec_metadata_count x) = length slots"
    using assms(5,6) by (auto simp: owns_table_def wf_table_def finished_def owned_blocks_def present_def)
  have lt: "length slots < 4294967296"
    using n unat_u32_less [of "ec_metadata_count x"] by simp
  from insert_blocks_done [where n = "length slots" and i = 0 and bs = "[b0]",
      OF assms(1-3) own _ lt _ _ ] assms(4)
  obtain ok x' slots' c' e' where
    r: "insert_blocks C (length slots) 0 x s e = (ok, x', s\<lparr>es_chain := Some c'\<rparr>, e')"
      "owns_table L slots' x' e'" "same_refs e e'" "pending e' = pending e"
      "ok \<longrightarrow> fst (view c') = b0 # map (block_at e) (present slots)"
    by auto
  then show ?thesis
    using owned_blocks_table [OF own] owned_blocks_table [OF r(2)] owns_table_wf [OF r(2)]
    by (auto simp: n owns_table_def)
qed

lemma write_chain_ended:
  assumes "editing s c" "es_writes s = []" "write_chain C pad stats s e = (s', e')"
  shows "clean_edit s' \<and> live_blocks e' = live_blocks e \<and> same_refs e e' \<and>
    (\<exists>ok. es_writes s' = [(c, pad, stats, ok)] \<and>
       (exception_check e' \<longleftrightarrow> \<not> ok \<or> exception_check e))"
proof -
  obtain ok c1 where w: "metadata_chain_write C c pad stats = (ok, c1)" by force
  let ?s = "s\<lparr>es_chain := Some c1, es_writes := [(c, pad, stats, ok)]\<rparr>"
  have ed: "editing ?s c1" and chain: "es_chain s = Some c"
    using assms(1) by (simp_all add: editing_def)
  have res: "write_chain C pad stats s e =
      (if \<not> ok then fail_edit C ''Failed to write FLAC metadata edits'' ?s e else (close_edit ?s, e))"
    using chain assms(2) by (simp add: write_chain_def chain_call_def w)
  show ?thesis
  proof (cases ok)
    case True
    with res assms(3) close_editing [OF ed] show ?thesis by (auto simp: same_refs_def)
  next
    case False
    with res assms(3) have "fail_edit C ''Failed to write FLAC metadata edits'' ?s e = (s', e')"
      by simp
    from fail_editing [OF ed this] False show ?thesis by auto
  qed
qed

lemma replace_blocks_ended:
  assumes "chain_laws C view" "editing s c" "view c = ([b0], 0)" "es_writes s = []"
    "length (array_elements (mr_block_types q)) < 4294967296"
  shows "edit_ended J M view b0 q pad stats e (replace_blocks J C M q pad stats s e)"
proof -
  let ?x = "zero_encode_context :: unit encode_context"
  obtain ok x1 e1 where b: "build_request_metadata J M q ?x e = (ok, x1, e1)" by (metis surj_pair)
  have m: "metadata_ok (live_blocks e) ?x e (ok, x1, e1)"
    using build_request_metadata_ok [of ?x q e J M] assms(5) b by (simp add: zero_encode_context_def)
  then have refs: "same_refs e e1" and wf: "wf_table x1" by (simp_all add: metadata_ok_def)
  show ?thesis
  proof (cases ok)
    case False
    obtain x2 e2 where d: "destroy_metadata_blocks x1 e1 = (x2, e2)" by force
    from m False have "mset (live_blocks e1) = mset (live_blocks e) + mset (owned_blocks x1)"
      by (simp add: metadata_ok_def)
    from destroy_owned [OF wf this d] refs close_editing [OF assms(2)] assms(4) show ?thesis
      by (auto simp: replace_blocks_def b d False Let_def edit_ended_def throw_defs raise_def
          exception_check_def same_refs_def)
  next
    case True
    let ?s1 = "s\<lparr>es_chain := Some (metadata_iterator_init C c)\<rparr>"
    have it: "iterator_call (\<lambda>c. (True, metadata_iterator_init C c)) s = (True, ?s1)"
      using assms(2) by (intro calls_live) (simp_all add: editing_def)
    have fin: "finished (live_blocks e) x1 e1" using m True by (simp add: metadata_ok_def)
    have v: "view (metadata_iterator_init C c) = ([b0], 0)"
      by (rule chain_lawsD(1) [OF assms(1,3)])
    from insert_owned [OF assms(1) _ _ v wf fin, of ?s1] assms(2)
    obtain inserted x2 c2 e2 where
      ins: "insert_blocks C (unat (ec_metadata_count x1)) 0 x1 ?s1 e1 =
          (inserted, x2, s\<lparr>es_chain := Some c2\<rparr>, e2)"
        "wf_table x2" "mset (live_blocks e2) = mset (live_blocks e) + mset (owned_blocks x2)"
        "same_refs e1 e2" "pending e2 = pending e1"
        "inserted \<longrightarrow> fst (view c2) = b0 # map (block_at e1) (owned_blocks x1)"
      by (auto simp: editing_def)
    obtain x3 e3 where d: "destroy_metadata_blocks x2 e2 = (x3, e3)" by force
    note dest = destroy_owned [OF ins(2,3) d]
    have e3: "same_refs e e3" "exception_check e3 = exception_check e1"
      using refs ins(4,5) dest by (auto simp: exception_check_def intro: same_refs_trans)
    let ?s2 = "s\<lparr>es_chain := Some c2\<rparr>"
    have ed2: "editing ?s2 c2" using assms(2) by (simp add: editing_def)
    have res: "replace_blocks J C M q pad stats s e =
        (if \<not> inserted then fail_edit C ''Failed to insert FLAC metadata edit block'' ?s2 e3
         else write_chain C pad stats ?s2 e3)"
      by (simp add: replace_blocks_def b True it ins(1) d)
    show ?thesis
    proof (cases inserted)
      case False
      obtain s' e' where f: "fail_edit C ''Failed to insert FLAC metadata edit block'' ?s2 e3 = (s', e')"
        by force
      from fail_editing [OF ed2 f] assms(4) dest e3 False show ?thesis
        by (auto simp: res f edit_ended_def intro: same_refs_trans)
    next
      case True
      obtain s' e' where w: "write_chain C pad stats ?s2 e3 = (s', e')" by force
      from write_chain_ended [OF ed2 _ w] assms(4) obtain wr where
        wr: "clean_edit s'" "live_blocks e' = live_blocks e3" "same_refs e3 e'"
          "es_writes s' = [(c2, pad, stats, wr)]"
          "exception_check e' \<longleftrightarrow> \<not> wr \<or> exception_check e3"
        by auto
      have "build_request_metadata J M q ?x e = (True, x1, e1)" using b \<open>ok\<close> by simp
      note built = this
      have "edit_ended J M view b0 q pad stats e (s', e')"
        by (rule edit_ended_written [OF wr(1) _ same_refs_trans [OF e3(1) wr(3)] wr(4) built])
          (use wr(2,5) dest e3 True ins(6) in simp_all)
      then show ?thesis by (simp add: res True w)
    qed
  qed
qed

section \<open>The operation\<close>

lemma harmless_flac_api_ready: "flac_api_ready J e = (ok, e1) \<Longrightarrow> harmless e e1"
  by (auto simp: flac_api_ready_def harmless_def same_resources_def Let_def env_simps
      raise_def split: if_splits prod.splits)

lemma open_chain_done:
  assumes "chain_laws C view" "open_chain J C p no_edit e = (ok, s, e1)"
    "c0 = snd (metadata_chain_read C (metadata_chain_new C) p)"
  shows "harmless e e1 \<and> es_writes s = [] \<and>
    (if ok then \<exists>c b0 bs. editing s c \<and> view c = (b0 # bs, 0) \<and> fst (view c0) = b0 # bs \<and>
       bl_type b0 = METADATA_TYPE_STREAMINFO
     else clean_edit s \<and> exception_check e1)"
proof -
  obtain alloc1 e2 where a1: "plain_alloc J (Jni ''metadata_chain_new'') e = (alloc1, e2)" by force
  obtain read c1 where r: "metadata_chain_read C (metadata_chain_new C) p = (read, c1)" by force
  obtain alloc2 e3 where a2: "plain_alloc J (Jni ''metadata_iterator_new'') e2 = (alloc2, e3)"
    by force
  have h: "harmless e e2" "harmless e2 e3"
    using a1 a2 by (auto elim: harmless_result)
  have h3: "harmless e e3" using h by (rule harmless_trans)
  obtain bs i where v: "view c1 = (bs, i)" by force
  have v0: "view (metadata_iterator_init C c1) = (bs, 0)" by (rule chain_lawsD(1) [OF assms(1) v])
  note get = chain_lawsD(2) [OF assms(1) v0]
  show ?thesis
    using assms(2) h(1) h3 v v0 get
    by (cases bs) (auto simp: open_chain_def a1 a2 r no_edit_def chain_call_def iterator_call_def
        Let_def throw_metadata_chain_edit_exception_def metadata_chain_delete_def close_edit_def
        metadata_iterator_delete_def clean_edit_def editing_def exception_check_def throw_defs
        raise_def assms(3) harmless_def same_resources_def split: if_splits)
qed

lemma call_getters_failed: "call_getters J gs e = (False, e1) \<Longrightarrow> exception_check e1"
  by (induction gs arbitrary: e)
    (auto simp: call_getters.simps call_getter_def Let_def split: if_splits)

lemma find_methods_failed: "find_instance_methods J ns e = (False, e1) \<Longrightarrow> exception_check e1"
  by (induction ns arbitrary: e)
    (auto simp: find_instance_methods.simps find_instance_method_def java_try_def java_call_def
      exception_check_def raise_def Let_def split: if_splits option.splits)

lemma read_edit_request_failed:
  assumes "\<And>h. jv_alloc J (Jni ''GetObjectClass'' # h)" "read_edit_request J e = (False, e1)"
  shows "exception_check e1"
  using assms by (auto simp: read_edit_request_def plain_alloc_def Let_def
      intro: call_getters_failed find_methods_failed split: if_splits prod.splits)

lemma harmless_read_edit_request [simp]: "harmless e (snd (read_edit_request J e))"
  unfolding read_edit_request_def Let_def by (intro harmless_intros) simp_all

lemma edit_ended_harmless:
  "harmless e e1 \<Longrightarrow> edit_ended J M view b0 q pad stats e1 r \<Longrightarrow>
   edit_ended J M view b0 q pad stats e r"
  by (rule edit_ended_after) (auto simp: harmless_def same_resources_def same_refs_def)

lemma edit_ended_stopped:
  assumes "harmless e e'" "clean_edit s" "es_writes s = []" "exception_check e'"
  shows "edit_ended J M view b0 q pad stats e (s, e')"
  by (rule edit_ended_failed [OF assms(2-4)])
    (use assms(1) in \<open>simp_all add: harmless_def same_resources_def same_refs_def\<close>)

text \<open>From the opened chain on.\<close>

lemma edit_chain_ended:
  assumes "chain_laws C view" "\<And>h. jv_alloc J (Jni ''GetObjectClass'' # h)" "editing s c"
    "view c = (b0 # bs, 0)" "es_writes s = []" "length bs < fuel"
    "length (array_elements (mr_block_types q)) < 4294967296"
  shows "\<exists>r. (case delete_old_blocks C fuel s of
       None \<Rightarrow> None
     | Some (deleted, s4) \<Rightarrow>
         if \<not> deleted
         then Some (fail_edit C ''Failed to delete existing FLAC metadata block'' s4 e) else
         let (request_ok, e4) = read_edit_request J e in
         if \<not> request_ok then Some (close_edit s4, e4)
         else Some (replace_blocks J C M q pad stats s4 e4)) = Some r \<and>
    edit_ended J M view b0 q pad stats e r"
proof -
  from delete_old_blocks_done [where s = s, OF assms(1) _ _ assms(4,6)] assms(3) obtain deleted c' where
    del: "delete_old_blocks C fuel s = Some (deleted, s\<lparr>es_chain := Some c'\<rparr>)"
      "deleted \<longrightarrow> view c' = ([b0], 0)"
    by (auto simp: editing_def)
  let ?s = "s\<lparr>es_chain := Some c'\<rparr>"
  have ed: "editing ?s c'" and no: "es_writes ?s = []" using assms(3,5) by (simp_all add: editing_def)
  obtain ok e4 where rd: "read_edit_request J e = (ok, e4)" by force
  have h: "harmless e e4" using rd by (rule harmless_result) simp
  consider "\<not> deleted" | "deleted" "\<not> ok" | "deleted" "ok" by blast
  then show ?thesis
  proof cases
    case 1
    obtain s' e' where f:
      "fail_edit C ''Failed to delete existing FLAC metadata block'' ?s e = (s', e')" by force
    from fail_editing [OF ed f] no have "edit_ended J M view b0 q pad stats e (s', e')"
      by (intro edit_ended_failed) simp_all
    with 1 show ?thesis by (simp add: del(1) f)
  next
    case 2
    with rd have "exception_check e4" by (auto intro: read_edit_request_failed [OF assms(2)])
    with h close_editing [OF ed] no have "edit_ended J M view b0 q pad stats e (close_edit ?s, e4)"
      by (intro edit_ended_stopped) simp_all
    with 2 show ?thesis by (simp add: del(1) rd)
  next
    case 3
    with del(2) have "view c' = ([b0], 0)" by simp
    from edit_ended_harmless [OF h replace_blocks_ended [OF assms(1) ed this no assms(7)]] 3
    show ?thesis by (simp add: del(1) rd)
  qed
qed

text \<open>
  C35: editing a file replaces its metadata all at once or reports a failure. The call returns once
  the fuel covers the blocks of the file. It gives back every libFLAC object, uses none that is
  freed, and takes as many metadata objects as it found. The file is written at most once, with the
  caller's two options: with the STREAMINFO block it had, followed by the blocks built from the
  request, in their order. When nothing was written an exception is pending; after a write one is
  pending if and only if the write failed or Java left one while the blocks were built. libFLAC's
  chain and iterator are assumed to behave as documented, and \<open>GetObjectClass\<close> to succeed.
\<close>

theorem writeMetadata_replaces:
  assumes "chain_laws C view" "\<And>h. jv_alloc J (Jni ''GetObjectClass'' # h)"
    "\<And>q. request = Some q \<Longrightarrow> length (array_elements (mr_block_types q)) < 4294967296"
    "\<And>p. path = Some p \<Longrightarrow>
       length (fst (view (snd (metadata_chain_read C (metadata_chain_new C) p)))) \<le> fuel"
  shows "\<exists>s' e'. writeMetadata J C M fuel path request pad stats e = Some (s', e') \<and>
    es_chain s' = None \<and> \<not> es_iterator s' \<and> \<not> es_fault s' \<and>
    mset (live_blocks e') = mset (live_blocks e) \<and> global_refs e' = global_refs e \<and>
    (if es_writes s' = [] then exception_check e'
     else \<exists>p q c b0 bs ok e0 x1 e1. path = Some p \<and> request = Some q \<and>
       es_writes s' = [(c, pad, stats, ok)] \<and>
       fst (view (snd (metadata_chain_read C (metadata_chain_new C) p))) = b0 # bs \<and>
       bl_type b0 = METADATA_TYPE_STREAMINFO \<and>
       build_request_metadata J M q (zero_encode_context :: unit encode_context) e0 =
         (True, x1, e1) \<and>
       fst (view c) = b0 # map (block_at e1) (owned_blocks x1) \<and>
       (exception_check e' \<longleftrightarrow> \<not> ok \<or> exception_check e1))"
proof -
  obtain ready e1 where r1: "flac_api_ready J e = (ready, e1)" by force
  have h1: "harmless e e1" using r1 by (rule harmless_flac_api_ready)
  obtain utf8 e2 where r2: "jstring_to_utf8 J path e1 = (utf8, e2)" by force
  have h2: "harmless e e2" by (rule harmless_trans [OF h1 harmless_result [OF r2]]) simp
  have ready: "\<not> ready \<Longrightarrow> exception_check e1" using flac_api_ready_env [OF r1] by simp
  show ?thesis
  proof (cases "ready \<and> path \<noteq> None \<and> request \<noteq> None \<and> utf8 \<noteq> None")
    case False
    then show ?thesis using h1 h2 ready r1 r2
      by (auto simp: writeMetadata_def no_edit_def throw_defs raise_def exception_check_def
          harmless_def same_resources_def Let_def)
  next
    case True
    then obtain p q where pq: "path = Some p" "request = Some q" "utf8 = Some p"
      using r2 by (auto simp: jstring_to_utf8_def split: if_splits prod.splits)
    obtain opened s3 e3 where o: "open_chain J C p no_edit e2 = (opened, s3, e3)"
      by (metis surj_pair)
    note op = open_chain_done [OF assms(1) o refl]
    have h3: "harmless e e3" using h2 op by (auto intro: harmless_trans)
    show ?thesis
    proof (cases opened)
      case False
      with op h3 show ?thesis using True r1 r2 pq o
        by (auto simp: writeMetadata_def clean_edit_def harmless_def same_resources_def)
    next
      case True
      with op obtain c b0 bs where c: "editing s3 c" "view c = (b0 # bs, 0)" "es_writes s3 = []"
        "fst (view (snd (metadata_chain_read C (metadata_chain_new C) p))) = b0 # bs"
        "bl_type b0 = METADATA_TYPE_STREAMINFO"
        by auto
      have "length bs < fuel" using assms(4) [OF pq(1)] c(4) by simp
      from edit_chain_ended [OF assms(1,2) c(1-3) this _,
          where q = "the request" and M = M and pad = pad and stats = stats and e = e3] assms(3) [OF pq(2)]
      obtain s' e' where
        w: "writeMetadata J C M fuel path request pad stats e = Some (s', e')" and
        "edit_ended J M view b0 (the request) pad stats e3 (s', e')"
        using True \<open>ready \<and> _\<close> r1 r2 pq o by (auto simp: writeMetadata_def)
      with edit_ended_harmless [OF h3] have en: "edit_ended J M view b0 q pad stats e (s', e')"
        using pq(2) by auto
      then have clean: "es_chain s' = None \<and> \<not> es_iterator s' \<and> \<not> es_fault s' \<and>
          mset (live_blocks e') = mset (live_blocks e) \<and> global_refs e' = global_refs e"
        by (simp add: edit_ended_def clean_edit_def same_refs_def)
      show ?thesis
      proof (cases "es_writes s' = []")
        case True
        with en have "exception_check e'" by (simp add: edit_ended_def)
        with True w clean show ?thesis by simp
      next
        case False
        with en obtain c' ok e0 x1 e4 where
          "es_writes s' = [(c', pad, stats, ok)]"
          "build_request_metadata J M q (zero_encode_context :: unit encode_context) e0 =
             (True, x1, e4)"
          "fst (view c') = b0 # map (block_at e4) (owned_blocks x1)"
          "exception_check e' \<longleftrightarrow> \<not> ok \<or> exception_check e4"
          unfolding edit_ended_def prod.case by (simp only: if_False) blast
        with w clean c(4,5) pq(1,2) show ?thesis by simp blast
      qed
    qed
  qed
qed

definition sample_block :: "u32 \<Rightarrow> flac_block" where
  "sample_block t = \<lparr>bl_type = t, bl_length = 0, bl_data = PaddingData\<rparr>"

text \<open>A chain as the list of its blocks and a position; every file has STREAMINFO and a padding.\<close>

definition sample_chain :: "(flac_block list \<times> nat) chain_api" where
  "sample_chain = \<lparr>metadata_chain_new = ([], 0),
     metadata_chain_read = (\<lambda>c path. (True, ([sample_block 0, sample_block 1], 0))),
     metadata_chain_status = (\<lambda>c. CHAIN_OK),
     metadata_chain_write = (\<lambda>c pad stats. (True, c)),
     metadata_iterator_init = (\<lambda>(bs, i). (bs, 0)),
     metadata_iterator_get_block = (\<lambda>(bs, i). if i < length bs then Some (bs ! i) else None),
     metadata_iterator_next =
       (\<lambda>(bs, i). if Suc i < length bs then (True, (bs, Suc i)) else (False, (bs, i))),
     metadata_iterator_delete_block =
       (\<lambda>(bs, i) pad. (True, (take i bs @ drop (Suc i) bs, i - 1))),
     metadata_iterator_insert_block_after =
       (\<lambda>(bs, i) b. (True, (take (Suc i) bs @ b # drop (Suc i) bs, Suc i)))\<rparr>"

lemma sample_chain_laws: "chain_laws sample_chain (\<lambda>c. c)"
  by (simp add: chain_laws_def sample_chain_def)

definition sample_removal :: metadata_request where
  "sample_removal =
     sample_metadata_request\<lparr>mr_block_types := None, mr_block_values := None\<rparr>"

definition loaded_env :: jenv where
  "loaded_env = initial_env\<lparr>native := initial_native\<lparr>api_once := True, api_initialized := True\<rparr>\<rparr>"

lemma sample_edit_run:
  "\<exists>s' e'. writeMetadata sample_jvm sample_chain sample_metadata 2 (Some ''a.flac'')
      (Some sample_removal) True False loaded_env = Some (s', e') \<and>
    es_writes s' = [(([sample_block 0], 0), True, False, True)]"
proof -
  have steps: "java_seq sample_jvm cs e = (True, e\<lparr>calls := rev cs @ calls e\<rparr>)" for cs e
    by (induction cs arbitrary: e) (simp_all add: sample_jvm_steps)
  have getters: "pending e = None \<Longrightarrow>
      \<exists>e1. call_getters sample_jvm gs e = (True, e1) \<and> pending e1 = None" for gs e
    by (induction gs arbitrary: e) (simp_all add: call_getters.simps sample_jvm_steps)
  have methods: "pending e = None \<Longrightarrow>
      \<exists>e1. find_instance_methods sample_jvm gs e = (True, e1) \<and> pending e1 = None" for gs e
    by (induction gs arbitrary: e)
      (simp_all add: find_instance_methods.simps find_instance_method_def sample_jvm_steps
        exception_check_def)
  have read: "fst (read_edit_request sample_jvm e)" if "pending e = None" for e
  proof -
    from that obtain e1 where "find_instance_methods sample_jvm edit_request_methods
        (e\<lparr>calls := Jni ''GetObjectClass'' # calls e\<rparr>) = (True, e1)" "pending e1 = None"
      using methods [of "e\<lparr>calls := Jni ''GetObjectClass'' # calls e\<rparr>"] by auto
    with getters [of e1 edit_request_methods] show ?thesis
      by (auto simp: read_edit_request_def sample_jvm_steps)
  qed
  have removal: "build_request_metadata J M sample_removal (zero_encode_context :: unit encode_context) e =
      (True, zero_encode_context, e)" for J M e
    by (simp add: build_request_metadata_def build_metadata_blocks_def array_elements_def
        total_metadata_blocks_def sample_removal_def sample_metadata_request_def zero_encode_context_def)
  have zero: "ec_metadata_blocks (zero_encode_context :: unit encode_context) = None"
    "ec_metadata_count (zero_encode_context :: unit encode_context) = 0"
    by (simp_all add: zero_encode_context_def)
  let ?open = "\<lparr>es_chain = Some ([sample_block 0, sample_block 1], 0), es_iterator = True,
      es_fault = False, es_writes = []\<rparr>"
  let ?cut = "?open\<lparr>es_chain := Some ([sample_block 0], 0)\<rparr>"
  obtain e1 where ready: "flac_api_ready sample_jvm loaded_env = (True, e1)" "pending e1 = None"
    by (simp add: flac_api_ready_def jflac_call_once_def loaded_env_def initial_env_def Let_def)
  then obtain e2 where path: "jstring_to_utf8 sample_jvm (Some ''a.flac'') e1 = (Some ''a.flac'', e2)"
      "pending e2 = None"
    by (simp add: jstring_to_utf8_def steps sample_jvm_steps Let_def)
  then obtain e3 where opened: "open_chain sample_jvm sample_chain ''a.flac'' no_edit e2 =
      (True, ?open, e3)" "pending e3 = None"
    by (simp add: open_chain_def no_edit_def chain_call_def iterator_call_def sample_chain_def
        sample_jvm_steps sample_block_def metadata_type_defs Let_def)
  have cut: "delete_old_blocks sample_chain (Suc (Suc 0)) ?open = Some (True, ?cut)"
    by (simp add: chain_call_def iterator_call_def sample_chain_def)
  obtain e4 where request: "read_edit_request sample_jvm e3 = (True, e4)"
    using read [OF opened(2)] by (cases "read_edit_request sample_jvm e3") auto
  have "\<exists>s'. replace_blocks sample_jvm sample_chain sample_metadata sample_removal True False ?cut e4 =
      (s', e4) \<and> es_writes s' = [(([sample_block 0], 0), True, False, True)]"
    by (simp add: replace_blocks_def removal iterator_call_def chain_call_def sample_chain_def
        zero destroy_metadata_blocks_def write_chain_def close_edit_def
        metadata_chain_delete_def metadata_iterator_delete_def)
  with ready path opened cut request show ?thesis
    by (auto simp: writeMetadata_def numeral_2_eq_2 simp del: delete_old_blocks.simps)
qed

lemma writeMetadata_replaces_witness:
  "\<exists>s' e'. writeMetadata sample_jvm sample_chain sample_metadata 2 (Some ''a.flac'')
      (Some sample_removal) True False loaded_env = Some (s', e') \<and>
    es_writes s' = [(([sample_block 0], 0), True, False, True)] \<and>
    es_chain s' = None \<and> \<not> es_iterator s' \<and> \<not> es_fault s'"
  using sample_edit_run writeMetadata_replaces [where C = sample_chain and view = "\<lambda>c. c" and
      J = sample_jvm and M = sample_metadata and fuel = 2 and path = "Some ''a.flac''" and
      request = "Some sample_removal" and pad = True and stats = False and e = loaded_env,
      OF sample_chain_laws]
  by (auto simp: sample_jvm_def sample_removal_def sample_metadata_request_def array_elements_def
      sample_chain_def)

end
