(* ===== verification/Encode_Ownership.thy ===== *)
theory Encode_Ownership
  imports Encode_Session Metadata_Guarantees
begin

text \<open>
  What an encoder context owns while it is opened, used and closed: its libFLAC encoder, its
  metadata objects and its global references. The callbacks touch none of them, preparing a target
  adds the reference it stores, and an abandoned open leaves everything as it was.
\<close>

section \<open>The callbacks are harmless\<close>

lemma harmless_new_direct_byte_buffer [simp]: "harmless e (snd (new_direct_byte_buffer J n e1)) \<longleftrightarrow> harmless e e1"
  by (simp add: new_direct_byte_buffer_def Let_def)

lemma harmless_call_int [simp]: "harmless e (snd (call_int J c e1)) \<longleftrightarrow> harmless e e1"
  by (simp add: call_int_def)

lemma harmless_call_long [simp]: "harmless e (snd (call_long J c e1)) \<longleftrightarrow> harmless e e1"
  by (simp add: call_long_def)

lemma harmless_encode_context_env [simp]: "harmless e (snd (encode_context_env J x e1)) \<longleftrightarrow> harmless e e1"
  by (simp add: encode_context_env_def)

lemma harmless_option:
  assumes "v = None \<Longrightarrow> harmless e (snd r1)" "\<And>y. v = Some y \<Longrightarrow> harmless e (snd (r2 y))"
  shows "harmless e (snd (case v of None \<Rightarrow> r1 | Some y \<Rightarrow> r2 y))"
  using assms by (simp split: option.split)

lemma harmless_channel_write_loop [simp]: "harmless e (snd (channel_write_loop J buffer n e))"
proof (induction J buffer n e rule: channel_write_loop.induct)
  case (1 J buffer n e)
  show ?case
  proof (cases "n < length buffer")
    case True
    obtain written e1 where w: "call_int J (ChannelWrite buffer) e = (written, e1)" by force
    then have q: "harmless e e1" by (rule harmless_result) simp
    show ?thesis
      using True q harmless_trans [OF q 1 [OF _ w [symmetric] refl]]
      by (simp add: channel_write_loop.simps [of J buffer n] w Let_def)
  qed (simp add: channel_write_loop.simps)
qed

lemma harmless_encode_channel_write_callback [simp]:
  "harmless e (snd (encode_channel_write_callback J x buffer e))"
  unfolding encode_channel_write_callback_def Let_def
  by (rule harmless_intros harmless_channel_write_loop | simp)+

lemma harmless_encode_write_callback [simp]: "harmless e (snd (encode_write_callback J x buffer e))"
  unfolding encode_write_callback_def Let_def
  by (rule harmless_encode_channel_write_callback harmless_intros | simp)+

lemma harmless_encode_channel_read_callback [simp]:
  "harmless e (snd (encode_channel_read_callback J x bytes e))"
  unfolding encode_channel_read_callback_def Let_def
  by (rule harmless_intros harmless_option | simp)+

lemma harmless_encode_channel_seek_callback [simp]:
  "harmless e (snd (encode_channel_seek_callback J x off e))"
  unfolding encode_channel_seek_callback_def Let_def by (rule harmless_intros | simp)+

lemma harmless_encode_channel_tell_callback [simp]:
  "harmless e (snd (encode_channel_tell_callback J x p e))"
  unfolding encode_channel_tell_callback_def Let_def by (rule harmless_intros | simp)+

lemma harmless_callback:
  assumes "harmless e (snd c)" "\<And>r e1. harmless e1 (snd (snd (run r e1)))"
  shows "harmless e (snd (snd (case c of (r, e1) \<Rightarrow> run r e1)))"
  using assms by (cases c) (auto intro: harmless_trans)

lemma harmless_run_encoder_callbacks [simp]:
  "harmless e (snd (snd (run_encoder_callbacks J x run e)))"
  by (induction run arbitrary: e) (simp_all add: harmless_callback)

lemma harmless_validate_container [simp]: "harmless e (snd (validate_container c e1)) \<longleftrightarrow> harmless e e1"
  by (simp add: validate_container_def)

lemma harmless_find_boxed_method [simp]: "harmless e (snd (find_boxed_method J needed c m e))"
  unfolding find_boxed_method_def Let_def by (rule harmless_intros | simp)+

lemma harmless_unbox [simp]: "harmless e (snd (unbox J v g e))"
  by (simp add: unbox_def)

lemma harmless_read_encoding_request [simp]: "harmless e (snd (read_encoding_request J q e))"
  unfolding read_encoding_request_def Let_def by (rule harmless_intros | simp)+

section \<open>Ownership\<close>

text \<open>Since \<open>e0\<close> exactly what \<open>x\<close> owns was acquired.\<close>

definition context_owns :: "jenv \<Rightarrow> 'e encode_context \<Rightarrow> jenv \<Rightarrow> bool" where
  "context_owns e0 x e \<longleftrightarrow> wf_table x \<and>
     live_encoders e = live_encoders e0 + (if ec_encoder x = None then 0 else 1) \<and>
     live_decoders e = live_decoders e0 \<and>
     mset (live_blocks e) = mset (live_blocks e0) + mset (owned_blocks x) \<and>
     mset (global_refs e) = mset (global_refs e0) + mset (owned_refs x)"

definition balanced :: "jenv \<Rightarrow> jenv \<Rightarrow> bool" where
  "balanced e0 e \<longleftrightarrow> live_encoders e = live_encoders e0 \<and> live_decoders e = live_decoders e0 \<and>
     mset (live_blocks e) = mset (live_blocks e0) \<and> mset (global_refs e) = mset (global_refs e0)"

lemma context_owns_harmless: "context_owns e0 x e \<Longrightarrow> harmless e e1 \<Longrightarrow> context_owns e0 x e1"
  by (simp add: context_owns_def harmless_def same_resources_def)

lemma owned_updates [simp]:
  "owned_blocks (x\<lparr>ec_encoder := d\<rparr>) = owned_blocks x"
  "owned_refs (x\<lparr>ec_encoder := d\<rparr>) = owned_refs x"
  "wf_table (x\<lparr>ec_encoder := d\<rparr>) = wf_table x"
  "owned_blocks (x\<lparr>ec_handle := h, ec_reference_count := n, ec_released := b, ec_in_use := c\<rparr>) =
    owned_blocks x"
  "owned_refs (x\<lparr>ec_handle := h, ec_reference_count := n, ec_released := b, ec_in_use := c\<rparr>) =
    owned_refs x"
  "wf_table (x\<lparr>ec_handle := h, ec_reference_count := n, ec_released := b, ec_in_use := c\<rparr>) =
    wf_table x"
  by (simp_all add: owned_blocks_def owned_refs_def wf_table_def split: option.split)

lemma context_owns_encoder: "context_owns e0 (x\<lparr>ec_encoder := Some d\<rparr>) e \<longleftrightarrow>
    context_owns e0 (x\<lparr>ec_encoder := Some d'\<rparr>) e"
  by (simp add: context_owns_def)

lemma balanced_harmless: "balanced e0 e \<Longrightarrow> harmless e e1 \<Longrightarrow> balanced e0 e1"
  by (simp add: balanced_def harmless_def same_resources_def)

text \<open>Destroying a context gives everything back.\<close>

lemma destroy_balances:
  assumes "context_owns e0 x e"
  shows "balanced e0 (destroy_encode_context_parts x e)"
proof -
  let ?n = "unat (ec_metadata_count x)"
  have bound: "0 + ?n \<le> length (the (ec_metadata_blocks x))" if "ec_metadata_blocks x \<noteq> None"
    using assms that by (auto simp: context_owns_def wf_table_def)
  let ?e1 = "if ec_encoder x \<noteq> None then delete_encoder e else e"
  obtain x1 e2 where md: "destroy_metadata_blocks x ?e1 = (x1, e2)"
    by (cases "destroy_metadata_blocks x ?e1")
  have dec: "live_decoders e2 = live_decoders ?e1"
    using md delete_metadata_slots_refs [of ?e1 "the (ec_metadata_blocks x)" 0 ?n]
    by (auto simp: destroy_metadata_blocks_def same_refs_def split: option.splits)
  have b: "mset (live_blocks e2) = mset (live_blocks e) - mset (owned_blocks x)"
    "global_refs e2 = global_refs e" "live_encoders e2 = live_encoders ?e1"
    "ec_output_stream x1 = ec_output_stream x" "ec_output_channel x1 = ec_output_channel x"
    using md bound delete_metadata_slots_blocks [of 0 ?n "the (ec_metadata_blocks x)" ?e1]
    by (auto simp: destroy_metadata_blocks_def owned_blocks_def delete_encoder_def
        split: option.splits if_splits)
  have "destroy_encode_context_parts x e =
      (case ec_output_channel x of None \<Rightarrow> id | Some s \<Rightarrow> delete_global_ref s)
      ((case ec_output_stream x of None \<Rightarrow> id | Some s \<Rightarrow> delete_global_ref s) e2)"
    unfolding destroy_encode_context_parts_def Let_def md prod.case b(4,5)
    by (simp split: option.splits)
  with b(1-3) dec assms show ?thesis
    by (cases "ec_output_stream x"; cases "ec_output_channel x")
      (auto simp: balanced_def context_owns_def owned_refs_def delete_global_ref_def
        delete_encoder_def)
qed

lemma new_then_destroy:
  assumes "er_contexts r a = None"
  shows "destroy_encode_context (Some a) (new_encode_context x a r) e =
    (r, destroy_encode_context_parts (x\<lparr>ec_handle := 0, ec_reference_count := 0,
        ec_released := False, ec_in_use := False\<rparr>) e)"
  using assms fun_upd_idem [of "er_contexts r" a None]
  by (simp add: destroy_encode_context_def new_encode_context_def free_encode_context_def
      store_encode_context_def)

lemma context_owns_fields: "context_owns e0 (x\<lparr>ec_handle := h, ec_reference_count := n,
        ec_released := b, ec_in_use := c\<rparr>) e \<longleftrightarrow> context_owns e0 x e"
  by (simp add: context_owns_def)

lemma abandon_balanced:
  assumes "context_owns e0 x e" "er_contexts r a = None" "\<And>e. harmless e (report e)"
    "abandon_open a x report r e = Some (h, r', e')"
  shows "h = 0 \<and> r' = r \<and> balanced e0 e'"
proof -
  let ?e1 = "destroy_encode_context_parts (x\<lparr>ec_handle := 0, ec_reference_count := 0,
        ec_released := False, ec_in_use := False\<rparr>) e"
  have "balanced e0 ?e1"
    by (rule destroy_balances) (use assms(1) context_owns_fields in blast)
  then have "balanced e0 (report ?e1)" using assms(3) by (rule balanced_harmless)
  with assms(2,4) show ?thesis by (simp add: abandon_open_def new_then_destroy)
qed

section \<open>Preparing a target\<close>

text \<open>A preparation that starts with \<open>x\<close> keeps every global reference it makes in the context.\<close>

definition target_ok ::
  "'e encode_context \<Rightarrow> jenv \<Rightarrow> bool \<times> 'e encode_context \<times> jenv \<Rightarrow> bool" where
  "target_ok x e r \<longleftrightarrow>
     (case r of (ok, x1, e1) \<Rightarrow>
        ec_encoder x1 = ec_encoder x \<and> ec_metadata_blocks x1 = ec_metadata_blocks x \<and>
        ec_metadata_count x1 = ec_metadata_count x \<and> ec_channels x1 = ec_channels x \<and>
        (\<forall>e0. context_owns e0 x e \<longrightarrow> context_owns e0 x1 e1))"

lemma same_table:
  assumes "ec_metadata_blocks x1 = ec_metadata_blocks x" "ec_metadata_count x1 = ec_metadata_count x"
  shows "owned_blocks x1 = owned_blocks x" "wf_table x1 = wf_table x"
  unfolding owned_blocks_def wf_table_def assms by simp_all

lemma target_stop:
  assumes "harmless e e1" "owned_refs x1 = owned_refs x" "ec_encoder x1 = ec_encoder x"
    "ec_metadata_blocks x1 = ec_metadata_blocks x" "ec_metadata_count x1 = ec_metadata_count x"
    "ec_channels x1 = ec_channels x"
  shows "target_ok x e (ok, x1, e1)"
proof -
  have "context_owns e0 x1 e1" if "context_owns e0 x e" for e0
    using context_owns_harmless [OF that assms(1)] assms(2,3) same_table [OF assms(4,5)]
    by (simp add: context_owns_def)
  with assms show ?thesis by (simp add: target_ok_def)
qed

lemma target_bind:
  assumes "harmless e (snd c)" "\<And>y e1. target_ok x e1 (k y e1)"
  shows "target_ok x e (case c of (y, e1) \<Rightarrow> k y e1)"
proof (cases c)
  case (Pair y e1)
  then have q: "harmless e e1" using assms(1) by simp
  show ?thesis
    using assms(2) [of e1 y] context_owns_harmless [OF _ q, of _ x]
    by (simp add: Pair target_ok_def split: prod.splits)
qed

lemma target_if:
  assumes "b \<Longrightarrow> target_ok x e r1" "\<not> b \<Longrightarrow> target_ok x e r2"
  shows "target_ok x e (if b then r1 else r2)"
  using assms by simp

lemmas target_intros = target_if target_stop target_bind

text \<open>A new global reference, stored at once.\<close>

lemma context_owns_new_ref:
  assumes "context_owns e0 x e" "new_global_ref J obj e = (ref, e1)"
    "mset (owned_refs x1) = (case ref of None \<Rightarrow> {#} | Some s \<Rightarrow> {#s#}) + mset (owned_refs x)"
    "ec_encoder x1 = ec_encoder x" "ec_metadata_blocks x1 = ec_metadata_blocks x"
    "ec_metadata_count x1 = ec_metadata_count x"
  shows "context_owns e0 x1 e1"
  using assms(1-4) same_table [OF assms(5,6)]
  by (auto simp: context_owns_def new_global_ref_def Let_def plain_alloc_def split: if_splits)

lemma prepare_stream_target:
  assumes "ec_output_stream x = None"
  shows "target_ok x e (prepare_encode_output_stream J x (Some s) e)"
proof -
  let ?x1 = "\<lambda>m1 m2. x\<lparr>ec_output_write := m1, ec_output_flush := m2\<rparr>"
  have last: "target_ok x e (case new_global_ref J s e of (ref, e5) \<Rightarrow>
      (ref \<noteq> None, (?x1 m1 m2)\<lparr>ec_jvm := True, ec_output_stream := ref\<rparr>, e5))" for e m1 m2
  proof -
    obtain ref e1 where n: "new_global_ref J s e = (ref, e1)" by force
    show ?thesis
      using context_owns_new_ref [OF _ n,
          of _ x "(?x1 m1 m2)\<lparr>ec_jvm := True, ec_output_stream := ref\<rparr>"] assms
      by (auto simp: target_ok_def n owned_refs_def split: option.split)
  qed
  show ?thesis
    unfolding prepare_encode_output_stream_def option.case Let_def
    by (rule last target_intros | simp add: owned_refs_def)+
qed

lemma prepare_stream_channel:
  "prepare_encode_output_stream J x (Some s) e = (ok, x1, e1) \<Longrightarrow>
   ec_output_channel x1 = ec_output_channel x"
  by (auto simp: prepare_encode_output_stream_def Let_def split: prod.splits if_splits)

lemma prepare_channel_target:
  assumes "ec_output_channel x = None"
  shows "target_ok x e (prepare_encode_output_channel J x (Some obj) e)"
proof -
  let ?x1 = "\<lambda>m1 m2 m3 m4. x\<lparr>ec_channel_read := m1, ec_channel_write := m2,
    ec_channel_position := m3, ec_channel_seek := m4\<rparr>"
  have last: "target_ok x e (case new_global_ref J obj e of (ref, e9) \<Rightarrow>
      if ref = None
      then (False, (?x1 m1 m2 m3 m4)\<lparr>ec_jvm := True, ec_output_channel := ref\<rparr>, e9)
      else case call_long J ChannelPosition e9 of (offset, e10) \<Rightarrow>
        if exception_check e10
        then (False, (?x1 m1 m2 m3 m4)\<lparr>ec_jvm := True, ec_output_channel := ref,
               ec_channel_base_offset := offset\<rparr>, e10)
        else if sint offset < 0
        then (False, (?x1 m1 m2 m3 m4)\<lparr>ec_jvm := True, ec_output_channel := ref,
               ec_channel_base_offset := offset\<rparr>,
               throw_encode_exception ''SeekableByteChannel returned a negative position.'' e10)
        else (True, (?x1 m1 m2 m3 m4)\<lparr>ec_jvm := True, ec_output_channel := ref,
               ec_channel_base_offset := offset\<rparr>, e10))" for e m1 m2 m3 m4
  proof -
    obtain ref e1 where n: "new_global_ref J obj e = (ref, e1)" by force
    obtain offset e2 where p: "call_long J ChannelPosition e1 = (offset, e2)" by force
    then have q: "harmless e1 e2" by (rule harmless_result) simp
    let ?x2 = "(?x1 m1 m2 m3 m4)\<lparr>ec_jvm := True, ec_output_channel := ref\<rparr>"
    let ?x3 = "?x2\<lparr>ec_channel_base_offset := offset\<rparr>"
    have own: "context_owns e0 ?x2 e1" "context_owns e0 ?x3 e1" if "context_owns e0 x e" for e0
      using assms by (auto intro!: context_owns_new_ref [OF that n] simp: owned_refs_def
          split: option.split)
    have later: "context_owns e0 ?x3 e'" if "context_owns e0 x e" "harmless e1 e'" for e0 e'
      using own(2) [OF that(1)] that(2) by (rule context_owns_harmless)
    show ?thesis
      using own(1) later q by (auto simp: n p target_ok_def throw_encode_exception_def)
  qed
  show ?thesis
    unfolding prepare_encode_output_channel_def option.case Let_def
    by (rule last target_intros | simp add: owned_refs_def)+
qed

lemma prepare_target_ok:
  assumes "ec_output_stream x = None" "ec_output_channel x = None"
  shows "target_ok x e (prepare_encode_target J stream channel x e)"
proof -
  obtain ok x1 e1 where p: "(if stream \<noteq> None then prepare_encode_output_stream J x stream e
      else (True, x, e)) = (ok, x1, e1)" by (metis surj_pair)
  have t1: "target_ok x e (ok, x1, e1)"
  proof (cases stream)
    case (Some s)
    with p prepare_stream_target [OF assms(1), of e J s] show ?thesis by simp
  qed (use p target_stop [of e e x x True] in simp)
  have "ec_output_channel x1 = None"
    using p assms(2) prepare_stream_channel [of J x _ e ok x1 e1] by (cases stream) auto
  then have "target_ok x1 e1 (prepare_encode_output_channel J x1 channel e1)" if "channel \<noteq> None"
    using that prepare_channel_target [of x1 e1 J] by auto
  with t1 show ?thesis
    unfolding prepare_encode_target_def p Let_def prod.case by (auto simp: target_ok_def)
qed

section \<open>Opening\<close>

text \<open>The result of an open that began in \<open>e0\<close> with the registry \<open>r\<close>.\<close>

definition opened_ok ::
  "jenv \<Rightarrow> 'e encode_registry \<Rightarrow> nat option \<Rightarrow> (jlong \<times> 'e encode_registry \<times> jenv) option \<Rightarrow> bool"
where
  "opened_ok e0 r address res \<longleftrightarrow>
     (case res of
        None \<Rightarrow> True
      | Some (h, r', e') \<Rightarrow>
          if h = 0 then r' = r \<and> balanced e0 e'
          else \<exists>a x. address = Some a \<and> er_contexts r' = (er_contexts r)(a \<mapsto> x) \<and>
                 ec_encoder x \<noteq> None \<and> ec_handle x = h \<and> ec_reference_count x = 0 \<and>
                 \<not> ec_released x \<and> \<not> ec_in_use x \<and> context_owns e0 x e' \<and>
                 er_entries r' = (h, a) # er_entries r \<and> 0 < sint h \<and>
                 h \<notin> fst ` set (er_entries r) \<and> er_fault r' = er_fault r)"

lemma opened_stop: "harmless e0 e \<Longrightarrow> opened_ok e0 r address (Some (0, r, e))"
  by (auto simp: opened_ok_def balanced_def harmless_def same_resources_def)

lemma opened_abandon:
  assumes "context_owns e0 x e" "er_contexts r a = None" "\<And>e. harmless e (report e)"
  shows "opened_ok e0 r address (abandon_open a x report r e)"
proof (cases "abandon_open a x report r e")
  case (Some res)
  obtain h r' e' where res: "res = (h, r', e')" by (metis surj_pair)
  from abandon_balanced [OF assms Some [unfolded res]] show ?thesis
    by (simp add: opened_ok_def Some res)
qed (simp add: opened_ok_def)

lemma opened_if:
  assumes "b \<Longrightarrow> opened_ok e0 r address r1" "\<not> b \<Longrightarrow> opened_ok e0 r address r2"
  shows "opened_ok e0 r address (if b then r1 else r2)"
  using assms by simp

lemma opened_register:
  assumes own: "context_owns e0 x e" and free: "er_contexts r a = None"
    and enc: "ec_encoder x \<noteq> None"
  shows "opened_ok e0 r (Some a)
    (case register_encode_context J a (new_encode_context x a r) e of
       None \<Rightarrow> None
     | Some (handle, r1, e3) \<Rightarrow>
         if handle = 0
         then (case destroy_encode_context (Some a) r1 e3 of
                 (r2, e4) \<Rightarrow> Some (0, r2, throw_encode_exception message e4))
         else Some (handle, r1, e3))"
proof -
  obtain entry_ok e1 where m: "plain_alloc J (Malloc 24) e = (entry_ok, e1)" by force
  then have q: "harmless e e1" by (rule harmless_result) simp
  have own1: "context_owns e0 x e1" using own q by (rule context_owns_harmless)
  let ?r = "new_encode_context x a r"
  let ?x0 = "x\<lparr>ec_handle := 0, ec_reference_count := 0, ec_released := False, ec_in_use := False\<rparr>"
  show ?thesis
  proof (cases entry_ok)
    case False
    have "context_owns e0 ?x0 e1" using own1 by (simp add: context_owns_fields)
    from balanced_harmless [OF destroy_balances [OF this]]
    have "balanced e0 (throw_encode_exception message (destroy_encode_context_parts ?x0 e1))"
      by simp
    with False show ?thesis
      by (simp add: register_encode_context_def m new_then_destroy [OF free] opened_ok_def)
  next
    case True
    show ?thesis
    proof (cases "reserve_handle (er_entries r) (er_next_handle r)")
      case None
      with True show ?thesis
        by (simp add: register_encode_context_def m register_encode_context_locked_def
            reserve_encode_context_handle_locked_def new_encode_context_def
            store_encode_context_def opened_ok_def)
    next
      case (Some res)
      obtain h nxt where hn: "res = (h, nxt)" by force
      let ?x = "x\<lparr>ec_handle := h, ec_reference_count := 0, ec_released := False, ec_in_use := False\<rparr>"
      from reserve_handle_fresh [OF Some [unfolded hn]]
      have h: "0 < sint h" "h \<notin> fst ` set (er_entries r)"
        by (simp_all add: find_entry_None map_of_eq_None_iff)
      then have "h \<noteq> 0" by auto
      have "context_owns e0 ?x e1" using own1 by (simp add: context_owns_fields)
      with True Some hn h \<open>h \<noteq> 0\<close> enc show ?thesis
        by (simp add: register_encode_context_def m register_encode_context_locked_def
            reserve_encode_context_handle_locked_def new_encode_context_def
            store_encode_context_def opened_ok_def)
          (rule exI [of _ ?x], simp)
    qed
  qed
qed

lemma start_encoder_ok:
  fixes q :: encoding_request
  assumes own: "context_owns e0 x e" and free: "er_contexts r a = None"
    and x: "ec_metadata_blocks x = None" "ec_encoder x \<noteq> None"
    and len: "length (array_elements (mr_block_types q)) < 4294967296"
  shows "opened_ok e0 r (Some a) (start_encoder J A M a path stream channel q d x r e)"
proof -
  obtain ok x1 e1 where md: "build_request_metadata J M q x e = (ok, x1, e1)" by (metis surj_pair)
  have m: "metadata_ok (live_blocks e) x e (ok, x1, e1)"
    using build_request_metadata_ok [OF x(1) len, of e J M] md by simp
  then have same: "same_context x x1" by (simp add: metadata_ok_def)
  have blocks0: "owned_blocks x = []" using x(1) by (simp add: owned_blocks_def)
  have own1: "context_owns e0 x1 e1"
    using own m same_context_fields [OF same] blocks0
    by (auto simp: context_owns_def metadata_ok_def finished_def same_refs_def owned_refs_def
        split: if_splits)
  have enc1: "ec_encoder x1 \<noteq> None" using same_context_fields [OF same] x(2) by simp
  obtain attached d1 where at: "(if ec_metadata_count x1 > 0
      then stream_encoder_set_metadata A d (the (ec_metadata_blocks x1)) (ec_metadata_count x1)
      else (True, d)) = (attached, d1)" by force
  let ?x2 = "x1\<lparr>ec_encoder := Some d1\<rparr>"
  have own2: "context_owns e0 ?x2 e1" using own1 enc1 by (simp add: context_owns_def)
  obtain init_ok d2 e2 where i: "run_encoder_callbacks J ?x2
      (init_encode_target A d1 path stream channel (rq_container q)) e1 = (init_ok, d2, e2)"
    by (metis surj_pair)
  have q: "harmless e1 e2"
    using harmless_run_encoder_callbacks [of e1 J ?x2] i by (metis snd_conv)
  have own3: "context_owns e0 (?x2\<lparr>ec_encoder := Some d2\<rparr>) e2"
    using context_owns_harmless [OF own2 q] by (simp add: context_owns_def)
  show ?thesis
    unfolding start_encoder_def md at i Let_def prod.case
    by (rule opened_if opened_abandon own1 own2 own3 free opened_register | simp)+
qed

end
