(* ===== verification/Encode_Guarantees.thy ===== *)
theory Encode_Guarantees
  imports Encode_Ownership
begin

text \<open>
  What the encoder guarantees as a whole: an open that fails leaves nothing behind and one that
  succeeds registers exactly what it acquired; PCM reaches libFLAC only when it has the right
  length; finishing releases everything.
\<close>

section \<open>Opening\<close>

lemma opened_bind:
  assumes "c = (y, e1)" "harmless e (snd c)" "harmless e0 e"
  shows "harmless e0 e1"
  using assms by (auto intro: harmless_trans)

lemma open_encoder_internal_ok:
  fixes request :: "encoding_request option"
  assumes free: "\<And>a. address = Some a \<Longrightarrow> er_contexts r a = None"
    and len: "\<And>q. request = Some q \<Longrightarrow> length (array_elements (mr_block_types q)) < 4294967296"
  shows "opened_ok e r address
    (open_encoder_internal J A M address path stream channel request r e)"
proof (cases "path = None \<and> stream = None \<and> channel = None \<or> request = None")
  case True
  then show ?thesis by (simp add: open_encoder_internal_def opened_stop)
next
  case False
  then obtain q where q: "request = Some q" by auto
  obtain read_ok e1 where rd: "read_encoding_request J q e = (read_ok, e1)" by force
  then have q1: "harmless e e1" by (rule harmless_result) simp
  show ?thesis
  proof (cases "read_ok \<and> address \<noteq> None")
    case False
    then show ?thesis
      using \<open>\<not> (path = None \<and> _ \<or> _)\<close> q rd q1
      by (auto simp: open_encoder_internal_def opened_stop)
  next
    case True
    then obtain a where a: "address = Some a" by auto
    let ?x0 = "zero_encode_context\<lparr>ec_channels := rq_channels q\<rparr> :: 'a encode_context"
    obtain prepared x1 e2 where pr: "prepare_encode_target J stream channel ?x0 e1 = (prepared, x1, e2)"
      by (metis surj_pair)
    have "context_owns e ?x0 e1"
      using q1 by (simp add: context_owns_def wf_table_def owned_blocks_def owned_refs_def
          zero_encode_context_def harmless_def same_resources_def)
    moreover have "target_ok ?x0 e1 (prepared, x1, e2)"
      using prepare_target_ok [of ?x0 e1 J stream channel] pr by (simp add: zero_encode_context_def)
    ultimately have x1: "context_owns e x1 e2" "ec_encoder x1 = None" "ec_metadata_blocks x1 = None"
      by (simp_all add: target_ok_def zero_encode_context_def)
    show ?thesis
    proof (cases "stream_encoder_new A")
      case None
      then have "new_encoder A e2 = (None, e2)" by (simp add: new_encoder_def)
      with True False a q rd pr x1(1) free \<open>\<not> (path = None \<and> _ \<or> _)\<close> show ?thesis
        by (auto simp: open_encoder_internal_def intro: opened_abandon)
    next
      case (Some d0)
      let ?e3 = "e2\<lparr>live_encoders := live_encoders e2 + 1\<rparr>"
      have new: "new_encoder A e2 = (Some d0, ?e3)" by (simp add: new_encoder_def Some)
      have own: "context_owns e (x1\<lparr>ec_encoder := Some d\<rparr>) ?e3" for d
        using x1 by (simp add: context_owns_def)
      obtain status d1 where th: "set_encoder_threads A (rq_num_threads q) d0 = (status, d1)" by force
      obtain configured d2 where st: "apply_setters (encoder_setters A q) d1 = (configured, d2)"
        by force
      have harmless_status: "harmless ee (throw_thread_status s ee)" for s ee
        by (simp add: throw_thread_status_def split: num_threads_status.split)
      have start: "opened_ok e r (Some a)
          (start_encoder J A M a path stream channel q d2 (x1\<lparr>ec_encoder := Some d2\<rparr>) r ?e3)"
        by (rule start_encoder_ok [OF own]) (use a free len q x1 in auto)
      show ?thesis
        unfolding open_encoder_internal_def q option.sel rd Let_def prod.case a option.case pr new
          th st
        using \<open>\<not> (path = None \<and> _ \<or> _)\<close> [unfolded q]
        by (simp only: if_False)
          (rule opened_if opened_abandon opened_stop start x1(1) own free [OF a] harmless_status |
           (simp add: True q1; fail))+
    qed
  qed
qed

text \<open>
  A small encoder: it writes the four bytes of the stream marker when it is initialised and one byte
  for each sample. Its state counts the calls that processed PCM.
\<close>

definition sample_encoder :: "nat encoder_api" where
  "sample_encoder = \<lparr>stream_encoder_new = Some 0,
     stream_encoder_set_num_threads = (\<lambda>d n. (NUM_THREADS_OK, d)),
     stream_encoder_set_verify = (\<lambda>d v. (True, d)),
     stream_encoder_set_streamable_subset = (\<lambda>d v. (True, d)),
     stream_encoder_set_channels = (\<lambda>d v. (True, d)),
     stream_encoder_set_bits_per_sample = (\<lambda>d v. (True, d)),
     stream_encoder_set_sample_rate = (\<lambda>d v. (True, d)),
     stream_encoder_set_compression_level = (\<lambda>d v. (True, d)),
     stream_encoder_set_blocksize = (\<lambda>d v. (True, d)),
     stream_encoder_set_ogg_serial_number = (\<lambda>d v. (True, d)),
     stream_encoder_set_total_samples_estimate = (\<lambda>d v. (True, d)),
     stream_encoder_set_metadata = (\<lambda>d bs n. (True, d)),
     stream_encoder_init = (\<lambda>target ogg d.
       EncWriteCallback [102, 76, 97, 67] (\<lambda>st. EncReturn (st = ENC_WRITE_OK) d)),
     stream_encoder_process_interleaved = (\<lambda>d samples frames.
       EncWriteCallback (map ucast samples) (\<lambda>st. EncReturn (st = ENC_WRITE_OK) (Suc d))),
     stream_encoder_finish = (\<lambda>d. EncReturn True d),
     stream_encoder_get_resolved_state_string = (\<lambda>d. Some ''OK'')\<rparr>"

definition sample_encoding_request :: encoding_request where
  "sample_encoding_request = \<lparr>mr_comment_entries = None, mr_pictures = None,
     mr_application_blocks = None, mr_seek_tables = None, mr_cue_sheets = None,
     mr_padding_blocks = None, mr_unknown_blocks = None, mr_block_types = None,
     mr_block_values = None, rq_sample_rate = 44100, rq_channels = 2, rq_bits_per_sample = 16,
     rq_total_samples_estimate = None, rq_compression_level = 5, rq_verify = False,
     rq_streamable_subset = True, rq_block_size = None, rq_num_threads = 1, rq_container = 0,
     rq_ogg_serial_number = None\<rparr>"

lemma sample_lookups:
  "\<exists>cs. find_instance_methods sample_jvm ns (e\<lparr>calls := c\<rparr>) = (True, e\<lparr>calls := cs\<rparr>)"
  if "pending e = None"
proof (induction ns arbitrary: c)
  case (Cons n ns)
  then show ?case using that
    by (simp add: find_instance_methods.simps find_instance_method_def sample_jvm_steps
        exception_check_def)
qed (auto simp: find_instance_methods.simps)

lemma sample_getters:
  "\<exists>cs. call_getters sample_jvm ns (e\<lparr>calls := c\<rparr>) = (True, e\<lparr>calls := cs\<rparr>)"
  if "pending e = None"
proof (induction ns arbitrary: c)
  case (Cons n ns)
  then show ?case using that by (simp add: call_getters.simps sample_jvm_steps)
qed (auto simp: call_getters.simps)

lemma sample_request_read:
  "\<exists>cs. read_encoding_request sample_jvm sample_encoding_request initial_env =
     (True, initial_env\<lparr>calls := cs\<rparr>)"
proof -
  have p: "pending initial_env = None" by (simp add: initial_env_def)
  obtain cs1 where 1: "find_instance_methods sample_jvm encoding_request_methods
      (initial_env\<lparr>calls := Jni ''GetObjectClass'' # calls initial_env\<rparr>) =
      (True, initial_env\<lparr>calls := cs1\<rparr>)"
    using sample_lookups [OF p] by blast
  obtain cs2 where 2: "call_getters sample_jvm encoding_request_getters
      (initial_env\<lparr>calls := cs1\<rparr>) = (True, initial_env\<lparr>calls := cs2\<rparr>)"
    using sample_getters [OF p] by blast
  show ?thesis
    by (intro exI [of _ cs2])
      (simp add: read_encoding_request_def sample_jvm_steps 1 2 sample_encoding_request_def
        validate_container_def is_valid_container_def JFLAC_CONTAINER_NATIVE_def
        find_boxed_method_def unbox_def exception_check_def p)
qed

lemma sample_encoder_sel [simp]:
  "stream_encoder_new sample_encoder = Some 0"
  "stream_encoder_init sample_encoder target ogg d =
    EncWriteCallback [102, 76, 97, 67] (\<lambda>st. EncReturn (st = ENC_WRITE_OK) d)"
  "stream_encoder_process_interleaved sample_encoder d samples frames =
    EncWriteCallback (map ucast samples) (\<lambda>st. EncReturn (st = ENC_WRITE_OK) (Suc d))"
  "stream_encoder_finish sample_encoder d = EncReturn True d"
  by (simp_all add: sample_encoder_def)

lemma sample_configured:
  "set_encoder_threads sample_encoder (rq_num_threads sample_encoding_request) d = (NUM_THREADS_OK, d)"
  "apply_setters (encoder_setters sample_encoder sample_encoding_request) d = (True, d)"
  "build_request_metadata J M sample_encoding_request x e =
    (True, x\<lparr>ec_metadata_blocks := None, ec_metadata_count := 0\<rparr>, e)"
  by (simp_all add: set_encoder_threads_def encoder_setters_def sample_encoder_def
      sample_encoding_request_def build_request_metadata_def build_metadata_blocks_def
      total_metadata_blocks_def array_elements_def)

lemma sample_alloc [simp]: "jv_alloc sample_jvm cs" "jv_throws sample_jvm cs = None"
  by (simp_all add: sample_jvm_def)

lemma sample_java_call [simp]: "java_call sample_jvm c e = e\<lparr>calls := c # calls e\<rparr>"
  by (simp add: java_call_def sample_jvm_def)

text \<open>A chunk written to a stream that accepts everything.\<close>

lemma sample_write:
  assumes "ec_output_channel x = None" "ec_output_stream x \<noteq> None" "ec_output_write x" "ec_jvm x"
    "pending e = None" "buffer \<noteq> []" "int (length buffer) \<le> INT_MAX"
  shows "encode_write_callback sample_jvm x buffer e = (ENC_WRITE_OK,
    e\<lparr>calls := OutputWrite buffer # Jni ''SetByteArrayRegion'' #
       NewByteArray (of_nat (length buffer)) # Jni ''GetEnv'' # calls e\<rparr>)"
  using assms
  by (simp add: encode_write_callback_def encode_context_env_def sample_jvm_steps
      exception_check_def)

lemma sample_open:
  "\<exists>r' e'. open_encoder_internal sample_jvm sample_encoder sample_metadata (Some 10) None (Some 8)
     None (Some sample_encoding_request) initial_encode_registry initial_env = Some (1, r', e')"
proof -
  obtain cs where rd: "read_encoding_request sample_jvm sample_encoding_request initial_env =
      (True, initial_env\<lparr>calls := cs\<rparr>)" using sample_request_read by blast
  have reserve: "reserve_handle [] 1 = Some (1, 2)"
    by (simp add: reserve_handle.simps [of "[]"] find_entry_def advance_handle_def
        JFLAC_FIRST_VALID_HANDLE_def)
  have p: "pending initial_env = None" by (simp add: initial_env_def)
  show ?thesis
    by (simp add: open_encoder_internal_def rd prepare_encode_target_def
        prepare_encode_output_stream_def sample_jvm_steps new_global_ref_def new_encoder_def
        sample_configured start_encoder_def init_encode_target_def
        init_stream_encoder_for_container_def sample_write zero_encode_context_def p
        register_encode_context_def register_encode_context_locked_def
        reserve_encode_context_handle_locked_def new_encode_context_def store_encode_context_def
        initial_encode_registry_def reserve JFLAC_FIRST_VALID_HANDLE_def Let_def)
qed

text \<open>
  C33: opening an encoder is all or nothing. A failed open (handle 0) leaves the registry as it was
  and holds no encoder, metadata object or global reference, however far it got. A successful one
  registers one idle context under a fresh positive handle, and what exists in addition is exactly
  what that context owns.
\<close>

theorem open_encoder_internal_outcome:
  fixes request :: "encoding_request option"
  assumes "\<And>a. address = Some a \<Longrightarrow> er_contexts r a = None"
    "\<And>q. request = Some q \<Longrightarrow> length (array_elements (mr_block_types q)) < 4294967296"
    "open_encoder_internal J A M address path stream channel request r e = Some (h, r', e')"
  shows "if h = 0
    then r' = r \<and> live_encoders e' = live_encoders e \<and>
      mset (live_blocks e') = mset (live_blocks e) \<and> mset (global_refs e') = mset (global_refs e)
    else 0 < sint h \<and> h \<notin> fst ` set (er_entries r) \<and>
      (\<exists>a x. address = Some a \<and> er_entries r' = (h, a) # er_entries r \<and>
         er_contexts r' = (er_contexts r)(a \<mapsto> x) \<and> ec_encoder x \<noteq> None \<and>
         ec_reference_count x = 0 \<and> \<not> ec_released x \<and> \<not> ec_in_use x \<and>
         live_encoders e' = live_encoders e + 1 \<and>
         mset (live_blocks e') = mset (live_blocks e) + mset (owned_blocks x) \<and>
         mset (global_refs e') = mset (global_refs e) + mset (owned_refs x))"
proof -
  have "opened_ok e r address (Some (h, r', e'))"
    unfolding assms(3) [symmetric] by (rule open_encoder_internal_ok [OF assms(1,2)])
  then show ?thesis
    by (auto simp: opened_ok_def balanced_def context_owns_def split: if_splits)
qed

lemma open_encoder_internal_outcome_witness:
  "\<exists>r' e'. open_encoder_internal sample_jvm sample_encoder sample_metadata (Some 10) None (Some 8)
     None (Some sample_encoding_request) initial_encode_registry initial_env = Some (1, r', e') \<and>
     er_entries r' = [(1, 10)] \<and> live_encoders e' = 1"
proof -
  obtain r' e' where o: "open_encoder_internal sample_jvm sample_encoder sample_metadata (Some 10)
      None (Some 8) None (Some sample_encoding_request) initial_encode_registry initial_env =
      Some (1, r', e')" using sample_open by blast
  from open_encoder_internal_outcome [OF _ _ o] show ?thesis
    using o by (auto simp: initial_encode_registry_def initial_env_def array_elements_def
        sample_encoding_request_def)
qed

section \<open>A context in use\<close>

text \<open>The callbacks look only at the target of the context.\<close>

lemma callbacks_cong:
  assumes "ec_jvm y = ec_jvm x" "ec_output_stream y = ec_output_stream x"
    "ec_output_write y = ec_output_write x" "ec_output_channel y = ec_output_channel x"
    "ec_channel_read y = ec_channel_read x" "ec_channel_write y = ec_channel_write x"
    "ec_channel_position y = ec_channel_position x" "ec_channel_seek y = ec_channel_seek x"
    "ec_channel_base_offset y = ec_channel_base_offset x"
  shows "run_encoder_callbacks J y run e = run_encoder_callbacks J x run e"
proof -
  have "encode_channel_read_callback J y = encode_channel_read_callback J x"
    "encode_write_callback J y = encode_write_callback J x"
    "encode_channel_seek_callback J y = encode_channel_seek_callback J x"
    "encode_channel_tell_callback J y = encode_channel_tell_callback J x"
    unfolding fun_eq_iff encode_channel_read_callback_def encode_write_callback_def
      encode_channel_write_callback_def encode_channel_seek_callback_def
      encode_channel_tell_callback_def encode_context_env_def assms by simp_all
  then show ?thesis by (induction run arbitrary: e) simp_all
qed

lemma callbacks_in_use:
  "run_encoder_callbacks J (x\<lparr>ec_reference_count := n, ec_in_use := c\<rparr>) run e =
    run_encoder_callbacks J x run e"
  by (rule callbacks_cong) simp_all

text \<open>An idle context, registered under a handle.\<close>

definition idle_context ::
  "jlong \<Rightarrow> nat \<Rightarrow> 'e encode_context \<Rightarrow> 'e encode_registry \<Rightarrow> bool" where
  "idle_context handle a x r \<longleftrightarrow>
     0 < sint handle \<and> map_of (er_entries r) handle = Some a \<and> er_contexts r a = Some x \<and>
     ec_reference_count x = 0 \<and> \<not> ec_released x \<and> \<not> ec_in_use x \<and> ec_encoder x \<noteq> None"

lemma acquire_idle:
  assumes "idle_context handle a x r"
  shows "acquire_encode_context handle r e =
    (Some a, store_encode_context a (x\<lparr>ec_reference_count := 1, ec_in_use := True\<rparr>) r, e)"
proof -
  obtain k p where f: "find_entry (er_entries r) handle = Some (k, p)"
    using assms find_entry_None [of "er_entries r" handle] by (auto simp: idle_context_def)
  have "entry_object (er_entries r ! k) = a"
    using find_entry_lookup [OF f] assms by (simp add: idle_context_def)
  with f assms show ?thesis
    by (auto simp: acquire_encode_context_def acquire_encode_context_locked_def
        find_encode_context_entry_locked_def idle_context_def)
qed

lemma leave_idle:
  assumes "idle_context handle a x r"
  shows "leave_encoder id a (y\<lparr>ec_encoder := d\<rparr>)
      (store_encode_context a (x\<lparr>ec_reference_count := 1, ec_in_use := True\<rparr>) r) e =
    (store_encode_context a (y\<lparr>ec_encoder := d, ec_handle := ec_handle x, ec_released := False,
       ec_reference_count := 0, ec_in_use := False\<rparr>) r, e)"
  using assms
  by (simp add: leave_encoder_def update_encode_context_def store_encode_context_def
      release_encode_context_reference_def release_encode_context_reference_locked_def
      idle_context_def Let_def)

lemma store_same: "er_contexts r a = Some x \<Longrightarrow> store_encode_context a x r = r"
  by (simp add: store_encode_context_def fun_upd_idem)

lemma leave_unchanged:
  assumes "idle_context handle a x r"
  shows "leave_encoder id a (x\<lparr>ec_reference_count := 1, ec_in_use := True\<rparr>)
      (store_encode_context a (x\<lparr>ec_reference_count := 1, ec_in_use := True\<rparr>) r) e = (r, e)"
proof -
  have "x\<lparr>ec_released := False, ec_reference_count := 0, ec_in_use := False\<rparr> = x"
    using assms by (simp add: idle_context_def)
  moreover have "er_contexts r a = Some x" using assms by (simp add: idle_context_def)
  ultimately show ?thesis
    using leave_idle [OF assms, where y = "x\<lparr>ec_reference_count := 1, ec_in_use := True\<rparr>" and
        d = "ec_encoder x"] store_same [of r a x]
    by simp
qed

section \<open>Writing\<close>

lemma sample_count_matches:
  fixes frames :: jint and chans :: u32
  assumes "0 \<le> sint frames" "int n \<le> INT_MAX"
  shows "(of_nat n :: u64) = scast frames * ucast chans \<longleftrightarrow> int n = sint frames * uint chans"
proof -
  let ?f = "scast frames :: u64" and ?c = "ucast chans :: u64"
  have f: "unat ?f = unat frames" "int (unat frames) = sint frames"
    using sint_scast_pos [OF assms(1)] sint_nonneg_unat [OF assms(1)] by simp_all
  have c: "unat ?c = unat chans"
    using unat_u32_less [of chans] by (simp add: unsigned_ucast_eq take_bit_nat_eq_self)
  have "unat frames \<le> 2147483647" using f(2) sint_jint_bounds(2) [of frames] by linarith
  then have "unat frames * unat chans \<le> 2147483647 * 4294967296"
    using unat_u32_less [of chans] by (intro mult_mono) simp_all
  then have "unat (?f * ?c) = unat frames * unat chans"
    using unat_mult_lem [of ?f ?c] by (simp add: f(1) c)
  moreover have "unat (of_nat n :: u64) = n" using assms(2) by (simp add: unat_of_nat)
  then have "of_nat n = ?f * ?c \<longleftrightarrow> n = unat (?f * ?c)"
    by (auto dest: arg_cong [where f = unat])
  moreover have "sint frames * uint chans = int (unat frames * unat chans)"
    by (simp add: sint_nonneg_uint [OF assms(1)])
  ultimately show ?thesis by linarith
qed

text \<open>
  C34: PCM reaches libFLAC exactly when the call is well formed. A negative frame count, a null
  array, or an array whose length is not frames times channels (as integers, the product cannot
  overflow) raises IllegalArgumentException and changes nothing; zero frames do nothing; otherwise
  libFLAC is given exactly the samples of the array and the frame count, and an exception is pending
  afterwards if and only if a callback left one or libFLAC failed.
\<close>

theorem writeEncoderInterleaved_outcome:
  assumes "idle_context handle a x r" "ec_encoder x = Some d" "\<not> exception_check e"
    "int (length (the samples)) \<le> INT_MAX"
    "writeEncoderInterleaved J A id handle samples frames r e = (r', e')"
  shows "if frames = 0 then r' = r \<and> e' = e
    else if sint frames < 0 \<or> samples = None \<or>
      int (length (the samples)) \<noteq> sint frames * uint (ec_channels x)
    then r' = r \<and> calls e' = calls e \<and> (\<exists>m. pending e' = Some (IllegalArgumentException m))
    else if \<not> jv_alloc J (Jni ''GetIntArrayElements'' # calls e)
    then r' = r \<and> (\<exists>m. pending e' = Some (FlacEncodeException m))
    else case run_encoder_callbacks J x
        (stream_encoder_process_interleaved A d (the samples) frames)
        (e\<lparr>calls := Jni ''GetIntArrayElements'' # calls e\<rparr>) of
      (success, d1, e3) \<Rightarrow>
        er_entries r' = er_entries r \<and>
        er_contexts r' = (er_contexts r)(a \<mapsto> x\<lparr>ec_encoder := Some d1\<rparr>) \<and>
        calls e' = calls e3 \<and> (exception_check e' \<longleftrightarrow> exception_check e3 \<or> \<not> success)"
proof -
  let ?y = "x\<lparr>ec_reference_count := 1, ec_in_use := True\<rparr>"
  let ?r1 = "store_encode_context a ?y r"
  have ctx: "the (er_contexts ?r1 a) = ?y" "the (ec_encoder ?y) = d"
    using assms(2) by (simp_all add: store_encode_context_def)
  have same: "x\<lparr>ec_encoder := Some d1, ec_handle := ec_handle x, ec_released := False,
      ec_reference_count := 0, ec_in_use := False\<rparr> = x\<lparr>ec_encoder := Some d1\<rparr>" for d1
    using assms(1) by (simp add: idle_context_def)
  note unchanged = leave_unchanged [OF assms(1)]
  have leave: "leave_encoder id a (?y\<lparr>ec_encoder := Some d1\<rparr>) ?r1 ee =
      (store_encode_context a (x\<lparr>ec_encoder := Some d1\<rparr>) r, ee)" for d1 ee
    using leave_idle [OF assms(1), where y = ?y and d = "Some d1"] same [of d1] by simp
  note res = assms(5) [unfolded writeEncoderInterleaved_def acquire_idle [OF assms(1)] Let_def
      prod.case option.case ctx unchanged]
  have size: "(of_nat (length (the samples)) :: u64) \<noteq> scast frames * ucast (ec_channels ?y) \<longleftrightarrow>
      int (length (the samples)) \<noteq> sint frames * uint (ec_channels x)" if "0 \<le> sint frames"
    using sample_count_matches [OF that assms(4), of "ec_channels x"] by simp
  obtain success d1 e3 where run: "run_encoder_callbacks J x
      (stream_encoder_process_interleaved A d (the samples) frames)
      (e\<lparr>calls := Jni ''GetIntArrayElements'' # calls e\<rparr>) = (success, d1, e3)"
    by (metis surj_pair)
  have alloc: "plain_alloc J c e = (jv_alloc J (c # calls e), e\<lparr>calls := c # calls e\<rparr>)" for c
    by (simp add: plain_alloc_def)
  consider "sint frames < 0" | "frames = 0" | "0 < sint frames" "samples = None"
    | "0 < sint frames" "samples \<noteq> None" by (metis linorder_neqE_linordered_idom signed_eq_0_iff)
  then show ?thesis
  proof cases
    case 1
    then have "frames \<noteq> 0" by auto
    with 1 res show ?thesis by (auto simp: throw_defs env_simps)
  next
    case 2
    with res show ?thesis by simp
  next
    case 3
    then have "frames \<noteq> 0" by auto
    with 3 res show ?thesis by (auto simp: throw_defs env_simps)
  next
    case 4
    then have "frames \<noteq> 0" "0 \<le> sint frames" "\<not> sint frames < 0" by auto
    with 4 res size [OF \<open>0 \<le> sint frames\<close>] run show ?thesis
      by (auto simp: throw_defs env_simps alloc callbacks_in_use store_encode_context_def
          leave [unfolded store_encode_context_def] split: if_splits)
  qed
qed

lemma sample_idle:
  "idle_context 1 10 (sample_encode_context\<lparr>ec_handle := 1\<rparr>) sample_encode_registry"
  by (simp add: idle_context_def sample_encode_registry_def sample_encode_context_def)

lemma writeEncoderInterleaved_outcome_witness:
  "\<exists>r' e'. writeEncoderInterleaved sample_jvm sample_encoder id 1 (Some [1, 2, 3, 4]) 2
     sample_encode_registry initial_env = (r', e') \<and>
     hd (calls e') = OutputWrite [1, 2, 3, 4] \<and> \<not> exception_check e' \<and>
     map_option ec_encoder (er_contexts r' 10) = Some (Some 6)"
proof -
  let ?x = "sample_encode_context\<lparr>ec_handle := 1\<rparr>"
  obtain r' e' where w: "writeEncoderInterleaved sample_jvm sample_encoder id 1 (Some [1, 2, 3, 4]) 2
      sample_encode_registry initial_env = (r', e')" by (metis surj_pair)
  have x: "ec_encoder ?x = Some 5" "ec_channels ?x = 2" "ec_output_channel ?x = None"
    "ec_output_stream ?x \<noteq> None" "ec_output_write ?x" "ec_jvm ?x"
    by (simp_all add: sample_encode_context_def)
  have p: "\<not> exception_check initial_env" "pending initial_env = None"
    by (simp_all add: initial_env_def exception_check_def)
  from writeEncoderInterleaved_outcome [OF sample_idle x(1) p(1) _ w] x p
  have "hd (calls e') = OutputWrite [1, 2, 3, 4] \<and> \<not> exception_check e' \<and>
      map_option ec_encoder (er_contexts r' 10) = Some (Some 6)"
    by (simp add: sample_write sample_encode_registry_def exception_check_def)
  with w show ?thesis by blast
qed

section \<open>Finishing\<close>

lemma delete_metadata_slots_calls:
  "calls (delete_metadata_slots blocks i n e) = calls e \<and>
   pending (delete_metadata_slots blocks i n e) = pending e"
  by (induction n arbitrary: i e) (simp_all add: metadata_object_delete_def split: option.split)

lemma destroy_parts_calls:
  "calls (destroy_encode_context_parts x e) = calls e \<and>
   pending (destroy_encode_context_parts x e) = pending e"
  using delete_metadata_slots_calls
  by (auto simp: destroy_encode_context_parts_def destroy_metadata_blocks_def delete_encoder_def
      delete_global_ref_def Let_def split: option.splits)

lemma remove_acquired:
  assumes "idle_context handle a x r"
  shows "remove_encode_context handle
      (store_encode_context a (x\<lparr>ec_reference_count := 1, ec_in_use := True\<rparr>) r) =
    (None, (store_encode_context a (x\<lparr>ec_reference_count := 1, ec_in_use := True,
       ec_released := True\<rparr>) r)\<lparr>er_entries := remove1 (handle, a) (er_entries r)\<rparr>)"
proof -
  obtain k p where f: "find_entry (er_entries r) handle = Some (k, p)"
    using assms find_entry_None [of "er_entries r" handle] by (auto simp: idle_context_def)
  have k: "entry_object (er_entries r ! k) = a"
    using find_entry_lookup [OF f] assms by (simp add: idle_context_def)
  show ?thesis
    using f k unlink_found [OF f] assms
    by (simp add: remove_encode_context_def find_encode_context_entry_locked_def
        store_encode_context_def idle_context_def Let_def)
qed

text \<open>The last release of a removed context destroys it.\<close>

lemma leave_removed:
  assumes "er_contexts r a = Some y" "ec_reference_count y = 1" "ec_released y"
  defines "z \<equiv> \<lambda>x. x\<lparr>ec_handle := ec_handle y, ec_released := True, ec_reference_count := 0,
    ec_in_use := False\<rparr>"
  shows "leave_encoder id a x r e =
    (r\<lparr>er_contexts := (er_contexts r)(a := None)\<rparr>, destroy_encode_context_parts (z x) e)"
  using assms
  by (simp add: leave_encoder_def update_encode_context_def store_encode_context_def
      release_encode_context_reference_def release_encode_context_reference_locked_def
      destroy_encode_context_def free_encode_context_def)

text \<open>
  C40: finishing an encoder gives back everything its context acquired, whether libFLAC succeeds or
  not: the handle leaves the table, the context is freed, and the encoder, metadata objects and
  global references are those that existed before the context (\<open>e0\<close>). The stream is flushed
  exactly after a successful finish of a stream target, as the last Java call; an exception is
  pending if and only if a callback left one, the flush threw, or libFLAC failed.
\<close>

theorem finishEncoder_releases:
  assumes "idle_context handle a x r" "ec_encoder x = Some d" "context_owns e0 x e"
    "run_encoder_callbacks J x (stream_encoder_finish A d) e = (success, d1, e2)"
    "finishEncoder J A id handle r e = (r', e')"
  defines "flushed \<equiv> success \<and> ec_output_stream x \<noteq> None \<and> ec_output_flush x"
  shows "er_entries r' = remove1 (handle, a) (er_entries r) \<and>
    er_contexts r' = (er_contexts r)(a := None) \<and> er_fault r' = er_fault r \<and>
    live_encoders e' = live_encoders e0 \<and> mset (live_blocks e') = mset (live_blocks e0) \<and>
    mset (global_refs e') = mset (global_refs e0) \<and>
    calls e' = (if flushed then OutputFlush # calls e2 else calls e2) \<and>
    (exception_check e' \<longleftrightarrow> exception_check e2 \<or> \<not> success \<or>
       flushed \<and> jv_throws J (OutputFlush # calls e2) \<noteq> None)"
proof -
  let ?y = "x\<lparr>ec_reference_count := 1, ec_in_use := True, ec_released := True\<rparr>"
  let ?r2 = "(store_encode_context a ?y r)\<lparr>er_entries := remove1 (handle, a) (er_entries r)\<rparr>"
  let ?e3 = "if flushed then java_call J OutputFlush e2 else e2"
  let ?z0 = "?y\<lparr>ec_encoder := Some d1\<rparr>"
  have y: "the (er_contexts ?r2 a) = ?y" "the (ec_encoder ?y) = d"
    using assms(2) by (simp_all add: store_encode_context_def)
  have run: "run_encoder_callbacks J ?y (stream_encoder_finish A d) e = (success, d1, e2)"
    unfolding assms(4) [symmetric] by (rule callbacks_cong) simp_all
  define z where "z = ?z0\<lparr>ec_handle := ec_handle ?y, ec_released := True, ec_reference_count := 0,
    ec_in_use := False\<rparr>"
  have z: "leave_encoder id a ?z0 ?r2 ?e3 =
      (?r2\<lparr>er_contexts := (er_contexts ?r2)(a := None)\<rparr>, destroy_encode_context_parts z ?e3)"
    unfolding z_def by (rule leave_removed) (simp_all add: store_encode_context_def)
  have same: "owned_blocks z = owned_blocks x" "wf_table z = wf_table x"
    by (rule same_table; simp add: z_def)+
  have same': "owned_refs z = owned_refs x" "ec_encoder z = Some d1"
    by (simp_all add: z_def owned_refs_def)
  have "harmless e e2" using harmless_run_encoder_callbacks [of e J x] assms(4) by (metis snd_conv)
  then have "harmless e ?e3" by simp
  with assms(3) have "context_owns e0 x ?e3" by (rule context_owns_harmless)
  then have "context_owns e0 z ?e3"
    using same same' assms(2) by (simp add: context_owns_def)
  then have bal: "balanced e0 (destroy_encode_context_parts z ?e3)" by (rule destroy_balances)
  note dest = destroy_parts_calls [of z ?e3]
  have check: "exception_check (destroy_encode_context_parts z ?e3) \<longleftrightarrow> exception_check ?e3"
    using dest by (simp add: exception_check_def)
  have e3: "exception_check ?e3 \<longleftrightarrow>
      exception_check e2 \<or> flushed \<and> jv_throws J (OutputFlush # calls e2) \<noteq> None"
    by (simp add: exception_check_java_call)
  have calls3: "calls ?e3 = (if flushed then OutputFlush # calls e2 else calls e2)"
    by (simp add: env_simps)
  have flush: "(if success \<and> ec_output_stream ?y \<noteq> None \<and> ec_output_flush ?y
      then java_call J OutputFlush e2 else e2) = ?e3"
    by (simp add: flushed_def)
  note res = assms(5) [unfolded finishEncoder_def acquire_idle [OF assms(1)]
      remove_acquired [OF assms(1)] Let_def prod.case option.case y run flush z check]
  have "er_entries r' = remove1 (handle, a) (er_entries r) \<and>
      er_contexts r' = (er_contexts r)(a := None) \<and> er_fault r' = er_fault r"
    using res by (auto simp: store_encode_context_def split: if_splits)
  moreover have "balanced e0 e'"
    using res bal by (auto simp: balanced_def throw_encode_exception_def env_simps split: if_splits)
  moreover have "calls e' = calls ?e3"
    using res dest by (auto simp: throw_encode_exception_def env_simps split: if_splits)
  moreover have "exception_check e' \<longleftrightarrow> exception_check ?e3 \<or> \<not> success"
    using res check by (auto simp: throw_encode_exception_def split: if_splits)
  ultimately show ?thesis using e3 calls3 by (auto simp: balanced_def)
qed

lemma finishEncoder_releases_witness:
  "\<exists>r' e'. finishEncoder sample_jvm sample_encoder id 1 sample_encode_registry
     (initial_env\<lparr>live_encoders := 1, live_blocks := [70], global_refs := [8]\<rparr>) = (r', e') \<and>
     er_entries r' = [] \<and> live_encoders e' = 0 \<and> live_blocks e' = [] \<and> calls e' = [OutputFlush]"
proof -
  let ?x = "sample_encode_context\<lparr>ec_handle := 1\<rparr>"
  let ?e = "initial_env\<lparr>live_encoders := 1, live_blocks := [70], global_refs := [8]\<rparr>"
  obtain r' e' where f: "finishEncoder sample_jvm sample_encoder id 1 sample_encode_registry ?e = (r', e')"
    by (metis surj_pair)
  have run: "run_encoder_callbacks sample_jvm ?x (stream_encoder_finish sample_encoder 5) ?e =
      (True, 5, ?e)" by simp
  have own: "context_owns initial_env ?x ?e"
    by (simp add: context_owns_def wf_table_def owned_blocks_def owned_refs_def
        sample_encode_context_def initial_env_def take_Cons')
  have x: "ec_encoder ?x = Some 5" "ec_output_stream ?x \<noteq> None" "ec_output_flush ?x"
    by (simp_all add: sample_encode_context_def)
  from finishEncoder_releases [OF sample_idle x(1) own run f] x f show ?thesis
    by (auto simp: sample_encode_registry_def initial_env_def)
qed

end
