(* ===== verification/Metadata_Reading.thy ===== *)
theory Metadata_Reading
  imports Metadata_Edit
begin

text \<open>
  Java objects from libFLAC's metadata (\<open>new_utf8_string\<close> and \<open>new_application_block\<close> to
  \<open>new_picture\<close> of \<open>jflac_jni.c\<close>). A constructor returns the object, or None for NULL. What Java
  makes of bytes it is told are UTF-8 is the parameter \<open>N\<close>: a \<open>string\<close> here stands for the standard
  UTF-8 encoding of a Java text, so on well-formed bytes \<open>N\<close> is the identity. The Java list a
  constructor fills is the list of what was added. A block whose \<open>length\<close> is not the size of its body
  does not come from libFLAC; the copies take the bytes \<open>length\<close> announces.
\<close>

section \<open>Text, arrays and lists\<close>

definition new_utf8_string ::
  "(string \<Rightarrow> string) \<Rightarrow> jvm \<Rightarrow> string \<Rightarrow> jenv \<Rightarrow> string option \<times> jenv" where
  "new_utf8_string N J bytes e =
     (if int (length bytes) > INT_MAX
      then (None, throw_decode_exception
              ''UTF-8 metadata text is too large for one JVM byte array.'' e) else
      let (lookups_ok, e1) = java_seq J [Jni ''PushLocalFrame'', Jni ''FindClass String'',
            GetMethodID ''<init>'', Jni ''FindClass StandardCharsets'',
            Jni ''GetStaticFieldID UTF_8''] e in
      if \<not> lookups_ok then (None, e1) else
      let (charset_ok, e2) = plain_alloc J (Jni ''GetStaticObjectField UTF_8'') e1 in
      if \<not> charset_ok then (None, e2) else
      let (array_ok, e3) = java_try J (NewByteArray (of_nat (length bytes))) e2 in
      if \<not> array_ok then (None, e3) else
      let (copied, e4) = (if length bytes > 0 then call_getter J ''SetByteArrayRegion'' e3
            else (True, e3)) in
      if \<not> copied then (None, e4) else
      let (made, e5) = call_getter J ''NewObject String'' e4
      in (if made then Some (N bytes) else None, e5))"

text \<open>\<open>CallBooleanMethod(list, add, element)\<close>: its answer and whether it threw.\<close>

definition list_add :: "jvm \<Rightarrow> string \<Rightarrow> jenv \<Rightarrow> bool \<times> jenv" where
  "list_add J failure e =
     (let (added, e1) = call_int J (Jni ''ArrayList.add'') e in
      if exception_check e1 then (False, e1) else
      if added = 0 then (False, throw_decode_exception failure e1) else (True, e1))"

text \<open>\<open>NewObject\<close> of an \<open>ArrayList\<close> or of a model class: NULL exactly when an exception is pending.\<close>

definition new_object :: "jvm \<Rightarrow> string \<Rightarrow> 'a \<Rightarrow> jenv \<Rightarrow> 'a option \<times> jenv" where
  "new_object J name value e =
     (let (made, e1) = call_getter J (''NewObject '' @ name) e
      in (if made then Some value else None, e1))"

section \<open>APPLICATION, PADDING and unknown blocks\<close>

definition new_application_block ::
  "jvm \<Rightarrow> u32 \<Rightarrow> byte list \<Rightarrow> byte list \<Rightarrow> jenv \<Rightarrow> java_application option \<times> jenv" where
  "new_application_block J len app_id app_data e =
     (let data_length = (if of_nat JFLAC_APPLICATION_ID_LENGTH \<le> len
            then len - of_nat JFLAC_APPLICATION_ID_LENGTH else 0);
          (lookups_ok, e1) = java_seq J [Jni ''PushLocalFrame'', Jni ''FindClass FlacApplicationBlock'',
            GetMethodID ''<init>''] e in
      if \<not> lookups_ok then (None, e1) else
      if uint data_length > INT_MAX
      then (None, throw_decode_exception
              ''APPLICATION metadata block is too large for one JVM ByteArray.'' e1) else
      let (arrays_ok, e2) = java_seq J [NewByteArray (of_nat JFLAC_APPLICATION_ID_LENGTH),
            NewByteArray (ucast data_length)] e1 in
      if \<not> arrays_ok then (None, e2) else
      let (id_ok, e3) = call_getter J ''SetByteArrayRegion'' e2 in
      if \<not> id_ok then (None, e3) else
      let (data_ok, e4) = (if data_length > 0 then call_getter J ''SetByteArrayRegion'' e3
            else (True, e3)) in
      if \<not> data_ok then (None, e4) else
      new_object J ''FlacApplicationBlock'' \<lparr>ja_id = Some (take JFLAC_APPLICATION_ID_LENGTH app_id),
        ja_data = Some (take (unat data_length) app_data)\<rparr> e4)"

definition new_padding_block :: "jvm \<Rightarrow> u32 \<Rightarrow> jenv \<Rightarrow> java_padding option \<times> jenv" where
  "new_padding_block J len e =
     (let (lookups_ok, e1) = java_seq J [Jni ''PushLocalFrame'', Jni ''FindClass FlacPaddingBlock'',
            GetMethodID ''<init>''] e in
      if \<not> lookups_ok then (None, e1)
      else new_object J ''FlacPaddingBlock'' \<lparr>jpad_length = len\<rparr> e1)"

definition new_unknown_metadata_block ::
  "jvm \<Rightarrow> u32 \<Rightarrow> u32 \<Rightarrow> byte list \<Rightarrow> jenv \<Rightarrow> java_unknown option \<times> jenv" where
  "new_unknown_metadata_block J ty len unknown_data e =
     (if uint len > INT_MAX
      then (None, throw_decode_exception
              ''Unknown metadata block is too large for one JVM ByteArray.'' e) else
      let (lookups_ok, e1) = java_seq J [Jni ''PushLocalFrame'',
            Jni ''FindClass FlacUnknownMetadataBlock'', GetMethodID ''<init>'',
            NewByteArray (ucast len)] e in
      if \<not> lookups_ok then (None, e1) else
      let (data_ok, e2) = (if len > 0 then call_getter J ''SetByteArrayRegion'' e1 else (True, e1)) in
      if \<not> data_ok then (None, e2) else
      new_object J ''FlacUnknownMetadataBlock'' \<lparr>ju_type = ty,
        ju_data = Some (take (unat len) unknown_data)\<rparr> e2)"

section \<open>SEEKTABLE\<close>

definition java_seek_point_of :: "seek_point \<Rightarrow> java_seek_point" where
  "java_seek_point_of p =
     \<lparr>js_sample_number = (if sp_sample_number p = JFLAC_SEEKPOINT_PLACEHOLDER
        then JFLAC_SEEKPOINT_PLACEHOLDER_JAVA_VALUE else sp_sample_number p),
      js_stream_offset = sp_stream_offset p, js_frame_samples = sp_frame_samples p\<rparr>"

text \<open>The loop over the points of the table.\<close>

fun add_seek_points ::
  "jvm \<Rightarrow> seek_point list \<Rightarrow> java_seek_point option list \<Rightarrow> jenv \<Rightarrow>
   java_seek_point option list option \<times> jenv" where
  "add_seek_points J [] added e = (Some added, e)"
| "add_seek_points J (p # ps) added e =
     (let (point, e1) = new_object J ''FlacSeekPoint'' (java_seek_point_of p) e in
      if point = None then (None, e1) else
      let (ok, e2) = list_add J ''Failed to append a SEEKTABLE point to the JVM result.'' e1 in
      if \<not> ok then (None, e2) else add_seek_points J ps (added @ [point]) e2)"

definition new_seek_table ::
  "jvm \<Rightarrow> seek_point list \<Rightarrow> jenv \<Rightarrow> java_seek_table option \<times> jenv" where
  "new_seek_table J points e =
     (let (lookups_ok, e1) = java_seq J [Jni ''PushLocalFrame'', Jni ''FindClass FlacSeekPoint'',
            GetMethodID ''<init>'', Jni ''FindClass ArrayList'', GetMethodID ''<init>'',
            GetMethodID ''add'', Jni ''FindClass FlacSeekTable'', GetMethodID ''<init>''] e in
      if \<not> lookups_ok then (None, e1) else
      let (points_list, e2) = new_object J ''ArrayList'' [] e1 in
      (case points_list of None \<Rightarrow> (None, e2) | Some added \<Rightarrow>
      (case add_seek_points J points added e2 of
         (None, e3) \<Rightarrow> (None, e3)
       | (Some js, e3) \<Rightarrow> new_object J ''FlacSeekTable'' \<lparr>js_points = Some js\<rparr> e3)))"

section \<open>CUESHEET\<close>

definition java_cue_index_of :: "cue_index \<Rightarrow> java_cue_index" where
  "java_cue_index_of ix = \<lparr>ji_offset = ix_offset ix, ji_number = ucast (ix_number ix)\<rparr>"

definition new_cue_sheet_index :: "jvm \<Rightarrow> cue_index \<Rightarrow> jenv \<Rightarrow> java_cue_index option \<times> jenv" where
  "new_cue_sheet_index J ix e =
     (let (lookups_ok, e1) = java_seq J [Jni ''PushLocalFrame'', Jni ''FindClass FlacCueSheetIndex'',
            GetMethodID ''<init>''] e in
      if \<not> lookups_ok then (None, e1)
      else new_object J ''FlacCueSheetIndex'' (java_cue_index_of ix) e1)"

fun add_cue_indices ::
  "jvm \<Rightarrow> cue_index list \<Rightarrow> java_cue_index option list \<Rightarrow> jenv \<Rightarrow>
   java_cue_index option list option \<times> jenv" where
  "add_cue_indices J [] added e = (Some added, e)"
| "add_cue_indices J (ix # ixs) added e =
     (let (index, e1) = new_cue_sheet_index J ix e in
      if index = None then (None, e1) else
      let (ok, e2) = list_add J ''Failed to append a CUESHEET index to the JVM result.'' e1 in
      if \<not> ok then (None, e2) else add_cue_indices J ixs (added @ [index]) e2)"

text \<open>A fixed-width field, read up to its first NUL; the last byte of the field is never text.\<close>

definition fixed_text :: "string \<Rightarrow> nat \<Rightarrow> string" where
  "fixed_text field capacity = take (fixed_ascii_length field (capacity - 1)) field"

definition new_cue_sheet_track ::
  "(string \<Rightarrow> string) \<Rightarrow> jvm \<Rightarrow> cue_track \<Rightarrow> jenv \<Rightarrow> java_cue_track option \<times> jenv" where
  "new_cue_sheet_track N J t e =
     (let (lookups_ok, e1) = java_seq J [Jni ''PushLocalFrame'', Jni ''FindClass ArrayList'',
            GetMethodID ''<init>'', GetMethodID ''add'', Jni ''FindClass FlacCueSheetTrack'',
            GetMethodID ''<init>''] e in
      if \<not> lookups_ok then (None, e1) else
      let (indices_list, e2) = new_object J ''ArrayList'' [] e1 in
      (case indices_list of None \<Rightarrow> (None, e2) | Some added \<Rightarrow>
      (case add_cue_indices J (tr_indices t) added e2 of
         (None, e3) \<Rightarrow> (None, e3)
       | (Some indices, e3) \<Rightarrow>
      let (isrc, e4) = new_utf8_string N J (fixed_text (tr_isrc t) CUE_ISRC_SIZE) e3 in
      if isrc = None then (None, e4) else
      new_object J ''FlacCueSheetTrack'' \<lparr>jt_offset = tr_offset t, jt_number = ucast (tr_number t),
        jt_isrc = isrc, jt_type = tr_type t, jt_pre_emphasis = (tr_pre_emphasis t \<noteq> 0),
        jt_indices = Some indices\<rparr> e4)))"

fun add_cue_tracks ::
  "(string \<Rightarrow> string) \<Rightarrow> jvm \<Rightarrow> cue_track list \<Rightarrow> java_cue_track option list \<Rightarrow> jenv \<Rightarrow>
   java_cue_track option list option \<times> jenv" where
  "add_cue_tracks N J [] added e = (Some added, e)"
| "add_cue_tracks N J (t # ts) added e =
     (let (track, e1) = new_cue_sheet_track N J t e in
      if track = None then (None, e1) else
      let (ok, e2) = list_add J ''Failed to append a CUESHEET track to the JVM result.'' e1 in
      if \<not> ok then (None, e2) else add_cue_tracks N J ts (added @ [track]) e2)"

definition new_cue_sheet ::
  "(string \<Rightarrow> string) \<Rightarrow> jvm \<Rightarrow> cue_sheet \<Rightarrow> jenv \<Rightarrow> java_cue_sheet option \<times> jenv" where
  "new_cue_sheet N J c e =
     (let (lookups_ok, e1) = java_seq J [Jni ''PushLocalFrame'', Jni ''FindClass ArrayList'',
            GetMethodID ''<init>'', GetMethodID ''add'', Jni ''FindClass FlacCueSheet'',
            GetMethodID ''<init>''] e in
      if \<not> lookups_ok then (None, e1) else
      let (tracks_list, e2) = new_object J ''ArrayList'' [] e1 in
      (case tracks_list of None \<Rightarrow> (None, e2) | Some added \<Rightarrow>
      (case add_cue_tracks N J (cue_tracks c) added e2 of
         (None, e3) \<Rightarrow> (None, e3)
       | (Some tracks, e3) \<Rightarrow>
      let (catalog, e4) = new_utf8_string N J
            (fixed_text (cue_media_catalog_number c) CUE_MEDIA_CATALOG_NUMBER_SIZE) e3 in
      if catalog = None then (None, e4) else
      new_object J ''FlacCueSheet'' \<lparr>jc_media_catalog_number = catalog, jc_lead_in = cue_lead_in c,
        jc_is_cd = cue_is_cd c, jc_tracks = Some tracks\<rparr> e4)))"

section \<open>PICTURE\<close>

definition new_picture ::
  "(string \<Rightarrow> string) \<Rightarrow> jvm \<Rightarrow> picture \<Rightarrow> jenv \<Rightarrow> java_picture option \<times> jenv" where
  "new_picture N J p e =
     (let data_length = length (pic_data p) in
      if int data_length > INT_MAX
      then (None, throw_decode_exception
              ''PICTURE metadata data is too large for one JVM ByteArray.'' e) else
      let (lookups_ok, e1) = java_seq J [Jni ''PushLocalFrame'', Jni ''FindClass FlacPicture'',
            GetMethodID ''<init>''] e in
      if \<not> lookups_ok then (None, e1) else
      let (mime_type, e2) = new_utf8_string N J (c_string (pic_mime_type p)) e1 in
      if mime_type = None then (None, e2) else
      let (description, e3) = new_utf8_string N J (c_string (pic_description p)) e2 in
      if description = None then (None, e3) else
      let (array_ok, e4) = java_try J (NewByteArray (of_nat data_length)) e3 in
      if \<not> array_ok then (None, e4) else
      let (copied, e5) = (if data_length > 0 then call_getter J ''SetByteArrayRegion'' e4
            else (True, e4)) in
      if \<not> copied then (None, e5) else
      new_object J ''FlacPicture'' \<lparr>jp_type = pic_type p, jp_mime_type = mime_type,
        jp_description = description, jp_width = pic_width p, jp_height = pic_height p,
        jp_depth = pic_depth p, jp_colors = pic_colors p, jp_data = Some (pic_data p)\<rparr> e5)"

end
