(* ===== verification/Metadata_Read.thy ===== *)
theory Metadata_Read
  imports Metadata_Reading
begin

text \<open>
  Reading all metadata of a file (\<open>readMetadata\<close> of \<open>jflac_jni.c\<close>). The chain is walked once to count
  the blocks of each type, then once per array, then once for the order table. A walk is a \<open>do\<close> loop
  that ends when \<open>metadata_iterator_next\<close> says so; it takes fuel, and None is a loop that does not
  return. Reading the member of the union that the type code does not announce, or a libFLAC call
  on an object that does not exist, sets the fault flag.
\<close>

section \<open>The chain\<close>

record 'c read_chain_api = "'c chain_api" +
  metadata_chain_read_ogg :: "'c \<Rightarrow> string \<Rightarrow> bool \<times> 'c"

definition read_metadata_chain_for_container ::
  "'c read_chain_api \<Rightarrow> 'c \<Rightarrow> string \<Rightarrow> jint \<Rightarrow> bool \<times> 'c" where
  "read_metadata_chain_for_container C c filename container =
     (if container = JFLAC_CONTAINER_OGG then metadata_chain_read_ogg C c filename
      else metadata_chain_read C c filename)"

definition open_read_chain ::
  "jvm \<Rightarrow> 'c read_chain_api \<Rightarrow> string \<Rightarrow> jint \<Rightarrow> 'c edit_state \<Rightarrow> jenv \<Rightarrow>
   bool \<times> 'c edit_state \<times> jenv" where
  "open_read_chain J C utf8_path container s e =
     (let (chain_ok, e1) = plain_alloc J (Jni ''metadata_chain_new'') e in
      if \<not> chain_ok
      then (False, s, throw_decode_exception ''Failed to allocate FLAC metadata chain.'' e1) else
      let (read_ok, s2) = chain_call
            (\<lambda>c. read_metadata_chain_for_container C c utf8_path container)
            (s\<lparr>es_chain := Some (metadata_chain_new C)\<rparr>) in
      if \<not> read_ok
      then (False, metadata_chain_delete s2,
        throw_decode_exception ''Failed to read FLAC metadata.'' e1) else
      let (iterator_ok, e2) = plain_alloc J (Jni ''metadata_iterator_new'') e1 in
      if \<not> iterator_ok
      then (False, metadata_chain_delete s2,
        throw_decode_exception ''Failed to allocate FLAC metadata iterator.'' e2)
      else (True, s2\<lparr>es_iterator := True\<rparr>, e2))"

text \<open>One walk: \<open>body\<close> sees the block under the iterator (None for NULL) and says whether to go on.\<close>

type_synonym ('c, 'a) walk_body = "flac_block option \<Rightarrow> 'a \<Rightarrow> 'c edit_state \<Rightarrow> jenv \<Rightarrow>
   bool \<times> 'a \<times> 'c edit_state \<times> jenv"

fun walk_from ::
  "'c read_chain_api \<Rightarrow> ('c, 'a) walk_body \<Rightarrow> nat \<Rightarrow> 'a \<Rightarrow> 'c edit_state \<Rightarrow> jenv \<Rightarrow>
   (bool \<times> 'a \<times> 'c edit_state \<times> jenv) option" where
  "walk_from C body 0 x s e = None"
| "walk_from C body (Suc fuel) x s e =
     (let block = (case es_chain s of None \<Rightarrow> None
            | Some c \<Rightarrow> metadata_iterator_get_block C c);
          (ok, x1, s1, e1) = body block x s e in
      if \<not> ok then Some (False, x1, s1, e1) else
      let (moved, s2) = iterator_call (metadata_iterator_next C) s1 in
      if moved then walk_from C body fuel x1 s2 e1 else Some (True, x1, s2, e1))"

definition walk ::
  "'c read_chain_api \<Rightarrow> ('c, 'a) walk_body \<Rightarrow> nat \<Rightarrow> 'a \<Rightarrow> 'c edit_state \<Rightarrow> jenv \<Rightarrow>
   (bool \<times> 'a \<times> 'c edit_state \<times> jenv) option" where
  "walk C body fuel x s e =
     (let (initialised, s1) = iterator_call (\<lambda>c. (True, metadata_iterator_init C c)) s
      in walk_from C body fuel x s1 e)"

section \<open>Counting\<close>

record block_counts =
  streaminfo_block :: "flac_block option"
  vorbis_block :: "flac_block option"
  vorbis_comment_count :: jint
  picture_count :: jint
  application_count :: jint
  seek_table_count :: jint
  cue_sheet_count :: jint
  padding_count :: jint
  unknown_count :: jint
  ordered_block_count :: jint

definition no_blocks :: block_counts where
  "no_blocks = \<lparr>streaminfo_block = None, vorbis_block = None, vorbis_comment_count = 0,
     picture_count = 0, application_count = 0, seek_table_count = 0, cue_sheet_count = 0,
     padding_count = 0, unknown_count = 0, ordered_block_count = 0\<rparr>"

definition count_block :: "flac_block \<Rightarrow> block_counts \<Rightarrow> block_counts" where
  "count_block b n =
     (if bl_type b = METADATA_TYPE_STREAMINFO then n\<lparr>streaminfo_block := Some b\<rparr> else
      let n1 = n\<lparr>ordered_block_count := ordered_block_count n + 1\<rparr> in
      if bl_type b = METADATA_TYPE_VORBIS_COMMENT
      then n1\<lparr>vorbis_comment_count := vorbis_comment_count n + 1, vorbis_block := Some b\<rparr> else
      if bl_type b = METADATA_TYPE_PICTURE then n1\<lparr>picture_count := picture_count n + 1\<rparr> else
      if bl_type b = METADATA_TYPE_APPLICATION
      then n1\<lparr>application_count := application_count n + 1\<rparr> else
      if bl_type b = METADATA_TYPE_SEEKTABLE then n1\<lparr>seek_table_count := seek_table_count n + 1\<rparr> else
      if bl_type b = METADATA_TYPE_CUESHEET then n1\<lparr>cue_sheet_count := cue_sheet_count n + 1\<rparr> else
      if bl_type b = METADATA_TYPE_PADDING then n1\<lparr>padding_count := padding_count n + 1\<rparr>
      else n1\<lparr>unknown_count := unknown_count n + 1\<rparr>)"

definition count_body :: "('c, block_counts) walk_body" where
  "count_body block n s e =
     (case block of None \<Rightarrow> (True, n, s, e) | Some b \<Rightarrow> (True, count_block b n, s, e))"

section \<open>The VORBIS_COMMENT block\<close>

text \<open>
  \<open>NewObjectArray\<close> of NULL elements; for a negative size, which the JVM answers with an exception of
  its own choice, there is no element. \<open>SetObjectArrayElement\<close> and its check.
\<close>

definition new_object_array :: "jvm \<Rightarrow> string \<Rightarrow> jint \<Rightarrow> jenv \<Rightarrow> 'a option list option \<times> jenv" where
  "new_object_array J class_name n e =
     new_object J (class_name @ ''[]'') (replicate (nat (sint n)) None) e"

definition set_element :: "jvm \<Rightarrow> 'a option list \<Rightarrow> jint \<Rightarrow> 'a \<Rightarrow> jenv \<Rightarrow>
   bool \<times> 'a option list \<times> jenv" where
  "set_element J array index x e =
     (if 0 \<le> sint index \<and> nat (sint index) < length array
      then let e1 = java_call J (Jni ''SetObjectArrayElement'') e
           in (\<not> exception_check e1, array[nat (sint index) := Some x], e1)
      else (False, array, raise ArrayIndexOutOfBoundsException e))"

fun read_entries ::
  "(string \<Rightarrow> string) \<Rightarrow> jvm \<Rightarrow> string list \<Rightarrow> u32 \<Rightarrow> string option list \<Rightarrow> jenv \<Rightarrow>
   string option list option \<times> jenv" where
  "read_entries N J [] i array e = (Some array, e)"
| "read_entries N J (comment # rest) i array e =
     (let (entry, e1) = new_utf8_string N J comment e in
      if entry = None \<or> exception_check e1 then (None, e1) else
      let (ok, array1, e2) = set_element J array i (the entry) e1 in
      if \<not> ok then (None, e2) else read_entries N J rest (i + 1) array1 e2)"

text \<open>The vendor and the entries; without a block, no vendor and an empty array.\<close>

definition read_comments ::
  "(string \<Rightarrow> string) \<Rightarrow> jvm \<Rightarrow> flac_block option \<Rightarrow> 'c edit_state \<Rightarrow> jenv \<Rightarrow>
   (string option \<times> string option list) option \<times> 'c edit_state \<times> jenv" where
  "read_comments N J block s e =
     (let (string_ok, e1) = java_try J (Jni ''FindClass String'') e in
      if \<not> string_ok then (None, s, e1) else
      (case block of
         None \<Rightarrow>
           (let (array, e2) = new_object_array J ''String'' 0 e1
            in (map_option (Pair None) array, s, e2))
       | Some b \<Rightarrow>
           (case bl_data b of
              VorbisCommentData vendor comments \<Rightarrow>
                (let (vendor_text, e2) = new_utf8_string N J vendor e1 in
                 if vendor_text = None \<or> exception_check e2 then (None, s, e2) else
                 let (array, e3) = new_object_array J ''String'' (of_nat (length comments)) e2 in
                 (case array of None \<Rightarrow> (None, s, e3) | Some entries \<Rightarrow>
                  let (filled, e4) = read_entries N J comments 0 entries e3
                  in (map_option (Pair vendor_text) filled, s, e4)))
            | _ \<Rightarrow> (None, s\<lparr>es_fault := True\<rparr>, e1))))"

section \<open>The typed arrays\<close>

text \<open>
  The walk that fills one array: a block of the type is converted (None if its member is not the
  announced one) and stored at the next index.
\<close>

definition fill_body ::
  "jvm \<Rightarrow> (u32 \<Rightarrow> bool) \<Rightarrow> (flac_block \<Rightarrow> (jenv \<Rightarrow> 'a option \<times> jenv) option) \<Rightarrow>
   ('c, jint \<times> 'a option list) walk_body" where
  "fill_body J wanted convert block x s e =
     (case block of
        Some b \<Rightarrow>
          (if wanted (bl_type b)
           then (case convert b of
                   None \<Rightarrow> (False, x, s\<lparr>es_fault := True\<rparr>, e)
                 | Some f \<Rightarrow>
                     (case f e of
                        (None, e1) \<Rightarrow> (False, x, s, e1)
                      | (Some v, e1) \<Rightarrow>
                          (let (ok, array, e2) = set_element J (snd x) (fst x) v e1
                           in (ok, (fst x + 1, array), s, e2))))
           else (True, x, s, e))
      | None \<Rightarrow> (True, x, s, e))"

definition read_array ::
  "jvm \<Rightarrow> 'c read_chain_api \<Rightarrow> nat \<Rightarrow> string \<Rightarrow> jint \<Rightarrow> (u32 \<Rightarrow> bool) \<Rightarrow>
   (flac_block \<Rightarrow> (jenv \<Rightarrow> 'a option \<times> jenv) option) \<Rightarrow> 'c edit_state \<Rightarrow> jenv \<Rightarrow>
   ('a option list option \<times> 'c edit_state \<times> jenv) option" where
  "read_array J C fuel class_name n wanted convert s e =
     (let (class_ok, e1) = java_try J (Jni (''FindClass '' @ class_name)) e in
      if \<not> class_ok then Some (None, s, e1) else
      let (array, e2) = new_object_array J class_name n e1 in
      (case array of None \<Rightarrow> Some (None, s, e2) | Some a \<Rightarrow>
      (case walk C (fill_body J wanted convert) fuel (0, a) s e2 of
         None \<Rightarrow> None
       | Some (ok, x, s3, e3) \<Rightarrow> Some (if ok then Some (snd x) else None, s3, e3))))"

text \<open>The conversion of a block for each array; a padding block has no member to read.\<close>

definition convert_picture ::
  "(string \<Rightarrow> string) \<Rightarrow> jvm \<Rightarrow> flac_block \<Rightarrow> (jenv \<Rightarrow> java_picture option \<times> jenv) option" where
  "convert_picture N J b = (case bl_data b of PictureData p \<Rightarrow> Some (new_picture N J p) | _ \<Rightarrow> None)"

definition convert_application ::
  "jvm \<Rightarrow> flac_block \<Rightarrow> (jenv \<Rightarrow> java_application option \<times> jenv) option" where
  "convert_application J b =
     (case bl_data b of
        ApplicationData app_id app_data \<Rightarrow> Some (new_application_block J (bl_length b) app_id app_data)
      | _ \<Rightarrow> None)"

definition convert_seek_table ::
  "jvm \<Rightarrow> flac_block \<Rightarrow> (jenv \<Rightarrow> java_seek_table option \<times> jenv) option" where
  "convert_seek_table J b = (case bl_data b of SeekTableData ps \<Rightarrow> Some (new_seek_table J ps) | _ \<Rightarrow> None)"

definition convert_cue_sheet ::
  "(string \<Rightarrow> string) \<Rightarrow> jvm \<Rightarrow> flac_block \<Rightarrow> (jenv \<Rightarrow> java_cue_sheet option \<times> jenv) option" where
  "convert_cue_sheet N J b = (case bl_data b of CueSheetData c \<Rightarrow> Some (new_cue_sheet N J c) | _ \<Rightarrow> None)"

definition convert_padding ::
  "jvm \<Rightarrow> flac_block \<Rightarrow> (jenv \<Rightarrow> java_padding option \<times> jenv) option" where
  "convert_padding J b = Some (new_padding_block J (bl_length b))"

definition convert_unknown ::
  "jvm \<Rightarrow> flac_block \<Rightarrow> (jenv \<Rightarrow> java_unknown option \<times> jenv) option" where
  "convert_unknown J b =
     (case bl_data b of
        UnknownData d \<Rightarrow> Some (new_unknown_metadata_block J (bl_type b) (bl_length b) d)
      | _ \<Rightarrow> None)"

definition METADATA_TYPE_UNDEFINED :: u32 where "METADATA_TYPE_UNDEFINED = 7"

text \<open>The six walks, in the order of the source.\<close>

definition read_pictures where
  "read_pictures N J C fuel n = read_array J C fuel ''FlacPicture'' n
     (\<lambda>t. t = METADATA_TYPE_PICTURE) (convert_picture N J)"

definition read_applications where
  "read_applications J C fuel n = read_array J C fuel ''FlacApplicationBlock'' n
     (\<lambda>t. t = METADATA_TYPE_APPLICATION) (convert_application J)"

definition read_seek_tables where
  "read_seek_tables J C fuel n = read_array J C fuel ''FlacSeekTable'' n
     (\<lambda>t. t = METADATA_TYPE_SEEKTABLE) (convert_seek_table J)"

definition read_cue_sheets where
  "read_cue_sheets N J C fuel n = read_array J C fuel ''FlacCueSheet'' n
     (\<lambda>t. t = METADATA_TYPE_CUESHEET) (convert_cue_sheet N J)"

definition read_paddings where
  "read_paddings J C fuel n = read_array J C fuel ''FlacPaddingBlock'' n
     (\<lambda>t. t = METADATA_TYPE_PADDING) (convert_padding J)"

definition read_unknowns where
  "read_unknowns J C fuel n = read_array J C fuel ''FlacUnknownMetadataBlock'' n
     (\<lambda>t. t \<ge> METADATA_TYPE_UNDEFINED) (convert_unknown J)"

section \<open>The order table\<close>

record order_state =
  ord_index :: jint
  ord_picture :: jint
  ord_application :: jint
  ord_seek_table :: jint
  ord_cue_sheet :: jint
  ord_padding :: jint
  ord_unknown :: jint
  ord_types :: "jint list"
  ord_indices :: "jint list"

text \<open>The index of a block in its array, and the counters after it.\<close>

definition next_index :: "u32 \<Rightarrow> order_state \<Rightarrow> jint \<times> order_state" where
  "next_index t n =
     (if t = METADATA_TYPE_VORBIS_COMMENT then (0, n) else
      if t = METADATA_TYPE_PICTURE then (ord_picture n, n\<lparr>ord_picture := ord_picture n + 1\<rparr>) else
      if t = METADATA_TYPE_APPLICATION
      then (ord_application n, n\<lparr>ord_application := ord_application n + 1\<rparr>) else
      if t = METADATA_TYPE_SEEKTABLE
      then (ord_seek_table n, n\<lparr>ord_seek_table := ord_seek_table n + 1\<rparr>) else
      if t = METADATA_TYPE_CUESHEET
      then (ord_cue_sheet n, n\<lparr>ord_cue_sheet := ord_cue_sheet n + 1\<rparr>) else
      if t = METADATA_TYPE_PADDING then (ord_padding n, n\<lparr>ord_padding := ord_padding n + 1\<rparr>)
      else (ord_unknown n, n\<lparr>ord_unknown := ord_unknown n + 1\<rparr>))"

text \<open>\<open>SetIntArrayRegion\<close> of one element at a \<open>jint\<close> index, and its check.\<close>

definition set_int_element :: "jint list \<Rightarrow> jint \<Rightarrow> jint \<Rightarrow> jenv \<Rightarrow> bool \<times> jint list \<times> jenv" where
  "set_int_element array index v e =
     (if 0 \<le> sint index
      then let (a, e1) = set_int_array_region (Some array) (nat (sint index)) [v] e
           in (\<not> exception_check e1, the a, e1)
      else (False, array, raise ArrayIndexOutOfBoundsException e))"

definition order_body :: "('c, order_state) walk_body" where
  "order_body block n s e =
     (case block of
        None \<Rightarrow> (True, n, s, e)
      | Some b \<Rightarrow>
          (if bl_type b = METADATA_TYPE_STREAMINFO then (True, n, s, e) else
           let (block_index, n1) = next_index (bl_type b) n;
               (types_ok, types, e1) = set_int_element (ord_types n1) (ord_index n1) (bl_type b) e in
           if \<not> types_ok then (False, n1\<lparr>ord_types := types\<rparr>, s, e1) else
           let (indices_ok, indices, e2) =
                 set_int_element (ord_indices n1) (ord_index n1) block_index e1 in
           if \<not> indices_ok
           then (False, n1\<lparr>ord_types := types, ord_indices := indices\<rparr>, s, e2)
           else (True, n1\<lparr>ord_types := types, ord_indices := indices,
                          ord_index := ord_index n1 + 1\<rparr>, s, e2)))"

definition read_order ::
  "jvm \<Rightarrow> 'c read_chain_api \<Rightarrow> nat \<Rightarrow> jint \<Rightarrow> 'c edit_state \<Rightarrow> jenv \<Rightarrow>
   ((jint list \<times> jint list) option \<times> 'c edit_state \<times> jenv) option" where
  "read_order J C fuel n s e =
     (let (arrays_ok, e1) = java_seq J [NewIntArray (scast n), NewIntArray (scast n)] e;
          zeroes = replicate (nat (sint n)) 0 in
      if \<not> arrays_ok then Some (None, s, e1) else
      (case walk C order_body fuel \<lparr>ord_index = 0, ord_picture = 0, ord_application = 0,
              ord_seek_table = 0, ord_cue_sheet = 0, ord_padding = 0, ord_unknown = 0,
              ord_types = zeroes, ord_indices = zeroes\<rparr> s e1 of
         None \<Rightarrow> None
       | Some (ok, n1, s2, e2) \<Rightarrow>
           Some (if ok then Some (ord_types n1, ord_indices n1) else None, s2, e2)))"

section \<open>The operation\<close>

record metadata_payload =
  mp_stream_info :: stream_info
  mp_vendor :: "string option"
  mp_comment_entries :: "string option list"
  mp_pictures :: "java_picture option list"
  mp_application_blocks :: "java_application option list"
  mp_seek_tables :: "java_seek_table option list"
  mp_cue_sheets :: "java_cue_sheet option list"
  mp_padding_blocks :: "java_padding option list"
  mp_unknown_blocks :: "java_unknown option list"
  mp_block_types :: "jint list"
  mp_block_indices :: "jint list"

type_synonym 'c read_result = "(metadata_payload option \<times> 'c edit_state \<times> jenv) option"

text \<open>Every failure after the iterator exists: it and the chain are deleted, and the result is NULL.\<close>

definition abandon_read :: "'c edit_state \<Rightarrow> jenv \<Rightarrow> 'c read_result" where
  "abandon_read s e = Some (None, close_edit s, e)"

text \<open>A phase that takes a walk, and what follows it when it succeeded.\<close>

definition after_phase ::
  "('a option \<times> 'c edit_state \<times> jenv) option \<Rightarrow> ('a \<Rightarrow> 'c edit_state \<Rightarrow> jenv \<Rightarrow> 'c read_result) \<Rightarrow>
   'c read_result" where
  "after_phase phase continue =
     (case phase of
        None \<Rightarrow> None
      | Some (None, s, e) \<Rightarrow> abandon_read s e
      | Some (Some v, s, e) \<Rightarrow> continue v s e)"

definition new_metadata_payload ::
  "jvm \<Rightarrow> metadata_payload \<Rightarrow> 'c edit_state \<Rightarrow> jenv \<Rightarrow> 'c read_result" where
  "new_metadata_payload J payload s e =
     (let (lookups_ok, e1) = java_seq J [Jni ''FindClass NativeMetadataPayload'',
            GetMethodID ''<init>''] e in
      if \<not> lookups_ok then abandon_read s e1 else
      let (result, e2) = new_object J ''NativeMetadataPayload'' payload e1
      in Some (result, close_edit s, e2))"

text \<open>The arrays, in the order of the source.\<close>

definition read_arrays ::
  "(string \<Rightarrow> string) \<Rightarrow> jvm \<Rightarrow> 'c read_chain_api \<Rightarrow> nat \<Rightarrow> block_counts \<Rightarrow> stream_info \<Rightarrow>
   'c edit_state \<Rightarrow> jenv \<Rightarrow> 'c read_result" where
  "read_arrays N J C fuel n info s e =
     after_phase (Some (read_comments N J (vorbis_block n) s e)) (\<lambda>comments s1 e1.
     after_phase (read_pictures N J C fuel (picture_count n) s1 e1) (\<lambda>pictures s2 e2.
     after_phase (read_applications J C fuel (application_count n) s2 e2) (\<lambda>applications s3 e3.
     after_phase (read_seek_tables J C fuel (seek_table_count n) s3 e3) (\<lambda>seek_tables s4 e4.
     after_phase (read_cue_sheets N J C fuel (cue_sheet_count n) s4 e4) (\<lambda>cue_sheets s5 e5.
     after_phase (read_paddings J C fuel (padding_count n) s5 e5) (\<lambda>paddings s6 e6.
     after_phase (read_unknowns J C fuel (unknown_count n) s6 e6) (\<lambda>unknowns s7 e7.
     after_phase (read_order J C fuel (ordered_block_count n) s7 e7) (\<lambda>order s8 e8.
     new_metadata_payload J \<lparr>mp_stream_info = info, mp_vendor = fst comments,
       mp_comment_entries = snd comments, mp_pictures = pictures,
       mp_application_blocks = applications, mp_seek_tables = seek_tables,
       mp_cue_sheets = cue_sheets, mp_padding_blocks = paddings, mp_unknown_blocks = unknowns,
       mp_block_types = fst order, mp_block_indices = snd order\<rparr> s8 e8))))))))"

text \<open>What follows the opening of the chain: counting, the checks and the arrays.\<close>

definition read_open_chain ::
  "(string \<Rightarrow> string) \<Rightarrow> jvm \<Rightarrow> 'c read_chain_api \<Rightarrow> nat \<Rightarrow> 'c edit_state \<Rightarrow> jenv \<Rightarrow> 'c read_result" where
  "read_open_chain N J C fuel s e =
     (case walk C count_body fuel no_blocks s e of
         None \<Rightarrow> None
       | Some (ok, n, s5, e5) \<Rightarrow>
           (case streaminfo_block n of
              None \<Rightarrow> Some (None, close_edit s5, throw_decode_exception
                ''FLAC file does not contain STREAMINFO.'' e5)
            | Some b \<Rightarrow>
                if sint (vorbis_comment_count n) > 1
                then Some (None, close_edit s5, throw_decode_exception
                  ''FLAC file contains multiple VORBIS_COMMENT metadata blocks, which this API cannot represent exactly.'' e5)
                else (case bl_data b of
                   StreamInfoData info \<Rightarrow>
                     (let (info_ok, e6) = new_stream_info J e5 in
                      if \<not> info_ok then abandon_read s5 e6
                      else read_arrays N J C fuel n info s5 e6)
                 | _ \<Rightarrow> abandon_read (s5\<lparr>es_fault := True\<rparr>) e5)))"

definition readMetadata ::
  "(string \<Rightarrow> string) \<Rightarrow> jvm \<Rightarrow> 'c read_chain_api \<Rightarrow> nat \<Rightarrow> string option \<Rightarrow> jint \<Rightarrow> jenv \<Rightarrow>
   'c read_result" where
  "readMetadata N J C fuel path container e =
     (let (ready, e1) = flac_api_ready J e in
      if \<not> ready then Some (None, no_edit, e1) else
      let (container_ok, e2) = validate_container container e1 in
      if \<not> container_ok then Some (None, no_edit, e2) else
      let (utf8_path, e3) = jstring_to_utf8 J path e2 in
      if utf8_path = None
      then Some (None, no_edit, if \<not> exception_check e3
             then throw_decode_exception ''Failed to encode file path to UTF-8.'' e3 else e3) else
      let (opened, s4, e4) = open_read_chain J C (the utf8_path) container no_edit e3 in
      if \<not> opened then Some (None, s4, e4) else
      read_open_chain N J C fuel s4 e4)"

section \<open>What the caller makes of the payload\<close>

text \<open>
  \<open>toPublicMetadata\<close> turns the order table into the list of blocks, and the comment entries into a map
  from names to values in which names stand in the order of their first entry. An entry without a
  name and a separator is left out. A null entry throws (None).
\<close>

datatype public_block =
    PublicBlock java_block
  | PublicComments string "(string \<times> string list) list"

definition split_entry :: "string \<Rightarrow> (string \<times> string) option" where
  "split_entry entry =
     (let separator = length (takeWhile (\<lambda>c. c \<noteq> CHR ''='') entry) in
      if separator = length entry \<or> separator = 0 then None
      else Some (take separator entry, drop (separator + 1) entry))"

fun add_value :: "string \<Rightarrow> string \<Rightarrow> (string \<times> string list) list \<Rightarrow> (string \<times> string list) list" where
  "add_value key v [] = [(key, [v])]"
| "add_value key v ((k, vs) # rest) =
     (if k = key then (k, vs @ [v]) # rest else (k, vs) # add_value key v rest)"

definition group_comments :: "string list \<Rightarrow> (string \<times> string list) list" where
  "group_comments entries =
     fold (\<lambda>entry grouped. case split_entry entry of None \<Rightarrow> grouped
             | Some (key, v) \<Rightarrow> add_value key v grouped) entries []"

definition get_or_null :: "'a option list \<Rightarrow> jint \<Rightarrow> 'a option" where
  "get_or_null array i =
     (if 0 \<le> sint i \<and> nat (sint i) < length array then array ! nat (sint i) else None)"

definition payload_block :: "metadata_payload \<Rightarrow> public_block option \<Rightarrow> jint \<Rightarrow> jint \<Rightarrow> public_block option" where
  "payload_block m vorbis t i =
     (if t = METADATA_TYPE_PADDING
      then map_option (PublicBlock \<circ> JPadding) (get_or_null (mp_padding_blocks m) i) else
      if t = METADATA_TYPE_APPLICATION
      then map_option (PublicBlock \<circ> JApplication) (get_or_null (mp_application_blocks m) i) else
      if t = METADATA_TYPE_SEEKTABLE
      then map_option (PublicBlock \<circ> JSeekTable) (get_or_null (mp_seek_tables m) i) else
      if t = METADATA_TYPE_VORBIS_COMMENT then vorbis else
      if t = METADATA_TYPE_CUESHEET
      then map_option (PublicBlock \<circ> JCueSheet) (get_or_null (mp_cue_sheets m) i) else
      if t = METADATA_TYPE_PICTURE
      then map_option (PublicBlock \<circ> JPicture) (get_or_null (mp_pictures m) i)
      else map_option (PublicBlock \<circ> JUnknown) (get_or_null (mp_unknown_blocks m) i))"

definition public_blocks :: "metadata_payload \<Rightarrow> public_block list option" where
  "public_blocks m =
     (if None \<in> set (mp_comment_entries m) then None else
      let grouped = group_comments (map the (mp_comment_entries m));
          vorbis = map_option (\<lambda>v. PublicComments v grouped) (mp_vendor m)
      in Some (List.map_filter (\<lambda>(t, i). payload_block m vorbis t i)
                 (zip (mp_block_types m) (mp_block_indices m))))"

end
