(* ===== verification/Metadata_Read_Contract.thy ===== *)
theory Metadata_Read_Contract
  imports Metadata_Read Encode_Ownership
begin

text \<open>
  What the pieces of \<open>readMetadata\<close> guarantee. \<open>made\<close> is the contract of a constructor: it returns
  the object it should, with no exception pending, or NULL with one, and it touches no resource. The
  walks over the chain are brought to functions on the list of its blocks; the locale \<open>block_reader\<close>
  states what the six typed arrays have in common, with one interpretation per array.
\<close>

declare java_seq.simps [simp del] call_getters.simps [simp del] find_instance_methods.simps [simp del]

section \<open>Constructors\<close>

definition made :: "'a \<Rightarrow> jenv \<Rightarrow> 'a option \<times> jenv \<Rightarrow> bool" where
  "made v e r \<longleftrightarrow> harmless e (snd r) \<and>
     (case fst r of None \<Rightarrow> exception_check (snd r)
      | Some x \<Rightarrow> x = v \<and> \<not> exception_check (snd r))"

text \<open>A step that succeeds exactly when no exception is pending after it.\<close>

definition checked :: "jenv \<Rightarrow> bool \<times> jenv \<Rightarrow> bool" where
  "checked e r \<longleftrightarrow> harmless e (snd r) \<and> (fst r \<longleftrightarrow> \<not> exception_check (snd r))"

lemma checkedD:
  assumes "checked e c" "c = (ok, e1)"
  shows "harmless e e1" "ok \<longleftrightarrow> \<not> exception_check e1"
  using assms by (simp_all add: checked_def)

text \<open>\<open>StandardCharsets.UTF_8\<close> is never null.\<close>

definition charset_found :: "jvm \<Rightarrow> bool" where
  "charset_found J \<longleftrightarrow> (\<forall>h. jv_alloc J (Jni ''GetStaticObjectField UTF_8'' # h))"

lemma harmless_throw_decode [simp]:
  "harmless e (throw_decode_exception m e1) \<longleftrightarrow> harmless e e1"
  by (simp add: throw_defs)

lemma checked_call_getter [simp]: "checked e (call_getter J g e)"
  by (simp add: checked_def call_getter_def Let_def)

lemma checked_java_try: "\<not> exception_check e \<Longrightarrow> checked e (java_try J c e)"
  by (auto simp: checked_def java_try_def exception_check_java_call)

lemma checked_java_seq: "\<not> exception_check e \<Longrightarrow> checked e (java_seq J cs e)"
proof (induction cs arbitrary: e)
  case (Cons c cs)
  obtain ok e1 where t: "java_try J c e = (ok, e1)" by force
  with checked_java_try [OF Cons.prems, of J c]
  have "harmless e e1" "ok \<longleftrightarrow> \<not> exception_check e1" by (simp_all add: checked_def)
  with Cons.IH [of e1] show ?case
    by (auto simp: checked_def java_seq.simps t intro: harmless_trans)
qed (simp add: checked_def java_seq.simps)

lemma checked_if: "(b \<Longrightarrow> checked e c) \<Longrightarrow> \<not> exception_check e \<Longrightarrow>
    checked e (if b then c else (True, e))"
  by (simp add: checked_def)

lemma checked_list_add [simp]: "checked e (list_add J m e)"
  by (auto simp: checked_def list_add_def call_int_def throw_defs)

text \<open>Sequencing: after a step, after a constructor, after a loop.\<close>

lemma made_trans: "harmless e e1 \<Longrightarrow> made v e1 r \<Longrightarrow> made v e r"
  by (auto simp: made_def intro: harmless_trans)

lemma madeE:
  assumes "made t e (x, e1)"
  obtains "x = None" "harmless e e1" "exception_check e1"
  | "x = Some t" "harmless e e1" "\<not> exception_check e1"
  using assms by (cases x) (auto simp: made_def)

lemma made_None: "harmless e e1 \<Longrightarrow> exception_check e1 \<Longrightarrow> made v e (None, e1)"
  by (simp add: made_def)

lemma made_step:
  assumes "checked e c" "\<And>e1. \<not> exception_check e1 \<Longrightarrow> made v e1 (k e1)"
  shows "made v e (case c of (ok, e1) \<Rightarrow> if \<not> ok then (None, e1) else k e1)"
  using assms by (cases c) (auto simp: made_def checked_def intro: harmless_trans split: option.splits)

lemma made_text:
  assumes "made t e c" "\<And>e1. \<not> exception_check e1 \<Longrightarrow> made v e1 (k (Some t) e1)"
  shows "made v e (case c of (x, e1) \<Rightarrow> if x = None then (None, e1) else k x e1)"
  using assms by (cases c) (auto elim!: madeE intro: made_None made_trans)

lemma made_object:
  assumes "made t e c" "\<And>e1. \<not> exception_check e1 \<Longrightarrow> made v e1 (k t e1)"
  shows "made v e (case c of (x, e1) \<Rightarrow> (case x of None \<Rightarrow> (None, e1) | Some y \<Rightarrow> k y e1))"
  using assms by (cases c) (auto elim!: madeE intro: made_None made_trans)

lemma made_loop:
  assumes "made t e c" "\<And>e1. \<not> exception_check e1 \<Longrightarrow> made v e1 (k t e1)"
  shows "made v e (case c of (None, e1) \<Rightarrow> (None, e1) | (Some y, e1) \<Rightarrow> k y e1)"
  using assms by (cases c) (auto elim!: madeE intro: made_None made_trans)

lemma made_throw: "(\<not> b \<Longrightarrow> made v e r) \<Longrightarrow>
    made v e (if b then (None, throw_decode_exception m e) else r)"
  by (simp add: made_def throw_defs)

lemma made_Some: "\<not> exception_check e \<Longrightarrow> made v e (Some v, e)"
  by (simp add: made_def)

lemma made_checked:
  "checked e c \<Longrightarrow> made v e (case c of (ok, e1) \<Rightarrow> (if ok then Some v else None, e1))"
  by (cases c) (auto simp: made_def checked_def)

lemma made_new_object: "made v e (new_object J name v e)"
  unfolding new_object_def Let_def by (rule made_checked) simp

lemmas made_rules = made_step made_text made_object made_loop made_throw made_new_object
  checked_java_seq checked_java_try checked_call_getter checked_list_add checked_if

lemma made_new_utf8_string:
  assumes "charset_found J" "\<not> exception_check e"
  shows "made (N bytes) e (new_utf8_string N J bytes e)"
proof -
  have charset: "made v e1 (case plain_alloc J (Jni ''GetStaticObjectField UTF_8'') e1 of
      (ok, e2) \<Rightarrow> if \<not> ok then (None, e2) else k e2)"
    if "\<And>e2. \<not> exception_check e2 \<Longrightarrow> made v e2 (k e2)" "\<not> exception_check e1" for e1 k and v :: string
  proof -
    let ?e2 = "e1\<lparr>calls := Jni ''GetStaticObjectField UTF_8'' # calls e1\<rparr>"
    have "harmless e1 ?e2" "\<not> exception_check ?e2"
      using that(2) by (simp_all add: harmless_def same_resources_def exception_check_def)
    moreover from that(1) [OF this(2)] have "made v ?e2 (k ?e2)" .
    ultimately show ?thesis using assms(1)
      by (auto simp: plain_alloc_def charset_found_def made_def intro: harmless_trans)
  qed
  show ?thesis
    unfolding new_utf8_string_def Let_def
    by (rule made_throw made_step charset made_checked checked_java_seq checked_java_try
        checked_call_getter checked_if assms(2) | assumption)+
qed

section \<open>The objects read\<close>

definition java_application_of :: "u32 \<Rightarrow> byte list \<Rightarrow> byte list \<Rightarrow> java_application" where
  "java_application_of len app_id app_data =
     \<lparr>ja_id = Some (take 4 app_id), ja_data = Some (take (unat len - 4) app_data)\<rparr>"

definition java_seek_table_of :: "seek_point list \<Rightarrow> java_seek_table" where
  "java_seek_table_of ps = \<lparr>js_points = Some (map (Some \<circ> java_seek_point_of) ps)\<rparr>"

definition java_cue_track_of :: "(string \<Rightarrow> string) \<Rightarrow> cue_track \<Rightarrow> java_cue_track" where
  "java_cue_track_of N t =
     \<lparr>jt_offset = tr_offset t, jt_number = ucast (tr_number t),
      jt_isrc = Some (N (fixed_text (tr_isrc t) CUE_ISRC_SIZE)), jt_type = tr_type t,
      jt_pre_emphasis = (tr_pre_emphasis t \<noteq> 0),
      jt_indices = Some (map (Some \<circ> java_cue_index_of) (tr_indices t))\<rparr>"

definition java_cue_sheet_of :: "(string \<Rightarrow> string) \<Rightarrow> cue_sheet \<Rightarrow> java_cue_sheet" where
  "java_cue_sheet_of N c =
     \<lparr>jc_media_catalog_number =
        Some (N (fixed_text (cue_media_catalog_number c) CUE_MEDIA_CATALOG_NUMBER_SIZE)),
      jc_lead_in = cue_lead_in c, jc_is_cd = cue_is_cd c,
      jc_tracks = Some (map (Some \<circ> java_cue_track_of N) (cue_tracks c))\<rparr>"

definition java_picture_of :: "(string \<Rightarrow> string) \<Rightarrow> picture \<Rightarrow> java_picture" where
  "java_picture_of N p =
     \<lparr>jp_type = pic_type p, jp_mime_type = Some (N (c_string (pic_mime_type p))),
      jp_description = Some (N (c_string (pic_description p))), jp_width = pic_width p,
      jp_height = pic_height p, jp_depth = pic_depth p, jp_colors = pic_colors p,
      jp_data = Some (pic_data p)\<rparr>"

lemma made_new_application_block:
  assumes "\<not> exception_check e"
  shows "made (java_application_of len app_id app_data) e
    (new_application_block J len app_id app_data e)"
proof -
  have len: "unat (if of_nat JFLAC_APPLICATION_ID_LENGTH \<le> len
      then len - of_nat JFLAC_APPLICATION_ID_LENGTH else 0) = unat len - 4"
    by (simp add: JFLAC_APPLICATION_ID_LENGTH_def word_le_nat_alt unat_sub)
  have object: "\<lparr>ja_id = Some (take JFLAC_APPLICATION_ID_LENGTH app_id),
      ja_data = Some (take (unat (if of_nat JFLAC_APPLICATION_ID_LENGTH \<le> len
        then len - of_nat JFLAC_APPLICATION_ID_LENGTH else 0)) app_data)\<rparr> =
      java_application_of len app_id app_data"
    unfolding len by (simp add: java_application_of_def JFLAC_APPLICATION_ID_LENGTH_def)
  show ?thesis
    unfolding new_application_block_def Let_def object
    by (rule made_rules assms | assumption)+
qed

lemma made_new_padding_block:
  "\<not> exception_check e \<Longrightarrow> made \<lparr>jpad_length = len\<rparr> e (new_padding_block J len e)"
  unfolding new_padding_block_def Let_def by (rule made_rules | assumption)+

lemma made_new_unknown_block:
  "\<not> exception_check e \<Longrightarrow> made \<lparr>ju_type = ty, ju_data = Some (take (unat len) d)\<rparr> e
    (new_unknown_metadata_block J ty len d e)"
  unfolding new_unknown_metadata_block_def Let_def by (rule made_rules | assumption)+

lemma made_add_seek_points:
  "\<not> exception_check e \<Longrightarrow>
    made (added @ map (Some \<circ> java_seek_point_of) ps) e (add_seek_points J ps added e)"
proof (induction ps arbitrary: added e)
  case (Cons p ps)
  have rest: "made (added @ map (Some \<circ> java_seek_point_of) (p # ps)) e1
      (add_seek_points J ps (added @ [Some (java_seek_point_of p)]) e1)" if "\<not> exception_check e1" for e1
    using Cons.IH [OF that, of "added @ [Some (java_seek_point_of p)]"] by (simp add: comp_def)
  show ?case unfolding add_seek_points.simps Let_def by (rule rest made_rules | assumption)+
qed (simp add: made_Some)

lemma made_new_seek_table:
  assumes "\<not> exception_check e"
  shows "made (java_seek_table_of ps) e (new_seek_table J ps e)"
proof -
  have fill: "made (map (Some \<circ> java_seek_point_of) ps) e1 (add_seek_points J ps [] e1)"
    if "\<not> exception_check e1" for e1
    using made_add_seek_points [OF that, of "[]"] by simp
  show ?thesis
    unfolding new_seek_table_def Let_def java_seek_table_of_def
    by (rule made_rules fill assms | assumption)+
qed

lemma made_add_cue_indices:
  "\<not> exception_check e \<Longrightarrow>
    made (added @ map (Some \<circ> java_cue_index_of) ixs) e (add_cue_indices J ixs added e)"
proof (induction ixs arbitrary: added e)
  case (Cons ix ixs)
  have one: "made (java_cue_index_of ix) e1 (new_cue_sheet_index J ix e1)"
    if "\<not> exception_check e1" for e1
    unfolding new_cue_sheet_index_def Let_def by (rule made_rules that | assumption)+
  have rest: "made (added @ map (Some \<circ> java_cue_index_of) (ix # ixs)) e1
      (add_cue_indices J ixs (added @ [Some (java_cue_index_of ix)]) e1)" if "\<not> exception_check e1" for e1
    using Cons.IH [OF that, of "added @ [Some (java_cue_index_of ix)]"] by (simp add: comp_def)
  show ?case unfolding add_cue_indices.simps Let_def
    by (rule rest one made_rules Cons.prems | assumption)+
qed (simp add: made_Some)

lemma made_new_cue_sheet_track:
  assumes "charset_found J" "\<not> exception_check e"
  shows "made (java_cue_track_of N t) e (new_cue_sheet_track N J t e)"
proof -
  have fill: "made (map (Some \<circ> java_cue_index_of) ixs) e1 (add_cue_indices J ixs [] e1)"
    if "\<not> exception_check e1" for e1 ixs
    using made_add_cue_indices [OF that, of "[]"] by simp
  show ?thesis
    unfolding new_cue_sheet_track_def Let_def java_cue_track_of_def
    by (rule made_rules fill made_new_utf8_string assms | assumption)+
qed

lemma made_add_cue_tracks:
  assumes "charset_found J"
  shows "\<not> exception_check e \<Longrightarrow>
    made (added @ map (Some \<circ> java_cue_track_of N) ts) e (add_cue_tracks N J ts added e)"
proof (induction ts arbitrary: added e)
  case (Cons t ts)
  have rest: "made (added @ map (Some \<circ> java_cue_track_of N) (t # ts)) e1
      (add_cue_tracks N J ts (added @ [Some (java_cue_track_of N t)]) e1)" if "\<not> exception_check e1" for e1
    using Cons.IH [OF that, of "added @ [Some (java_cue_track_of N t)]"] by (simp add: comp_def)
  show ?case unfolding add_cue_tracks.simps Let_def
    by (rule rest made_new_cue_sheet_track assms made_rules Cons.prems | assumption)+
qed (simp add: made_Some)

lemma made_new_cue_sheet:
  assumes "charset_found J" "\<not> exception_check e"
  shows "made (java_cue_sheet_of N c) e (new_cue_sheet N J c e)"
proof -
  have fill: "made (map (Some \<circ> java_cue_track_of N) ts) e1 (add_cue_tracks N J ts [] e1)"
    if "\<not> exception_check e1" for e1 ts
    using made_add_cue_tracks [OF assms(1) that, of "[]"] by simp
  show ?thesis
    unfolding new_cue_sheet_def Let_def java_cue_sheet_of_def
    by (rule made_rules fill made_new_utf8_string assms | assumption)+
qed

lemma made_new_picture:
  assumes "charset_found J" "\<not> exception_check e"
  shows "made (java_picture_of N p) e (new_picture N J p e)"
  unfolding new_picture_def Let_def java_picture_of_def
  by (rule made_rules made_new_utf8_string assms | assumption)+

end
