(* ===== verification/Metadata_Walks.thy ===== *)
theory Metadata_Walks
  imports Metadata_Read_Contract
begin

text \<open>
  The walks of \<open>readMetadata\<close> as functions on the list of blocks. libFLAC's chain and iterator appear
  through a view: the blocks of the chain and the position. What the typed arrays share is the locale
  \<open>block_reader\<close>, interpreted once per array.
\<close>

section \<open>The chain as a list\<close>

definition walk_laws :: "'c read_chain_api \<Rightarrow> ('c \<Rightarrow> flac_block list \<times> nat) \<Rightarrow> bool" where
  "walk_laws C view \<longleftrightarrow>
     (\<forall>c bs i. view c = (bs, i) \<longrightarrow>
        view (metadata_iterator_init C c) = (bs, 0) \<and>
        metadata_iterator_get_block C c = (if i < length bs then Some (bs ! i) else None) \<and>
        (case metadata_iterator_next C c of (moved, c1) \<Rightarrow>
           moved = (Suc i < length bs) \<and> view c1 = (bs, if Suc i < length bs then Suc i else i)))"

lemma walk_lawsD:
  assumes "walk_laws C view" "view c = (bs, i)"
  shows "view (metadata_iterator_init C c) = (bs, 0)"
    "metadata_iterator_get_block C c = (if i < length bs then Some (bs ! i) else None)"
    "metadata_iterator_next C c = (moved, c1) \<Longrightarrow>
       moved = (Suc i < length bs) \<and> view c1 = (bs, if Suc i < length bs then Suc i else i)"
proof -
  note laws = assms(1) [unfolded walk_laws_def, THEN spec, THEN spec, THEN spec, THEN mp, OF assms(2)]
  show "view (metadata_iterator_init C c) = (bs, 0)"
    "metadata_iterator_get_block C c = (if i < length bs then Some (bs ! i) else None)"
    using laws by blast+
  show "metadata_iterator_next C c = (moved, c1) \<Longrightarrow>
      moved = (Suc i < length bs) \<and> view c1 = (bs, if Suc i < length bs then Suc i else i)"
    using laws [THEN conjunct2, THEN conjunct2] by (auto split: prod.splits)
qed

text \<open>A read in progress: both objects exist, nothing was misused, the chain holds \<open>bs\<close>.\<close>

definition reading_chain :: "('c \<Rightarrow> flac_block list \<times> nat) \<Rightarrow> flac_block list \<Rightarrow> 'c edit_state \<Rightarrow> bool" where
  "reading_chain view bs s \<longleftrightarrow>
     es_iterator s \<and> \<not> es_fault s \<and> (\<exists>c. es_chain s = Some c \<and> fst (view c) = bs)"

lemma reading_chainE:
  assumes "reading_chain view bs s"
  obtains c i where "es_chain s = Some c" "view c = (bs, i)" "es_iterator s" "\<not> es_fault s"
  using assms by (auto simp: reading_chain_def) (metis prod.collapse)

lemma reading_chainI:
  "es_chain s = Some c \<Longrightarrow> view c = (bs, i) \<Longrightarrow> es_iterator s \<Longrightarrow> \<not> es_fault s \<Longrightarrow> reading_chain view bs s"
  by (simp add: reading_chain_def)

text \<open>A loop over a list, with early exit.\<close>

fun each :: "('b \<Rightarrow> 'a \<Rightarrow> jenv \<Rightarrow> bool \<times> 'a \<times> jenv) \<Rightarrow> 'b list \<Rightarrow> 'a \<Rightarrow> jenv \<Rightarrow> bool \<times> 'a \<times> jenv" where
  "each g [] x e = (True, x, e)"
| "each g (b # bs) x e =
     (let (ok, x1, e1) = g b x e in if ok then each g bs x1 e1 else (False, x1, e1))"

lemma walk_from_each:
  assumes laws: "walk_laws C view"
    and body: "\<And>b x s e. b \<in> set bs \<Longrightarrow>
      body (Some b) x s e = (case g b x e of (ok, x1, e1) \<Rightarrow> (ok, x1, s, e1))"
  shows "es_chain s = Some c \<Longrightarrow> view c = (bs, i) \<Longrightarrow> es_iterator s \<Longrightarrow> \<not> es_fault s \<Longrightarrow>
    i < length bs \<Longrightarrow> length bs - i \<le> fuel \<Longrightarrow> each g (drop i bs) x e = (ok, x', e') \<Longrightarrow>
    \<exists>s'. walk_from C body fuel x s e = Some (ok, x', s', e') \<and> reading_chain view bs s'"
proof (induction fuel arbitrary: s c i x e)
  case (Suc fuel)
  note laws = walk_lawsD [OF laws Suc.prems(2)]
  have drop: "drop i bs = bs ! i # drop (Suc i) bs" using Suc.prems(5) by (rule Cons_nth_drop_Suc [symmetric])
  obtain ok1 x1 e1 where g: "g (bs ! i) x e = (ok1, x1, e1)" by (metis surj_pair)
  have b: "body (Some (bs ! i)) x s e = (ok1, x1, s, e1)"
    using body [of "bs ! i" x s e] Suc.prems(5) g by simp
  obtain moved c1 where n: "metadata_iterator_next C c = (moved, c1)" by force
  note moved = laws(3) [OF n]
  have step: "iterator_call (metadata_iterator_next C) s = (moved, s\<lparr>es_chain := Some c1\<rparr>)"
    using Suc.prems(1,3) n by (simp add: iterator_call_def chain_call_def)
  have here: "reading_chain view bs (s\<lparr>es_chain := Some c1\<rparr>)"
    using moved Suc.prems(3,4) by (simp add: reading_chain_def split: if_splits)
  show ?case
  proof (cases ok1)
    case False
    with Suc.prems g drop b laws(2) show ?thesis by (auto intro: reading_chainI)
  next
    case True
    show ?thesis
    proof (cases moved)
      case True
      have "\<exists>s'. walk_from C body fuel x1 (s\<lparr>es_chain := Some c1\<rparr>) e1 = Some (ok, x', s', e') \<and>
          reading_chain view bs s'"
        by (rule Suc.IH [where c = c1 and i = "Suc i"])
          (use moved True \<open>ok1\<close> Suc.prems g drop in \<open>auto split: if_splits\<close>)
      with True \<open>ok1\<close> Suc.prems(1,5) b laws(2) step show ?thesis by simp
    next
      case False
      then have "drop (Suc i) bs = []" using moved by simp
      with False \<open>ok1\<close> Suc.prems b g drop laws(2) step here show ?thesis by auto
    qed
  qed
qed simp

lemma walk_each:
  assumes laws: "walk_laws C view"
    and body: "\<And>b x s e. b \<in> set bs \<Longrightarrow>
      body (Some b) x s e = (case g b x e of (ok, x1, e1) \<Rightarrow> (ok, x1, s, e1))"
    and null: "\<And>x s e. body None x s e = (True, x, s, e)"
    and here: "reading_chain view bs s" and fuel: "length bs \<le> fuel" "0 < fuel"
    and each: "each g bs x e = (ok, x', e')"
  shows "\<exists>s'. walk C body fuel x s e = Some (ok, x', s', e') \<and> reading_chain view bs s'"
proof -
  from here obtain c i where c: "es_chain s = Some c" "view c = (bs, i)" "es_iterator s" "\<not> es_fault s"
    by (rule reading_chainE)
  let ?s = "s\<lparr>es_chain := Some (metadata_iterator_init C c)\<rparr>"
  have v: "view (metadata_iterator_init C c) = (bs, 0)" by (rule walk_lawsD(1) [OF laws c(2)])
  have "walk C body fuel x s e = walk_from C body fuel x ?s e"
    using c by (simp add: walk_def iterator_call_def chain_call_def)
  moreover have "\<exists>s'. walk_from C body fuel x ?s e = Some (ok, x', s', e') \<and> reading_chain view bs s'"
  proof (cases "bs = []")
    case False
    then show ?thesis
      by (intro walk_from_each [where body = body and g = g, OF laws body, where c = "metadata_iterator_init C c" and i = 0])
        (use c v fuel each in auto)
  next
    case True
    obtain moved c1 where n: "metadata_iterator_next C (metadata_iterator_init C c) = (moved, c1)"
      by force
    with walk_lawsD [OF laws v] True c v each fuel null show ?thesis
      by (cases fuel) (auto simp: iterator_call_def chain_call_def reading_chain_def)
  qed
  ultimately show ?thesis by simp
qed

section \<open>Phases and the end of the call\<close>

text \<open>A phase returns, keeps the chain, and makes its value or fails with an exception.\<close>

definition phase_makes where
  "phase_makes view bs v e P \<longleftrightarrow>
     (\<exists>r s' e'. P = Some (r, s', e') \<and> reading_chain view bs s' \<and> made v e (r, e'))"

text \<open>The call ends with both objects deleted and nothing misused.\<close>

definition read_ends :: "'a \<Rightarrow> jenv \<Rightarrow> ('a option \<times> 'c edit_state \<times> jenv) option \<Rightarrow> bool" where
  "read_ends m e R \<longleftrightarrow>
     (\<exists>r s' e'. R = Some (r, s', e') \<and> es_chain s' = None \<and> \<not> es_iterator s' \<and> \<not> es_fault s' \<and>
        made m e (r, e'))"

lemma close_reading:
  assumes "reading_chain view bs s"
  shows "es_chain (close_edit s) = None" "\<not> es_iterator (close_edit s)" "\<not> es_fault (close_edit s)"
  using assms by (auto simp: close_edit_def metadata_chain_delete_def metadata_iterator_delete_def
      elim!: reading_chainE)

lemma abandon_ends:
  assumes "reading_chain view bs s" "harmless e e1" "exception_check e1"
  shows "read_ends m e (abandon_read s e1)"
  using close_reading [OF assms(1)] assms(2,3)
  by (auto simp: read_ends_def abandon_read_def intro: made_None)

lemma after_phase_ends:
  assumes "phase_makes view bs v e P"
    "\<And>s e1. reading_chain view bs s \<Longrightarrow> \<not> exception_check e1 \<Longrightarrow> read_ends m e1 (k v s e1)"
  shows "read_ends m e (after_phase P k)"
proof -
  from assms(1) obtain r s' e' where P: "P = Some (r, s', e')" "reading_chain view bs s'" "made v e (r, e')"
    by (auto simp: phase_makes_def)
  from P(3) show ?thesis
  proof (cases rule: madeE)
    case 1
    then show ?thesis using P(1,2) by (simp add: after_phase_def abandon_ends)
  next
    case 2
    then have "read_ends m e' (k v s' e')" by (intro assms(2) P(2))
    with 2 show ?thesis
      by (auto simp: after_phase_def P(1) read_ends_def intro: made_trans)
  qed
qed

lemma new_metadata_payload_ends:
  assumes "reading_chain view bs s" "\<not> exception_check e"
  shows "read_ends m e (new_metadata_payload J m s e)"
proof -
  obtain ok e1 where l: "java_seq J [Jni ''FindClass NativeMetadataPayload'', GetMethodID ''<init>''] e =
      (ok, e1)"
    by force
  note c = checkedD [OF checked_java_seq [OF assms(2)] l]
  obtain r e2 where n: "new_object J ''NativeMetadataPayload'' m e1 = (r, e2)" by force
  have "made m e1 (r, e2)" using made_new_object [of m e1 J "''NativeMetadataPayload''"] by (simp add: n)
  then show ?thesis
    using c close_reading [OF assms(1)] abandon_ends [OF assms(1) c(1)]
    by (auto simp: new_metadata_payload_def l n read_ends_def Let_def intro: made_trans)
qed

section \<open>One typed array\<close>

lemma sint_of_nat_jint: "k < 2147483648 \<Longrightarrow> sint (of_nat k :: jint) = int k"
  by (simp add: sint_uint unsigned_of_nat take_bit_nat_eq_self signed_take_bit_int_eq_self flip: of_nat_take_bit)

lemma set_element_in_range:
  assumes "i < length a" "length a < 2147483648"
  shows "set_element J a (of_nat i) x e =
    (let e1 = java_call J (Jni ''SetObjectArrayElement'') e in (\<not> exception_check e1, a[i := Some x], e1))"
proof -
  have "sint (of_nat i :: jint) = int i"
    using assms by (simp add: sint_of_nat_jint)
  with assms show ?thesis by (simp add: set_element_def)
qed

text \<open>The member of the union is the one the type code announces.\<close>

fun tagged :: "flac_block \<Rightarrow> bool" where
  "tagged b =
     (case bl_data b of
        StreamInfoData i \<Rightarrow> bl_type b = METADATA_TYPE_STREAMINFO
      | PaddingData \<Rightarrow> bl_type b = METADATA_TYPE_PADDING
      | ApplicationData i d \<Rightarrow> bl_type b = METADATA_TYPE_APPLICATION
      | SeekTableData ps \<Rightarrow> bl_type b = METADATA_TYPE_SEEKTABLE
      | VorbisCommentData v cs \<Rightarrow> bl_type b = METADATA_TYPE_VORBIS_COMMENT
      | CueSheetData c \<Rightarrow> bl_type b = METADATA_TYPE_CUESHEET
      | PictureData p \<Rightarrow> bl_type b = METADATA_TYPE_PICTURE
      | UnknownData d \<Rightarrow> METADATA_TYPE_UNDEFINED \<le> bl_type b)"

declare tagged.simps [simp del]

text \<open>
  What the six arrays have in common: a block is wanted when it has a Java value of the array's class,
  and converting it makes that value.
\<close>

locale block_reader =
  fixes J :: jvm and wanted :: "u32 \<Rightarrow> bool"
    and convert :: "flac_block \<Rightarrow> (jenv \<Rightarrow> 'a option \<times> jenv) option"
    and java_value :: "flac_block \<Rightarrow> 'a option"
  assumes wanted_iff: "tagged b \<Longrightarrow> wanted (bl_type b) \<longleftrightarrow> java_value b \<noteq> None"
    and convert_makes: "charset_found J \<Longrightarrow> tagged b \<Longrightarrow> java_value b = Some v \<Longrightarrow>
      \<exists>f. convert b = Some f \<and> (\<forall>e. \<not> exception_check e \<longrightarrow> made v e (f e))"
begin

definition fill_one :: "flac_block \<Rightarrow> jint \<times> 'a option list \<Rightarrow> jenv \<Rightarrow> bool \<times> (jint \<times> 'a option list) \<times> jenv" where
  "fill_one b x e =
     (if wanted (bl_type b)
      then (case convert b of
              None \<Rightarrow> (False, x, e)
            | Some f \<Rightarrow>
                (case f e of
                   (None, e1) \<Rightarrow> (False, x, e1)
                 | (Some v, e1) \<Rightarrow>
                     (let (ok, array, e2) = set_element J (snd x) (fst x) v e1
                      in (ok, (fst x + 1, array), e2))))
      else (True, x, e))"

lemma fill_body_one:
  assumes "charset_found J" "tagged b"
  shows "fill_body J wanted convert (Some b) x s e = (case fill_one b x e of (ok, x1, e1) \<Rightarrow> (ok, x1, s, e1))"
proof (cases "java_value b")
  case None
  then show ?thesis using wanted_iff [OF assms(2)] by (simp add: fill_one_def fill_body_def)
next
  case (Some v)
  from convert_makes [OF assms this] obtain f where "convert b = Some f" by blast
  then show ?thesis using wanted_iff [OF assms(2)] Some
    by (auto simp: fill_one_def fill_body_def split: prod.splits option.splits)
qed

lemma fill_one_value:
  assumes "charset_found J" "tagged b" "java_value b = Some v" "\<not> exception_check e"
    "i < length a" "length a < 2147483648" "fill_one b (of_nat i, a) e = (ok, x1, e1)"
  shows "harmless e e1" "ok \<longleftrightarrow> \<not> exception_check e1"
    "ok \<Longrightarrow> x1 = (of_nat (Suc i), a[i := Some v])"
proof -
  from convert_makes [OF assms(1-3)] obtain f where f: "convert b = Some f" "made v e (f e)"
    using assms(4) by blast
  have wanted: "wanted (bl_type b)" using wanted_iff [OF assms(2)] assms(3) by simp
  obtain r e0 where fe: "f e = (r, e0)" by force
  from f(2) [unfolded fe] have "harmless e e1 \<and> (ok \<longleftrightarrow> \<not> exception_check e1) \<and>
      (ok \<longrightarrow> x1 = (of_nat (Suc i), a[i := Some v]))"
    using assms(7) wanted f(1)
    by (cases rule: madeE)
      (auto simp: fill_one_def fill_body_def fe set_element_in_range [OF assms(5,6)] Let_def)
  then show "harmless e e1" "ok \<longleftrightarrow> \<not> exception_check e1"
    "ok \<Longrightarrow> x1 = (of_nat (Suc i), a[i := Some v])" by blast+
qed

lemma fill_each:
  assumes "charset_found J"
  shows "\<forall>b \<in> set bs. tagged b \<Longrightarrow> \<not> exception_check e \<Longrightarrow>
    length pre + length (List.map_filter java_value bs) < 2147483648 \<Longrightarrow>
    each fill_one bs (of_nat (length pre), map Some pre @
      replicate (length (List.map_filter java_value bs)) None) e = (ok, x1, e1) \<Longrightarrow>
    made (map Some (pre @ List.map_filter java_value bs)) e (if ok then Some (snd x1) else None, e1)"
proof (induction bs arbitrary: pre e)
  case Nil
  then show ?case by (auto simp: made_def)
next
  case (Cons b bs)
  show ?case
  proof (cases "java_value b")
    case None
    then have "fill_one b x e = (True, x, e)" for x
      using wanted_iff [of b] Cons.prems(1) by (simp add: fill_one_def fill_body_def)
    with None Cons.IH [of e pre] Cons.prems show ?thesis by simp
  next
    case (Some v)
    let ?n = "length (List.map_filter java_value bs)"
    let ?a = "map Some pre @ replicate (Suc ?n) None"
    obtain ok0 x0 e0 where one: "fill_one b (of_nat (length pre), ?a) e = (ok0, x0, e0)"
      by (metis surj_pair)
    have tagged: "tagged b" using Cons.prems(1) by simp
    have range: "length pre < length ?a" "length ?a < 2147483648" using Cons.prems(3) Some by simp_all
    note filled = fill_one_value [OF assms tagged Some Cons.prems(2) range one]
    show ?thesis
    proof (cases ok0)
      case False
      with filled Cons.prems(4) Some one show ?thesis by (auto intro: made_None)
    next
      case True
      have "?a[length pre := Some v] = map Some (pre @ [v]) @ replicate ?n None"
        by (simp add: list_update_append)
      then have after: "x0 = (of_nat (length (pre @ [v])), map Some (pre @ [v]) @ replicate ?n None)"
        using filled(3) [OF True] by simp
      have "made (map Some ((pre @ [v]) @ List.map_filter java_value bs)) e0
          (if ok then Some (snd x1) else None, e1)"
        by (rule Cons.IH) (use Cons.prems Some one True filled(2) after in auto)
      with filled(1) Some show ?thesis by (auto intro: made_trans)
    qed
  qed
qed

lemma length_map_filter:
  "\<forall>b \<in> set bs. tagged b \<Longrightarrow>
    length (List.map_filter java_value bs) = length (filter (\<lambda>b. wanted (bl_type b)) bs)"
  by (induction bs) (auto simp: wanted_iff)

lemma read_array_makes:
  assumes "walk_laws C view" "charset_found J" "reading_chain view bs s" "\<forall>b \<in> set bs. tagged b"
    "length bs \<le> fuel" "0 < fuel" "length bs < 2147483648" "\<not> exception_check e"
    "n = of_nat (length (List.map_filter java_value bs))"
  shows "phase_makes view bs (map Some (List.map_filter java_value bs)) e
    (read_array J C fuel name n wanted convert s e)"
proof -
  let ?k = "length (List.map_filter java_value bs)"
  have "length (List.map_filter java_value xs) \<le> length xs" for xs
    by (induction xs) (simp_all add: List.map_filter_simps split: option.split)
  then have k: "?k < 2147483648" using assms(7) by (rule le_less_trans)
  then have n: "nat (sint n) = ?k"
    using assms(9) by (simp add: sint_of_nat_jint)
  obtain ok1 e1 where cl: "java_try J (Jni (''FindClass '' @ name)) e = (ok1, e1)" by force
  note c1 = checkedD [OF checked_java_try [OF assms(8)] cl]
  obtain array :: "'a option list option" and e2 where ar: "new_object_array J name n e1 = (array, e2)"
    by force
  have m2: "made (replicate ?k None) e1 (array, e2)"
    using made_new_object [of "replicate ?k (None :: 'a option)" e1 J "name @ ''[]''"] ar n
    by (simp add: new_object_array_def)
  obtain ok x3 e3 where each: "each fill_one bs (0, replicate ?k None) e2 = (ok, x3, e3)" by (metis surj_pair)
  have body: "\<And>b x s e. b \<in> set bs \<Longrightarrow> fill_body J wanted convert (Some b) x s e =
      (case fill_one b x e of (ok, x1, e1) \<Rightarrow> (ok, x1, s, e1))"
    using fill_body_one [OF assms(2)] assms(4) by blast
  obtain s3 where w: "walk C (fill_body J wanted convert) fuel (0, replicate ?k None) s e2 =
      Some (ok, x3, s3, e3)" "reading_chain view bs s3"
    using walk_each [where body = "fill_body J wanted convert" and g = fill_one, OF assms(1) body _ assms(3,5,6) each] by (auto simp: fill_body_def)
  have run: "read_array J C fuel name n wanted convert s e =
      (if \<not> ok1 then Some (None, s, e1)
       else case array of None \<Rightarrow> Some (None, s, e2)
       | Some a \<Rightarrow> (case walk C (fill_body J wanted convert) fuel (0, a) s e2 of None \<Rightarrow> None
           | Some (ok, x, s3, e3) \<Rightarrow> Some (if ok then Some (snd x) else None, s3, e3)))"
    unfolding read_array_def cl ar Let_def prod.case ..
  show ?thesis
  proof (cases ok1)
    case False
    with c1 show ?thesis using assms(3) by (auto simp: phase_makes_def run intro: made_None)
  next
    case True
    from m2 show ?thesis
    proof (cases rule: madeE)
      case 1
      then show ?thesis using True c1 assms(3)
        by (auto simp: phase_makes_def run intro: made_None harmless_trans)
    next
      case 2
      have "made (map Some (List.map_filter java_value bs)) e2 (if ok then Some (snd x3) else None, e3)"
        using fill_each [OF assms(2,4) 2(3), of "[]"] each k by simp
      then have "made (map Some (List.map_filter java_value bs)) e (if ok then Some (snd x3) else None, e3)"
        using c1(1) 2(2) by (blast intro: made_trans)
      with True 2 w show ?thesis by (simp add: phase_makes_def run)
    qed
  qed
qed

lemma nth_map_filter:
  assumes "k < length xs" "f (xs ! k) = Some y"
  shows "length (List.map_filter f (take k xs)) < length (List.map_filter f xs)"
    "List.map_filter f xs ! length (List.map_filter f (take k xs)) = y"
proof -
  have "List.map_filter f (us @ vs) = List.map_filter f us @ List.map_filter f vs" for us vs
    by (induction us) (simp_all split: option.split)
  then have "List.map_filter f xs =
      List.map_filter f (take k xs) @ y # List.map_filter f (drop (Suc k) xs)"
    using assms by (subst id_take_nth_drop [OF assms(1)]) simp
  then show "length (List.map_filter f (take k xs)) < length (List.map_filter f xs)"
    "List.map_filter f xs ! length (List.map_filter f (take k xs)) = y"
    by simp_all
qed

lemma map_filter_filter:
  "(\<And>b. b \<in> set bs \<Longrightarrow> \<not> P b \<Longrightarrow> f b = None) \<Longrightarrow>
    List.map_filter f bs = List.map_filter f (filter P bs)"
  by (induction bs) (auto split: option.split)

text \<open>The element of the array that belongs to a block, found by counting the blocks before it.\<close>

lemma get_converted:
  assumes "\<forall>b \<in> set bs. tagged b" "length bs < 2147483648"
    "\<And>b. b \<in> set bs \<Longrightarrow> \<not> P b \<Longrightarrow> java_value b = None"
    "k < length (filter P bs)" "java_value (filter P bs ! k) = Some y"
    "i = of_nat (length (filter (\<lambda>b. wanted (bl_type b)) (take k (filter P bs))))"
  shows "get_or_null (map Some (List.map_filter java_value bs)) i = Some y"
proof -
  let ?rest = "filter P bs"
  have "\<forall>b \<in> set (take k ?rest). tagged b" using assms(1) by (auto dest: in_set_takeD)
  then have i: "i = of_nat (length (List.map_filter java_value (take k ?rest)))"
    using assms(6) by (simp add: length_map_filter)
  note at = nth_map_filter [where f = java_value, OF assms(4,5)]
  have "length (List.map_filter java_value xs) \<le> length xs" for xs
    by (induction xs) (simp_all add: List.map_filter_simps split: option.split)
  from this [of bs] have "length (List.map_filter java_value (take k ?rest)) < 2147483648"
    using at(1) assms(2) map_filter_filter [of bs P java_value, OF assms(3)] by simp
  then have "sint i = int (length (List.map_filter java_value (take k ?rest)))"
    unfolding i by (rule sint_of_nat_jint)
  then show ?thesis
    using at map_filter_filter [of bs P java_value, OF assms(3)] by (simp add: get_or_null_def)
qed

end

end
