(* ===== verification/Metadata_Read_Guarantees.thy ===== *)
theory Metadata_Read_Guarantees
  imports Metadata_Walks Edit_Guarantees
begin

text \<open>
  \<open>readMetadata\<close> as a whole. The Java value of a block is \<open>java_block_of\<close>; \<open>file_payload\<close> is the
  payload a list of blocks should give, and the operation is shown to give it. The order table is then
  enough to rebuild the list of blocks from the typed arrays.
\<close>

declare java_seq.simps [simp del] call_getters.simps [simp del] find_instance_methods.simps [simp del]

section \<open>What a list of blocks gives\<close>

definition java_block_of :: "(string \<Rightarrow> string) \<Rightarrow> flac_block \<Rightarrow> java_block" where
  "java_block_of N b =
     (case bl_data b of
        StreamInfoData i \<Rightarrow> JOtherObject
      | PaddingData \<Rightarrow> JPadding \<lparr>jpad_length = bl_length b\<rparr>
      | ApplicationData app_id d \<Rightarrow> JApplication (java_application_of (bl_length b) app_id d)
      | SeekTableData ps \<Rightarrow> JSeekTable (java_seek_table_of ps)
      | VorbisCommentData v cs \<Rightarrow>
          JVorbisComment \<lparr>jvc_vendor = Some (N v), jvc_entries = Some (map (Some \<circ> N) cs)\<rparr>
      | CueSheetData c \<Rightarrow> JCueSheet (java_cue_sheet_of N c)
      | PictureData p \<Rightarrow> JPicture (java_picture_of N p)
      | UnknownData d \<Rightarrow> JUnknown \<lparr>ju_type = bl_type b, ju_data = Some (take (unat (bl_length b)) d)\<rparr>)"

definition picture_in where
  "picture_in j = (case j of JPicture p \<Rightarrow> Some p | _ \<Rightarrow> None)"
definition application_in where
  "application_in j = (case j of JApplication p \<Rightarrow> Some p | _ \<Rightarrow> None)"
definition seek_table_in where
  "seek_table_in j = (case j of JSeekTable p \<Rightarrow> Some p | _ \<Rightarrow> None)"
definition cue_sheet_in where
  "cue_sheet_in j = (case j of JCueSheet p \<Rightarrow> Some p | _ \<Rightarrow> None)"
definition padding_in where
  "padding_in j = (case j of JPadding p \<Rightarrow> Some p | _ \<Rightarrow> None)"
definition unknown_in where
  "unknown_in j = (case j of JUnknown p \<Rightarrow> Some p | _ \<Rightarrow> None)"

lemmas member_defs = picture_in_def application_in_def seek_table_in_def cue_sheet_in_def
  padding_in_def unknown_in_def java_block_of_def metadata_type_defs METADATA_TYPE_UNDEFINED_def

section \<open>The six arrays\<close>

lemma defined_types [simp]:
  "\<not> 7 \<le> (0 :: u32)" "\<not> 7 \<le> (1 :: u32)" "\<not> 7 \<le> (2 :: u32)" "\<not> 7 \<le> (3 :: u32)"
  "\<not> 7 \<le> (4 :: u32)" "\<not> 7 \<le> (5 :: u32)" "\<not> 7 \<le> (6 :: u32)"
  by (simp_all add: word_le_nat_alt)

interpretation picture_array: block_reader J "\<lambda>t. t = METADATA_TYPE_PICTURE"
  "convert_picture N J" "\<lambda>b. picture_in (java_block_of N b)"
  for J :: jvm and N :: "string \<Rightarrow> string"
  by unfold_locales
    (auto simp: convert_picture_def tagged.simps member_defs made_new_picture split: block_data.splits)

interpretation application_array: block_reader J "\<lambda>t. t = METADATA_TYPE_APPLICATION"
  "convert_application J" "\<lambda>b. application_in (java_block_of N b)"
  for J :: jvm and N :: "string \<Rightarrow> string"
  by unfold_locales
    (auto simp: convert_application_def tagged.simps member_defs made_new_application_block split: block_data.splits)

interpretation seek_table_array: block_reader J "\<lambda>t. t = METADATA_TYPE_SEEKTABLE"
  "convert_seek_table J" "\<lambda>b. seek_table_in (java_block_of N b)"
  for J :: jvm and N :: "string \<Rightarrow> string"
  by unfold_locales
    (auto simp: convert_seek_table_def tagged.simps member_defs made_new_seek_table split: block_data.splits)

interpretation cue_sheet_array: block_reader J "\<lambda>t. t = METADATA_TYPE_CUESHEET"
  "convert_cue_sheet N J" "\<lambda>b. cue_sheet_in (java_block_of N b)"
  for J :: jvm and N :: "string \<Rightarrow> string"
  by unfold_locales
    (auto simp: convert_cue_sheet_def tagged.simps member_defs made_new_cue_sheet split: block_data.splits)

interpretation padding_array: block_reader J "\<lambda>t. t = METADATA_TYPE_PADDING"
  "convert_padding J" "\<lambda>b. padding_in (java_block_of N b)"
  for J :: jvm and N :: "string \<Rightarrow> string"
  by unfold_locales
    (auto simp: convert_padding_def tagged.simps member_defs made_new_padding_block split: block_data.splits)

interpretation unknown_array: block_reader J "\<lambda>t. t \<ge> METADATA_TYPE_UNDEFINED"
  "convert_unknown J" "\<lambda>b. unknown_in (java_block_of N b)"
  for J :: jvm and N :: "string \<Rightarrow> string"
  by unfold_locales
    (auto simp: convert_unknown_def tagged.simps member_defs made_new_unknown_block split: block_data.splits)

section \<open>Counting\<close>

definition tally :: "u32 \<Rightarrow> flac_block list \<Rightarrow> jint" where
  "tally t bs = of_nat (length (filter (\<lambda>b. bl_type b = t) bs))"

definition unknown_tally :: "flac_block list \<Rightarrow> jint" where
  "unknown_tally bs = of_nat (length (filter (\<lambda>b. METADATA_TYPE_UNDEFINED \<le> bl_type b) bs))"

definition last_of_type :: "u32 \<Rightarrow> flac_block list \<Rightarrow> flac_block option" where
  "last_of_type t bs = (case rev (filter (\<lambda>b. bl_type b = t) bs) of [] \<Rightarrow> None | b # _ \<Rightarrow> Some b)"

definition counts_of :: "flac_block list \<Rightarrow> block_counts" where
  "counts_of bs = \<lparr>streaminfo_block = last_of_type METADATA_TYPE_STREAMINFO bs,
     vorbis_block = last_of_type METADATA_TYPE_VORBIS_COMMENT bs,
     vorbis_comment_count = tally METADATA_TYPE_VORBIS_COMMENT bs,
     picture_count = tally METADATA_TYPE_PICTURE bs,
     application_count = tally METADATA_TYPE_APPLICATION bs,
     seek_table_count = tally METADATA_TYPE_SEEKTABLE bs,
     cue_sheet_count = tally METADATA_TYPE_CUESHEET bs,
     padding_count = tally METADATA_TYPE_PADDING bs, unknown_count = unknown_tally bs,
     ordered_block_count = of_nat (length (filter (\<lambda>b. bl_type b \<noteq> METADATA_TYPE_STREAMINFO) bs))\<rparr>"

lemma small_types:
  fixes t :: u32
  shows "t \<notin> {0, 1, 2, 3, 4, 5, 6} \<longleftrightarrow> 7 \<le> t"
proof -
  have "t \<in> {0, 1, 2, 3, 4, 5, 6}" if "\<not> 7 \<le> t"
  proof -
    have "unat t < 7" using that by (simp add: word_le_nat_alt)
    then have "unat t \<in> {0, 1, 2, 3, 4, 5, 6}" by auto
    then have "of_nat (unat t) \<in> (of_nat ` {0, 1, 2, 3, 4, 5, 6} :: u32 set)" by (rule imageI)
    then show ?thesis by simp
  qed
  then show ?thesis by (auto simp: word_le_nat_alt)
qed

lemma count_block_counts: "count_block b (counts_of bs) = counts_of (bs @ [b])"
proof -
  note defs = count_block_def counts_of_def tally_def unknown_tally_def last_of_type_def
    metadata_type_defs METADATA_TYPE_UNDEFINED_def
  show ?thesis
  proof (cases "7 \<le> bl_type b")
    case True
    then have "bl_type b \<noteq> 0" "bl_type b \<noteq> 1" "bl_type b \<noteq> 2" "bl_type b \<noteq> 3" "bl_type b \<noteq> 4"
      "bl_type b \<noteq> 5" "bl_type b \<noteq> 6"
      using small_types [of "bl_type b"] by blast+
    with True show ?thesis by (simp add: defs)
  next
    case False
    then have "bl_type b \<in> {0, 1, 2, 3, 4, 5, 6}" using small_types by blast
    then show ?thesis by (elim insertE emptyE) (simp_all add: defs)
  qed
qed

lemma count_each: "each (\<lambda>b n e. (True, count_block b n, e)) bs (counts_of pre) e =
    (True, counts_of (pre @ bs), e)"
  by (induction bs arbitrary: pre) (simp_all add: count_block_counts)

lemma counts_of_Nil: "no_blocks = counts_of []"
  by (simp add: no_blocks_def counts_of_def tally_def unknown_tally_def last_of_type_def)

section \<open>The order table\<close>

text \<open>The index a block gets after the blocks \<open>pre\<close>, and the indices of a list.\<close>

definition rank :: "flac_block \<Rightarrow> flac_block list \<Rightarrow> jint" where
  "rank b pre =
     (if bl_type b = METADATA_TYPE_VORBIS_COMMENT then 0
      else if METADATA_TYPE_UNDEFINED \<le> bl_type b then unknown_tally pre
      else tally (bl_type b) pre)"

fun ranks :: "flac_block list \<Rightarrow> flac_block list \<Rightarrow> jint list" where
  "ranks pre [] = []"
| "ranks pre (b # bs) = rank b pre # ranks (pre @ [b]) bs"

lemma length_ranks [simp]: "length (ranks pre bs) = length bs"
  by (induction bs arbitrary: pre) simp_all

lemma ranks_append: "ranks pre (bs @ [b]) = ranks pre bs @ [rank b (pre @ bs)]"
  by (induction bs arbitrary: pre) simp_all

lemma nth_ranks: "k < length bs \<Longrightarrow> ranks pre bs ! k = rank (bs ! k) (pre @ take k bs)"
proof (induction bs arbitrary: pre k)
  case (Cons b bs)
  then show ?case by (cases k) simp_all
qed simp

definition order_after :: "nat \<Rightarrow> flac_block list \<Rightarrow> order_state" where
  "order_after room pre = \<lparr>ord_index = of_nat (length pre),
     ord_picture = tally METADATA_TYPE_PICTURE pre,
     ord_application = tally METADATA_TYPE_APPLICATION pre,
     ord_seek_table = tally METADATA_TYPE_SEEKTABLE pre,
     ord_cue_sheet = tally METADATA_TYPE_CUESHEET pre, ord_padding = tally METADATA_TYPE_PADDING pre,
     ord_unknown = unknown_tally pre, ord_types = map bl_type pre @ replicate room 0,
     ord_indices = ranks [] pre @ replicate room 0\<rparr>"

lemma next_index_rank:
  assumes "bl_type b \<noteq> METADATA_TYPE_STREAMINFO"
  shows "\<exists>n1. next_index (bl_type b) (order_after room pre) = (rank b pre, n1) \<and>
    ord_index n1 = of_nat (length pre) \<and> ord_types n1 = map bl_type pre @ replicate room 0 \<and>
    ord_indices n1 = ranks [] pre @ replicate room 0 \<and>
    n1\<lparr>ord_index := of_nat (Suc (length pre)), ord_types := ts, ord_indices := ixs\<rparr> =
      (order_after room (pre @ [b]))\<lparr>ord_types := ts, ord_indices := ixs\<rparr>"
proof -
  note defs = next_index_def order_after_def rank_def tally_def unknown_tally_def
    metadata_type_defs METADATA_TYPE_UNDEFINED_def
  show ?thesis
  proof (cases "7 \<le> bl_type b")
    case True
    then have "bl_type b \<noteq> 0" "bl_type b \<noteq> 1" "bl_type b \<noteq> 2" "bl_type b \<noteq> 3" "bl_type b \<noteq> 4"
      "bl_type b \<noteq> 5" "bl_type b \<noteq> 6"
      using small_types [of "bl_type b"] by blast+
    with True show ?thesis by (simp add: defs)
  next
    case False
    then have "bl_type b \<in> {1, 2, 3, 4, 5, 6}"
      using small_types [of "bl_type b"] assms by (auto simp: METADATA_TYPE_STREAMINFO_def)
    then show ?thesis by (elim insertE emptyE) (simp_all add: defs)
  qed
qed

lemma set_int_element_next:
  assumes "length xs < 2147483648" "\<not> exception_check e"
  shows "set_int_element (xs @ replicate (Suc room) 0) (of_nat (length xs)) v e =
    (True, xs @ v # replicate room 0, e)"
  using assms by (simp add: set_int_element_def sint_of_nat_jint set_int_array_region_def)

definition order_one :: "flac_block \<Rightarrow> order_state \<Rightarrow> jenv \<Rightarrow> bool \<times> order_state \<times> jenv" where
  "order_one b n e = (case order_body (Some b) n (no_edit :: unit edit_state) e of
     (ok, n1, s1, e1) \<Rightarrow> (ok, n1, e1))"

lemma order_body_one:
  "order_body (Some b) n s e = (case order_one b n e of (ok, n1, e1) \<Rightarrow> (ok, n1, s, e1))"
  by (simp add: order_one_def order_body_def split: prod.splits)

lemma order_one_after:
  assumes "bl_type b \<noteq> METADATA_TYPE_STREAMINFO" "length pre < 2147483648" "\<not> exception_check e"
  shows "order_one b (order_after (Suc room) pre) e = (True, order_after room (pre @ [b]), e)"
proof -
  let ?ts = "map bl_type pre @ bl_type b # replicate room 0"
  let ?is = "ranks [] pre @ rank b pre # replicate room 0"
  obtain n1 where n1: "next_index (bl_type b) (order_after (Suc room) pre) = (rank b pre, n1)"
    "ord_index n1 = of_nat (length pre)" "ord_types n1 = map bl_type pre @ replicate (Suc room) 0"
    "ord_indices n1 = ranks [] pre @ replicate (Suc room) 0"
    "n1\<lparr>ord_index := of_nat (Suc (length pre)), ord_types := ?ts, ord_indices := ?is\<rparr> =
      (order_after (Suc room) (pre @ [b]))\<lparr>ord_types := ?ts, ord_indices := ?is\<rparr>"
    using next_index_rank [OF assms(1), where room = "Suc room" and pre = pre and ts = ?ts and ixs = ?is]
    by (elim exE conjE) (rule that; assumption)
  have "set_int_element (ord_types n1) (ord_index n1) (bl_type b) e = (True, ?ts, e)"
    using set_int_element_next [of "map bl_type pre" e room "bl_type b"] assms(2,3) n1(2,3) by simp
  moreover have "set_int_element (ord_indices n1) (ord_index n1) (rank b pre) e = (True, ?is, e)"
    using set_int_element_next [of "ranks [] pre" e room "rank b pre"] assms(2,3) n1(2,4) by simp
  moreover have "(order_after (Suc room) (pre @ [b]))\<lparr>ord_types := ?ts, ord_indices := ?is\<rparr> =
      order_after room (pre @ [b])"
    by (simp add: order_after_def ranks_append)
  moreover have "n1\<lparr>ord_types := ?ts, ord_indices := ?is, ord_index := ord_index n1 + 1\<rparr> =
      n1\<lparr>ord_index := of_nat (Suc (length pre)), ord_types := ?ts, ord_indices := ?is\<rparr>"
    using n1(2) by (simp add: add.commute)
  ultimately show ?thesis
    using assms(1) n1(1,5) by (simp add: order_one_def order_body_def)
qed

lemma order_each:
  assumes "\<not> exception_check e"
  shows "length pre + length bs < 2147483648 \<Longrightarrow>
    each order_one bs
      (order_after (length (filter (\<lambda>b. bl_type b \<noteq> METADATA_TYPE_STREAMINFO) bs)) pre) e =
    (True, order_after 0 (pre @ filter (\<lambda>b. bl_type b \<noteq> METADATA_TYPE_STREAMINFO) bs), e)"
proof (induction bs arbitrary: pre)
  case (Cons b bs)
  show ?case
  proof (cases "bl_type b = METADATA_TYPE_STREAMINFO")
    case True
    then have "order_one b n e = (True, n, e)" for n by (simp add: order_one_def order_body_def)
    with True Cons show ?thesis by simp
  next
    case False
    with order_one_after [OF False _ assms] Cons.IH [of "pre @ [b]"] Cons.prems show ?thesis by simp
  qed
qed simp

section \<open>The VORBIS_COMMENT block\<close>

definition comments_of :: "(string \<Rightarrow> string) \<Rightarrow> flac_block option \<Rightarrow> string option \<times> string option list" where
  "comments_of N block =
     (case block of None \<Rightarrow> (None, [])
      | Some b \<Rightarrow> (case bl_data b of
          VorbisCommentData v cs \<Rightarrow> (Some (N v), map (Some \<circ> N) cs) | _ \<Rightarrow> (None, [])))"

lemma made_read_entries:
  assumes "charset_found J"
  shows "\<not> exception_check e \<Longrightarrow> length pre + length cs < 2147483648 \<Longrightarrow>
    made (map Some (pre @ map N cs)) e
      (read_entries N J cs (of_nat (length pre)) (map Some pre @ replicate (length cs) None) e)"
proof (induction cs arbitrary: pre e)
  case (Cons c cs)
  obtain entry e1 where t: "new_utf8_string N J c e = (entry, e1)" by force
  have "made (N c) e (entry, e1)" using made_new_utf8_string [OF assms Cons.prems(1), of N c] t by simp
  then show ?case
  proof (cases rule: madeE)
    case 1
    then show ?thesis by (simp add: t made_None)
  next
    case 2
    let ?a = "map Some pre @ replicate (Suc (length cs)) None"
    let ?e2 = "java_call J (Jni ''SetObjectArrayElement'') e1"
    have upd: "?a[length pre := Some (N c)] = map Some (pre @ [N c]) @ replicate (length cs) None"
      by (simp add: list_update_append)
    have one: "set_element J ?a (of_nat (length pre)) (N c) e1 =
        (\<not> exception_check ?e2, map Some (pre @ [N c]) @ replicate (length cs) None, ?e2)"
      using set_element_in_range [of "length pre" ?a J "N c" e1] Cons.prems(2) upd by (simp add: Let_def)
    have "made (map Some ((pre @ [N c]) @ map N cs)) ?e2 (read_entries N J cs
        (of_nat (length (pre @ [N c]))) (map Some (pre @ [N c]) @ replicate (length cs) None) ?e2)"
      if "\<not> exception_check ?e2"
      by (rule Cons.IH [OF that]) (use Cons.prems in simp)
    moreover have "harmless e ?e2" using 2(2) by simp
    ultimately show ?thesis using 2 one
      by (auto simp: t add.commute intro: made_trans [of e ?e2] made_None)
  qed
qed (simp add: made_Some)

lemma made_new_object_array:
  "k < 2147483648 \<Longrightarrow> made (replicate k None) e (new_object_array J name (of_nat k) e)"
  using made_new_object [of "replicate k None" e J "name @ ''[]''"]
  by (simp add: new_object_array_def sint_of_nat_jint)

lemma read_comments_makes:
  assumes "charset_found J" "reading_chain view bs s" "\<not> exception_check e"
    "\<And>b. block = Some b \<Longrightarrow> \<exists>v cs. bl_data b = VorbisCommentData v cs \<and> length cs < 2147483648"
  shows "phase_makes view bs (comments_of N block) e (Some (read_comments N J block s e))"
proof -
  obtain ok e1 where cl: "java_try J (Jni ''FindClass String'') e = (ok, e1)" by force
  note c1 = checkedD [OF checked_java_try [OF assms(3)] cl]
  show ?thesis
  proof (cases "\<not> ok \<or> block = None")
    case True
    obtain array :: "string option list option" and e2
      where ar: "new_object_array J ''String'' 0 e1 = (array, e2)" by force
    have "made ([] :: string option list) e1 (array, e2)"
      using made_new_object_array [of 0 e1 J "''String''", where ?'a = string] ar by simp
    then have "made (None, []) e (map_option (Pair (None :: string option)) array, e2)"
      using c1(1) by (cases rule: madeE) (auto simp: made_def intro: harmless_trans)
    with True assms(2) c1 show ?thesis
      by (auto simp: phase_makes_def read_comments_def cl ar comments_of_def intro: made_None)
  next
    case False
    then obtain b where b: "block = Some b" and ok by auto
    from assms(4) [OF b] obtain v cs where d: "bl_data b = VorbisCommentData v cs" "length cs < 2147483648"
      by blast
    have e1: "\<not> exception_check e1" using c1 \<open>ok\<close> by simp
    obtain vt e2 where v: "new_utf8_string N J v e1 = (vt, e2)" by force
    have "made (N v) e1 (vt, e2)" using made_new_utf8_string [OF assms(1) e1, of N v] v by simp
    then show ?thesis
    proof (cases rule: madeE)
      case 1
      then show ?thesis using c1 \<open>ok\<close> b d assms(2)
        by (auto simp: phase_makes_def read_comments_def cl v intro: made_None harmless_trans)
    next
      case 2
      obtain array :: "string option list option" and e3
        where ar: "new_object_array J ''String'' (of_nat (length cs)) e2 = (array, e3)"
        by force
      have "made (replicate (length cs) (None :: string option)) e2 (array, e3)"
        using made_new_object_array [OF d(2), of e2 J "''String''", where ?'a = string] ar by simp
      then show ?thesis
      proof (cases rule: madeE)
        case 1
        then show ?thesis using 2 c1 \<open>ok\<close> b d assms(2)
          by (auto simp: phase_makes_def read_comments_def cl v ar intro: made_None harmless_trans)
      next
        case entries: 2
        obtain r e4 where re: "read_entries N J cs 0 (replicate (length cs) None) e3 = (r, e4)" by force
        have "made (map Some (map N cs)) e3 (r, e4)"
          using made_read_entries [OF assms(1) entries(3), of "[]" cs N] d(2) re by simp
        then have "made (Some (N v), map (Some \<circ> N) cs) e3 (map_option (Pair (Some (N v))) r, e4)"
          by (cases rule: madeE) (auto simp: made_def)
        then have "made (Some (N v), map (Some \<circ> N) cs) e (map_option (Pair (Some (N v))) r, e4)"
          using c1(1) 2(2) entries(2) by (blast intro: made_trans)
        then show ?thesis using 2 entries \<open>ok\<close> b d assms(2)
          by (simp add: phase_makes_def read_comments_def cl v ar re comments_of_def)
      qed
    qed
  qed
qed

section \<open>The order table as a phase\<close>

lemma read_order_makes:
  assumes "walk_laws C view" "reading_chain view bs s" "length bs \<le> fuel" "0 < fuel"
    "length bs < 2147483648" "\<not> exception_check e"
    "rest = filter (\<lambda>b. bl_type b \<noteq> METADATA_TYPE_STREAMINFO) bs"
  shows "phase_makes view bs (map bl_type rest, ranks [] rest) e
    (read_order J C fuel (of_nat (length rest)) s e)"
proof -
  have rest: "length rest < 2147483648"
    using assms(5) length_filter_le [of _ bs] unfolding assms(7) by (rule le_less_trans [rotated])
  obtain ok e1 where cl: "java_seq J [NewIntArray (scast (of_nat (length rest) :: jint)),
      NewIntArray (scast (of_nat (length rest) :: jint))] e = (ok, e1)" by force
  note c1 = checkedD [OF checked_java_seq [OF assms(6)] cl]
  let ?z = "replicate (length rest) (0 :: jint)"
  have start: "\<lparr>ord_index = 0, ord_picture = 0, ord_application = 0, ord_seek_table = 0,
      ord_cue_sheet = 0, ord_padding = 0, ord_unknown = 0, ord_types = ?z, ord_indices = ?z\<rparr> =
    order_after (length rest) []"
    by (simp add: order_after_def tally_def unknown_tally_def)
  show ?thesis
  proof (cases ok)
    case False
    with c1 assms(2) show ?thesis
      by (auto simp: phase_makes_def read_order_def cl Let_def intro: made_None)
  next
    case True
    have e1: "\<not> exception_check e1" using c1 True by simp
    have run: "each order_one bs (order_after (length rest) []) e1 = (True, order_after 0 rest, e1)"
      using order_each [OF e1, of "[]" bs] assms(5,7) by simp
    obtain s1 where w: "walk C order_body fuel (order_after (length rest) []) s e1 =
        Some (True, order_after 0 rest, s1, e1)" "reading_chain view bs s1"
      using walk_each [where body = order_body and g = order_one, OF assms(1) order_body_one _
          assms(2-4) run]
      by (auto simp: order_body_def)
    show ?thesis
      using True e1 c1(1) w rest
      by (simp add: phase_makes_def read_order_def cl sint_of_nat_jint start order_after_def made_def
          Let_def)
  qed
qed

section \<open>The payload of a list of blocks\<close>

definition file_payload :: "(string \<Rightarrow> string) \<Rightarrow> stream_info \<Rightarrow> flac_block list \<Rightarrow> metadata_payload" where
  "file_payload N info bs =
     (let js = map (java_block_of N) bs;
          comments = comments_of N (last_of_type METADATA_TYPE_VORBIS_COMMENT bs);
          rest = filter (\<lambda>b. bl_type b \<noteq> METADATA_TYPE_STREAMINFO) bs in
      \<lparr>mp_stream_info = info, mp_vendor = fst comments, mp_comment_entries = snd comments,
       mp_pictures = map Some (List.map_filter picture_in js),
       mp_application_blocks = map Some (List.map_filter application_in js),
       mp_seek_tables = map Some (List.map_filter seek_table_in js),
       mp_cue_sheets = map Some (List.map_filter cue_sheet_in js),
       mp_padding_blocks = map Some (List.map_filter padding_in js),
       mp_unknown_blocks = map Some (List.map_filter unknown_in js),
       mp_block_types = map bl_type rest, mp_block_indices = ranks [] rest\<rparr>)"

text \<open>A list of blocks as libFLAC's chain holds it.\<close>

definition file_metadata :: "flac_block list \<Rightarrow> bool" where
  "file_metadata bs \<longleftrightarrow> length bs < 2147483648 \<and> (\<forall>b \<in> set bs. tagged b \<and>
     (\<forall>v cs. bl_data b = VorbisCommentData v cs \<longrightarrow> length cs < 2147483648))"

lemma map_filter_map: "List.map_filter f (map g xs) = List.map_filter (\<lambda>x. f (g x)) xs"
  by (induction xs) (simp_all split: option.split)

lemma last_of_type_SomeD: "last_of_type t bs = Some b \<Longrightarrow> b \<in> set bs \<and> bl_type b = t"
proof -
  assume "last_of_type t bs = Some b"
  then obtain l where "rev (filter (\<lambda>b. bl_type b = t) bs) = b # l"
    by (auto simp: last_of_type_def split: list.splits)
  then have "b \<in> set (rev (filter (\<lambda>b. bl_type b = t) bs))" by (metis list.set_intros(1))
  then show ?thesis by simp
qed

lemma tagged_members:
  assumes "tagged b"
  shows "bl_type b = METADATA_TYPE_VORBIS_COMMENT \<Longrightarrow> \<exists>v cs. bl_data b = VorbisCommentData v cs"
    "bl_type b = METADATA_TYPE_STREAMINFO \<Longrightarrow> \<exists>i. bl_data b = StreamInfoData i"
  using assms
  by (auto simp: tagged.simps metadata_type_defs METADATA_TYPE_UNDEFINED_def split: block_data.splits)

lemma read_arrays_ends:
  assumes "walk_laws C view" "charset_found J" "reading_chain view bs s" "file_metadata bs"
    "length bs \<le> fuel" "0 < fuel" "\<not> exception_check e"
  shows "read_ends (file_payload N info bs) e (read_arrays N J C fuel (counts_of bs) info s e)"
proof -
  have tagged: "\<forall>b \<in> set bs. tagged b" and small: "length bs < 2147483648"
    using assms(4) by (auto simp: file_metadata_def)
  have comments: "\<exists>v cs. bl_data b = VorbisCommentData v cs \<and> length cs < 2147483648"
    if "last_of_type METADATA_TYPE_VORBIS_COMMENT bs = Some b" for b
    using last_of_type_SomeD [OF that] tagged_members(1) [of b] assms(4)
    by (fastforce simp: file_metadata_def)
  let ?n = "counts_of bs" and ?js = "map (java_block_of N) bs"
  let ?rest = "filter (\<lambda>b. bl_type b \<noteq> METADATA_TYPE_STREAMINFO) bs"
  note facts = assms(1,2) tagged assms(5,6) small
  note counts = counts_of_def tally_def unknown_tally_def
  have comments_phase: "phase_makes view bs
      (comments_of N (last_of_type METADATA_TYPE_VORBIS_COMMENT bs)) e
      (Some (read_comments N J (vorbis_block ?n) s e))"
    using read_comments_makes [OF assms(2,3,7) comments] by (simp add: counts_of_def)
  have pictures: "phase_makes view bs (map Some (List.map_filter picture_in ?js)) e1
      (read_pictures N J C fuel (picture_count ?n) s1 e1)"
    if "reading_chain view bs s1" "\<not> exception_check e1" for s1 e1
    unfolding read_pictures_def map_filter_map
    by (rule picture_array.read_array_makes)
      (use facts that picture_array.length_map_filter [OF tagged] in \<open>simp_all add: counts\<close>)
  have applications: "phase_makes view bs (map Some (List.map_filter application_in ?js)) e1
      (read_applications J C fuel (application_count ?n) s1 e1)"
    if "reading_chain view bs s1" "\<not> exception_check e1" for s1 e1
    unfolding read_applications_def map_filter_map
    by (rule application_array.read_array_makes)
      (use facts that application_array.length_map_filter [OF tagged] in \<open>simp_all add: counts\<close>)
  have seek_tables: "phase_makes view bs (map Some (List.map_filter seek_table_in ?js)) e1
      (read_seek_tables J C fuel (seek_table_count ?n) s1 e1)"
    if "reading_chain view bs s1" "\<not> exception_check e1" for s1 e1
    unfolding read_seek_tables_def map_filter_map
    by (rule seek_table_array.read_array_makes)
      (use facts that seek_table_array.length_map_filter [OF tagged] in \<open>simp_all add: counts\<close>)
  have cue_sheets: "phase_makes view bs (map Some (List.map_filter cue_sheet_in ?js)) e1
      (read_cue_sheets N J C fuel (cue_sheet_count ?n) s1 e1)"
    if "reading_chain view bs s1" "\<not> exception_check e1" for s1 e1
    unfolding read_cue_sheets_def map_filter_map
    by (rule cue_sheet_array.read_array_makes)
      (use facts that cue_sheet_array.length_map_filter [OF tagged] in \<open>simp_all add: counts\<close>)
  have paddings: "phase_makes view bs (map Some (List.map_filter padding_in ?js)) e1
      (read_paddings J C fuel (padding_count ?n) s1 e1)"
    if "reading_chain view bs s1" "\<not> exception_check e1" for s1 e1
    unfolding read_paddings_def map_filter_map
    by (rule padding_array.read_array_makes)
      (use facts that padding_array.length_map_filter [OF tagged] in \<open>simp_all add: counts\<close>)
  have unknowns: "phase_makes view bs (map Some (List.map_filter unknown_in ?js)) e1
      (read_unknowns J C fuel (unknown_count ?n) s1 e1)"
    if "reading_chain view bs s1" "\<not> exception_check e1" for s1 e1
    unfolding read_unknowns_def map_filter_map
    by (rule unknown_array.read_array_makes)
      (use facts that unknown_array.length_map_filter [OF tagged] in \<open>simp_all add: counts\<close>)
  have order: "phase_makes view bs (map bl_type ?rest, ranks [] ?rest) e1
      (read_order J C fuel (ordered_block_count ?n) s1 e1)"
    if "reading_chain view bs s1" "\<not> exception_check e1" for s1 e1
    using read_order_makes [OF assms(1) that(1) assms(5,6) small that(2) refl] by (simp add: counts)
  have payload: "read_ends (file_payload N info bs) e1 (new_metadata_payload J
      \<lparr>mp_stream_info = info,
       mp_vendor = fst (comments_of N (last_of_type METADATA_TYPE_VORBIS_COMMENT bs)),
       mp_comment_entries = snd (comments_of N (last_of_type METADATA_TYPE_VORBIS_COMMENT bs)),
       mp_pictures = map Some (List.map_filter picture_in ?js),
       mp_application_blocks = map Some (List.map_filter application_in ?js),
       mp_seek_tables = map Some (List.map_filter seek_table_in ?js),
       mp_cue_sheets = map Some (List.map_filter cue_sheet_in ?js),
       mp_padding_blocks = map Some (List.map_filter padding_in ?js),
       mp_unknown_blocks = map Some (List.map_filter unknown_in ?js),
       mp_block_types = fst (map bl_type ?rest, ranks [] ?rest),
       mp_block_indices = snd (map bl_type ?rest, ranks [] ?rest)\<rparr> s1 e1)"
    if "reading_chain view bs s1" "\<not> exception_check e1" for s1 e1
    using new_metadata_payload_ends [OF that, of "file_payload N info bs" J]
    by (simp add: file_payload_def Let_def)
  show ?thesis
    unfolding read_arrays_def
    by (rule after_phase_ends comments_phase pictures applications seek_tables cue_sheets paddings
        unknowns order payload | assumption)+
qed

section \<open>The operation\<close>

text \<open>The blocks the chain holds after reading the file.\<close>

definition file_blocks where
  "file_blocks C view container p =
     fst (view (snd (read_metadata_chain_for_container C (metadata_chain_new C) p container)))"

lemma open_read_chain_done:
  assumes "open_read_chain J C p container no_edit e = (ok, s, e1)" "\<not> exception_check e"
  shows "harmless e e1 \<and>
    (if ok then reading_chain view (file_blocks C view container p) s \<and> \<not> exception_check e1
     else es_chain s = None \<and> \<not> es_iterator s \<and> \<not> es_fault s \<and> exception_check e1)"
  using assms
  by (auto simp: open_read_chain_def plain_alloc_def Let_def chain_call_def no_edit_def
      metadata_chain_delete_def reading_chain_def file_blocks_def harmless_def same_resources_def
      throw_defs raise_def exception_check_def split: if_splits prod.splits)

lemma java_steps_clean:
  "java_seq J cs e = (True, e1) \<Longrightarrow> \<not> exception_check e \<Longrightarrow> \<not> exception_check e1"
  "java_try J c e = (True, e1) \<Longrightarrow> \<not> exception_check e \<Longrightarrow> \<not> exception_check e1"
  "plain_alloc J c e = (ok, e1) \<Longrightarrow> \<not> exception_check e \<Longrightarrow> \<not> exception_check e1"
  using checkedD(2) [OF checked_java_seq] checkedD(2) [OF checked_java_try]
  by (blast, blast) (auto simp: plain_alloc_def exception_check_def)

lemma jstring_to_utf8_clean:
  assumes "jstring_to_utf8 J s e = (Some t, e1)" "\<not> exception_check e"
  shows "s = Some t \<and> \<not> exception_check e1"
  using assms
  by (auto simp: jstring_to_utf8_def Let_def split: option.splits prod.splits if_splits
      dest!: java_steps_clean)

text \<open>The files the API can represent.\<close>

definition readable :: "flac_block list \<Rightarrow> stream_info \<Rightarrow> bool" where
  "readable bs info \<longleftrightarrow>
     (\<exists>b. last_of_type METADATA_TYPE_STREAMINFO bs = Some b \<and> bl_data b = StreamInfoData info) \<and>
     length (filter (\<lambda>b. bl_type b = METADATA_TYPE_VORBIS_COMMENT) bs) \<le> 1"

lemma read_open_chain_done:
  assumes "walk_laws C view" "charset_found J" "reading_chain view bs s" "file_metadata bs"
    "length bs \<le> fuel" "0 < fuel" "\<not> exception_check e"
  shows "\<exists>r s' e'. read_open_chain N J C fuel s e = Some (r, s', e') \<and>
    es_chain s' = None \<and> \<not> es_iterator s' \<and> \<not> es_fault s' \<and> harmless e e' \<and>
    (case r of None \<Rightarrow> exception_check e'
     | Some m \<Rightarrow> \<not> exception_check e' \<and> (\<exists>info. readable bs info \<and> m = file_payload N info bs))"
proof -
  obtain s5 where w: "walk C count_body fuel no_blocks s e = Some (True, counts_of bs, s5, e)"
    "reading_chain view bs s5"
    using walk_each [where body = count_body and g = "\<lambda>b n e. (True, count_block b n, e)",
        OF assms(1) _ _ assms(3,5,6)] count_each [of bs "[]" e]
    by (fastforce simp: count_body_def counts_of_Nil)
  note close = close_reading [OF w(2)]
  let ?k = "length (filter (\<lambda>b. bl_type b = METADATA_TYPE_VORBIS_COMMENT) bs)"
  have "?k < 2147483648"
    using assms(4) length_filter_le [of "\<lambda>b. bl_type b = METADATA_TYPE_VORBIS_COMMENT" bs]
    unfolding file_metadata_def by linarith
  then have k: "sint (vorbis_comment_count (counts_of bs)) = int ?k"
    by (simp add: counts_of_def tally_def sint_of_nat_jint)
  show ?thesis
  proof (cases "last_of_type METADATA_TYPE_STREAMINFO bs = None \<or> 1 < ?k")
    case True
    then show ?thesis using w close k
      by (auto simp: read_open_chain_def counts_of_def throw_defs split: option.splits)
  next
    case False
    then obtain b where b: "last_of_type METADATA_TYPE_STREAMINFO bs = Some b" by auto
    from last_of_type_SomeD [OF b] tagged_members(2) [of b] assms(4) obtain info where
      info: "bl_data b = StreamInfoData info"
      by (auto simp: file_metadata_def)
    have ok: "readable bs info" using b info False by (auto simp: readable_def)
    obtain made6 e6 where si: "new_stream_info J e = (made6, e6)" by force
    note c6 = checkedD [OF checked_java_seq [OF assms(7)] si [unfolded new_stream_info_def]]
    have run: "read_open_chain N J C fuel s e =
        (if \<not> made6 then abandon_read s5 e6 else read_arrays N J C fuel (counts_of bs) info s5 e6)"
      using w b info False k si by (simp add: read_open_chain_def counts_of_def)
    show ?thesis
    proof (cases made6)
      case False
      then show ?thesis using run close c6 by (simp add: abandon_read_def)
    next
      case True
      then have "read_ends (file_payload N info bs) e6 (read_arrays N J C fuel (counts_of bs) info s5 e6)"
        using read_arrays_ends [OF assms(1,2) w(2) assms(4-6)] c6(2) by simp
      then show ?thesis using True run c6(1) ok
        by (auto simp: read_ends_def elim!: madeE intro: harmless_trans)
    qed
  qed
qed

lemma readMetadata_done:
  assumes "walk_laws C view" "charset_found J" "\<not> exception_check e" "0 < fuel"
    "\<And>p. path = Some p \<Longrightarrow> file_metadata (file_blocks C view container p) \<and>
       length (file_blocks C view container p) \<le> fuel"
  shows "\<exists>r s' e'. readMetadata N J C fuel path container e = Some (r, s', e') \<and>
    es_chain s' = None \<and> \<not> es_iterator s' \<and> \<not> es_fault s' \<and> same_resources e e' \<and>
    (case r of None \<Rightarrow> exception_check e'
     | Some m \<Rightarrow> \<not> exception_check e' \<and>
         (\<exists>p info. path = Some p \<and> readable (file_blocks C view container p) info \<and>
            m = file_payload N info (file_blocks C view container p)))"
proof -
  obtain ready e1 where r1: "flac_api_ready J e = (ready, e1)" by force
  obtain valid e2 where r2: "validate_container container e1 = (valid, e2)" by force
  obtain utf8 e3 where r3: "jstring_to_utf8 J path e2 = (utf8, e3)" by force
  have h1: "harmless e e1" using r1 by (rule harmless_flac_api_ready)
  have h2: "harmless e e2" using h1 r2 by (auto simp: validate_container_def split: if_splits)
  have h3: "harmless e e3" by (rule harmless_trans [OF h2 harmless_result [OF r3]]) simp
  have c1: "ready \<longleftrightarrow> \<not> exception_check e1"
    using flac_api_ready_env [OF r1] assms(3) by (auto simp: exception_check_def)
  have c2: "ready \<Longrightarrow> valid \<longleftrightarrow> \<not> exception_check e2"
    using r2 c1 by (auto simp: validate_container_def throw_defs split: if_splits)
  show ?thesis
  proof (cases "ready \<and> valid \<and> utf8 \<noteq> None")
    case False
    then show ?thesis using h1 h2 h3 c1 c2 r1 r2 r3
      by (auto simp: readMetadata_def no_edit_def throw_defs harmless_def Let_def)
  next
    case True
    then obtain p where p: "utf8 = Some p" by auto
    with jstring_to_utf8_clean [of J path e2 p e3] r3 True c2 have pp: "path = Some p"
      and c3: "\<not> exception_check e3"
      by auto
    let ?bs = "file_blocks C view container p"
    obtain opened s4 e4 where o: "open_read_chain J C p container no_edit e3 = (opened, s4, e4)"
      by (metis surj_pair)
    note op = open_read_chain_done [OF o c3, where view = view]
    have h4: "harmless e e4" using h3 op by (auto intro: harmless_trans)
    have run: "readMetadata N J C fuel path container e =
        (if \<not> opened then Some (None, s4, e4) else read_open_chain N J C fuel s4 e4)"
      using True p r1 r2 r3 o by (simp add: readMetadata_def)
    show ?thesis
    proof (cases opened)
      case False
      then show ?thesis using run op h4 by (simp add: harmless_def)
    next
      case True
      then have "reading_chain view ?bs s4" "\<not> exception_check e4" using op by simp_all
      from read_open_chain_done [OF assms(1,2) this(1) _ _ assms(4) this(2), of N] assms(5) [OF pp]
      obtain r s' e' where R: "read_open_chain N J C fuel s4 e4 = Some (r, s', e')"
        "es_chain s' = None" "\<not> es_iterator s'" "\<not> es_fault s'" "harmless e4 e'"
        "case r of None \<Rightarrow> exception_check e'
         | Some m \<Rightarrow> \<not> exception_check e' \<and> (\<exists>info. readable ?bs info \<and> m = file_payload N info ?bs)"
        by blast
      have "same_resources e e'" using harmless_trans [OF h4 R(5)] by (simp add: harmless_def)
      with R True run pp show ?thesis by (auto split: option.splits)
    qed
  qed
qed

section \<open>A sample file\<close>

definition sample_blocks :: "flac_block list" where
  "sample_blocks =
     [\<lparr>bl_type = 0, bl_length = 34, bl_data = StreamInfoData (empty_stream_info\<lparr>si_channels := 2\<rparr>)\<rparr>,
      \<lparr>bl_type = 1, bl_length = 16, bl_data = PaddingData\<rparr>,
      \<lparr>bl_type = 9, bl_length = 2, bl_data = UnknownData [5, 6]\<rparr>,
      \<lparr>bl_type = 1, bl_length = 4, bl_data = PaddingData\<rparr>]"

definition sample_read_chain :: "(flac_block list \<times> nat) read_chain_api" where
  "sample_read_chain = chain_api.extend sample_chain
     \<lparr>metadata_chain_read_ogg = (\<lambda>c path. (False, c))\<rparr>
     \<lparr>metadata_chain_read := (\<lambda>c path. (True, (sample_blocks, 0)))\<rparr>"

text \<open>A Java side on which \<open>ArrayList.add\<close> returns true.\<close>

definition adding_jvm :: jvm where
  "adding_jvm = sample_jvm\<lparr>jv_int := (\<lambda>_. 1)\<rparr>"

definition sample_opening :: "bool \<times> (flac_block list \<times> nat) edit_state \<times> jenv" where
  "sample_opening = open_read_chain adding_jvm sample_read_chain ''a.flac'' JFLAC_CONTAINER_NATIVE no_edit
     (snd (jstring_to_utf8 adding_jvm (Some ''a.flac'') loaded_env))"

lemma sample_open_run:
  "case read_open_chain id adding_jvm sample_read_chain 4 (fst (snd sample_opening)) (snd (snd sample_opening)) of
     None \<Rightarrow> False
   | Some (r, s, e) \<Rightarrow> (case r of None \<Rightarrow> False
       | Some m \<Rightarrow> mp_block_types m = [1, 9, 1] \<and> mp_block_indices m = [0, 0, 1] \<and>
           map (map_option jpad_length) (mp_padding_blocks m) = [Some 16, Some 4])"
  unfolding read_open_chain_def read_arrays_def after_phase_def
  by code_simp

lemma sample_read_start:
  "readMetadata id adding_jvm sample_read_chain 4 (Some ''a.flac'') JFLAC_CONTAINER_NATIVE loaded_env =
   read_open_chain id adding_jvm sample_read_chain 4 (fst (snd sample_opening)) (snd (snd sample_opening))"
proof -
  have ready: "flac_api_ready adding_jvm loaded_env = (True, loaded_env)"
    by (simp add: flac_api_ready_def jflac_call_once_def loaded_env_def initial_env_def)
  have valid: "validate_container JFLAC_CONTAINER_NATIVE loaded_env = (True, loaded_env)"
    by (simp add: validate_container_def is_valid_container_def)
  have "fst (jstring_to_utf8 adding_jvm (Some ''a.flac'') loaded_env) = Some ''a.flac''" by code_simp
  then obtain e3 where path: "jstring_to_utf8 adding_jvm (Some ''a.flac'') loaded_env = (Some ''a.flac'', e3)"
    by (metis prod.collapse)
  have "fst sample_opening" by code_simp
  then obtain s4 e4 where opened: "sample_opening = (True, s4, e4)"
    by (metis prod.collapse)
  show ?thesis
    using opened [unfolded sample_opening_def path snd_conv]
    by (simp add: readMetadata_def ready valid path opened)
qed

section \<open>Properties\<close>

text \<open>
  C37: reading metadata returns, with fuel for the longest walk, and reports exactly what the file
  holds. Whatever Java throws and whichever allocation fails, libFLAC's chain and iterator are
  deleted, each once, and no reference or object is left behind; NULL comes with an exception
  pending, and a result with none. A result is the payload of the file's blocks: every block of each
  type converted, in file order, with STREAMINFO, the comments and the order table; there is one only
  if the file has a STREAMINFO block and at most one VORBIS_COMMENT block. libFLAC's chain and
  iterator are assumed to behave as documented and \<open>StandardCharsets.UTF_8\<close> to exist.
\<close>

theorem readMetadata_payload:
  assumes "walk_laws C view" "charset_found J" "\<not> exception_check e" "0 < fuel"
    "\<And>p. path = Some p \<Longrightarrow> file_metadata (file_blocks C view container p) \<and>
       length (file_blocks C view container p) \<le> fuel"
  shows "\<exists>r s' e'. readMetadata N J C fuel path container e = Some (r, s', e') \<and>
    es_chain s' = None \<and> \<not> es_iterator s' \<and> \<not> es_fault s' \<and> same_resources e e' \<and>
    (case r of None \<Rightarrow> exception_check e'
     | Some m \<Rightarrow> \<not> exception_check e' \<and>
         (\<exists>p info. path = Some p \<and> readable (file_blocks C view container p) info \<and>
            m = file_payload N info (file_blocks C view container p)))"
  by (rule readMetadata_done [OF assms])

lemma sample_walk_laws: "walk_laws sample_read_chain (\<lambda>c. c)"
  by (simp add: walk_laws_def sample_read_chain_def sample_chain_def chain_api.defs)

lemma sample_file:
  "file_blocks sample_read_chain (\<lambda>c. c) JFLAC_CONTAINER_NATIVE p = sample_blocks"
  "file_metadata sample_blocks"
  by (auto simp: file_blocks_def read_metadata_chain_for_container_def sample_read_chain_def
      chain_api.defs JFLAC_CONTAINER_NATIVE_def JFLAC_CONTAINER_OGG_def file_metadata_def
      sample_blocks_def tagged.simps metadata_type_defs METADATA_TYPE_UNDEFINED_def word_le_nat_alt)

lemma adding_jvm_charset: "charset_found adding_jvm"
  by (simp add: charset_found_def adding_jvm_def sample_jvm_def)

lemma readMetadata_payload_witness:
  "\<exists>m s' e' info. readMetadata id adding_jvm sample_read_chain 4 (Some ''a.flac'')
      JFLAC_CONTAINER_NATIVE loaded_env = Some (Some m, s', e') \<and>
    mp_block_types m = [1, 9, 1] \<and> mp_block_indices m = [0, 0, 1] \<and>
    m = file_payload id info sample_blocks \<and> es_chain s' = None \<and> \<not> es_fault s'"
proof -
  obtain m s' e' where r: "readMetadata id adding_jvm sample_read_chain 4 (Some ''a.flac'')
      JFLAC_CONTAINER_NATIVE loaded_env = Some (Some m, s', e')"
    and m: "mp_block_types m = [1, 9, 1]" "mp_block_indices m = [0, 0, 1]"
    using sample_open_run by (auto simp: sample_read_start split: option.splits)
  have "\<not> exception_check loaded_env" "length sample_blocks \<le> 4"
    by (simp_all add: loaded_env_def initial_env_def exception_check_def sample_blocks_def)
  with readMetadata_payload [OF sample_walk_laws adding_jvm_charset, of loaded_env 4 "Some ''a.flac''"
      JFLAC_CONTAINER_NATIVE id] r sample_file
  have "\<exists>info. m = file_payload id info sample_blocks \<and> es_chain s' = None \<and> \<not> es_fault s'"
    by auto
  with r m show ?thesis by blast
qed

text \<open>What \<open>toPublicMetadata\<close> is to make of a block.\<close>

definition public_block_of :: "(string \<Rightarrow> string) \<Rightarrow> flac_block \<Rightarrow> public_block" where
  "public_block_of N b =
     (case bl_data b of
        VorbisCommentData v cs \<Rightarrow> PublicComments (N v) (group_comments (map N cs))
      | _ \<Rightarrow> PublicBlock (java_block_of N b))"

definition public_comments :: "metadata_payload \<Rightarrow> public_block option" where
  "public_comments m = map_option
     (\<lambda>v. PublicComments v (group_comments (map the (mp_comment_entries m)))) (mp_vendor m)"

lemma payload_block_rank:
  assumes "file_metadata bs" "readable bs info"
    "rest = filter (\<lambda>b. bl_type b \<noteq> METADATA_TYPE_STREAMINFO) bs" "k < length rest"
  shows "payload_block (file_payload N info bs) (public_comments (file_payload N info bs))
      (bl_type (rest ! k)) (rank (rest ! k) (take k rest)) = Some (public_block_of N (rest ! k))"
proof -
  let ?b = "rest ! k" and ?P = "\<lambda>b. bl_type b \<noteq> METADATA_TYPE_STREAMINFO"
  have tagged: "\<forall>b \<in> set bs. tagged b" and small: "length bs < 2147483648"
    using assms(1) by (auto simp: file_metadata_def)
  have "?b \<in> set rest" using assms(4) by simp
  then have b: "?b \<in> set bs" "tagged ?b" "?P ?b" using tagged assms(3) by auto
  have none: "\<And>c. c \<in> set bs \<Longrightarrow> \<not> ?P c \<Longrightarrow> \<exists>i. bl_data c = StreamInfoData i"
    using tagged tagged_members(2) by blast
  let ?m = "file_payload N info bs" and ?pre = "take k rest"
  have none: "f (java_block_of N c) = None" if "c \<in> set bs" "\<not> ?P c" "f JOtherObject = None"
    for c and f :: "java_block \<Rightarrow> 'z option"
    using tagged_members(2) [of c] tagged that by (auto simp: java_block_of_def)
  note here = tagged small _ assms(4) [unfolded assms(3)] _ refl
  note fields = file_payload_def Let_def map_filter_map
  have picture: "get_or_null (mp_pictures ?m) (tally METADATA_TYPE_PICTURE ?pre) = Some y"
    if "picture_in (java_block_of N ?b) = Some y" for y
    using picture_array.get_converted [OF here, of N y] that none [of _ picture_in]
    by (simp add: fields tally_def assms(3) picture_in_def)
  have application: "get_or_null (mp_application_blocks ?m) (tally METADATA_TYPE_APPLICATION ?pre) = Some y"
    if "application_in (java_block_of N ?b) = Some y" for y
    using application_array.get_converted [OF here, of N y] that none [of _ application_in]
    by (simp add: fields tally_def assms(3) application_in_def)
  have seek_table: "get_or_null (mp_seek_tables ?m) (tally METADATA_TYPE_SEEKTABLE ?pre) = Some y"
    if "seek_table_in (java_block_of N ?b) = Some y" for y
    using seek_table_array.get_converted [OF here, of N y] that none [of _ seek_table_in]
    by (simp add: fields tally_def assms(3) seek_table_in_def)
  have cue_sheet: "get_or_null (mp_cue_sheets ?m) (tally METADATA_TYPE_CUESHEET ?pre) = Some y"
    if "cue_sheet_in (java_block_of N ?b) = Some y" for y
    using cue_sheet_array.get_converted [OF here, of N y] that none [of _ cue_sheet_in]
    by (simp add: fields tally_def assms(3) cue_sheet_in_def)
  have padding: "get_or_null (mp_padding_blocks ?m) (tally METADATA_TYPE_PADDING ?pre) = Some y"
    if "padding_in (java_block_of N ?b) = Some y" for y
    using padding_array.get_converted [OF here, of N y] that none [of _ padding_in]
    by (simp add: fields tally_def assms(3) padding_in_def)
  have unknown: "get_or_null (mp_unknown_blocks ?m) (unknown_tally ?pre) = Some y"
    if "unknown_in (java_block_of N ?b) = Some y" for y
    using unknown_array.get_converted [OF here, of N y] that none [of _ unknown_in]
    by (simp add: fields unknown_tally_def assms(3) unknown_in_def)
  have comments: "comments_of N (last_of_type METADATA_TYPE_VORBIS_COMMENT bs) = (Some (N v), map (Some \<circ> N) cs)"
    if "bl_data ?b = VorbisCommentData v cs" for v cs
  proof -
    let ?vcs = "filter (\<lambda>b. bl_type b = METADATA_TYPE_VORBIS_COMMENT) bs"
    have "?b \<in> set ?vcs" using b that by (simp add: tagged.simps)
    moreover have "length ?vcs \<le> 1" using assms(2) by (simp add: readable_def)
    ultimately have "?vcs = [?b]" by (cases ?vcs) auto
    then show ?thesis using that by (simp add: last_of_type_def comments_of_def)
  qed
  show ?thesis
  proof (cases "bl_data ?b")
    case (VorbisCommentData v cs)
    then show ?thesis using b comments
      by (simp add: payload_block_def tagged.simps public_block_of_def public_comments_def fields
          comp_def metadata_type_defs)
  qed (use b picture application seek_table cue_sheet padding unknown in
      \<open>auto simp: payload_block_def rank_def tagged.simps member_defs public_block_of_def split: if_splits\<close>)
qed

lemma file_payload_comments:
  "None \<notin> set (mp_comment_entries (file_payload N info bs))"
  by (auto simp: file_payload_def Let_def comments_of_def split: option.splits block_data.splits)

text \<open>
  C38: the order table is enough to rebuild the metadata. When \<open>readMetadata\<close> gives a payload, what
  \<open>toPublicMetadata\<close> makes of it is the public value of every block of the file after STREAMINFO,
  each once and in file order; the comments are grouped by name.
\<close>

theorem readMetadata_order:
  assumes "walk_laws C view" "charset_found J" "\<not> exception_check e" "0 < fuel"
    "file_metadata (file_blocks C view container p)" "length (file_blocks C view container p) \<le> fuel"
    "readMetadata N J C fuel (Some p) container e = Some (Some m, s', e')"
  shows "public_blocks m = Some (map (public_block_of N)
    (filter (\<lambda>b. bl_type b \<noteq> METADATA_TYPE_STREAMINFO) (file_blocks C view container p)))"
proof -
  let ?bs = "file_blocks C view container p"
  let ?rest = "filter (\<lambda>b. bl_type b \<noteq> METADATA_TYPE_STREAMINFO) ?bs"
  let ?block = "\<lambda>(t, i). payload_block m (public_comments m) t i"
  from readMetadata_done [OF assms(1-4), of "Some p" container N] assms(5-7) obtain info where
    m: "readable ?bs info" "m = file_payload N info ?bs"
    by auto
  have arrays: "mp_block_types m = map bl_type ?rest" "mp_block_indices m = ranks [] ?rest"
    by (simp_all add: m(2) file_payload_def Let_def)
  have some: "map ?block (zip (map bl_type ?rest) (ranks [] ?rest)) =
      map (Some \<circ> public_block_of N) ?rest"
    by (rule nth_equalityI) (simp_all add: nth_ranks m(2) payload_block_rank [OF assms(5) m(1) refl])
  have filt: "List.map_filter id (map (Some \<circ> g) xs) = map g xs" for g :: "flac_block \<Rightarrow> public_block" and xs
    by (induction xs) simp_all
  have "None \<notin> set (mp_comment_entries m)" unfolding m(2) by (rule file_payload_comments)
  then have "public_blocks m = Some (List.map_filter id
      (map ?block (zip (mp_block_types m) (mp_block_indices m))))"
    by (simp add: public_blocks_def map_filter_map public_comments_def)
  then show ?thesis unfolding arrays some filt .
qed

lemma readMetadata_order_witness:
  "\<exists>m s' e'. readMetadata id adding_jvm sample_read_chain 4 (Some ''a.flac'')
      JFLAC_CONTAINER_NATIVE loaded_env = Some (Some m, s', e') \<and>
    public_blocks m = Some (map PublicBlock [JPadding \<lparr>jpad_length = 16\<rparr>,
      JUnknown \<lparr>ju_type = 9, ju_data = Some [5, 6]\<rparr>, JPadding \<lparr>jpad_length = 4\<rparr>])"
proof -
  obtain m s' e' where r: "readMetadata id adding_jvm sample_read_chain 4 (Some ''a.flac'')
      JFLAC_CONTAINER_NATIVE loaded_env = Some (Some m, s', e')"
    using sample_open_run by (auto simp: sample_read_start split: option.splits)
  have "\<not> exception_check loaded_env" "length sample_blocks \<le> 4"
    by (simp_all add: loaded_env_def initial_env_def exception_check_def sample_blocks_def)
  with readMetadata_order [OF sample_walk_laws adding_jvm_charset _ _ _ _ r] sample_file
  have "public_blocks m = Some (map (public_block_of id)
      (filter (\<lambda>b. bl_type b \<noteq> METADATA_TYPE_STREAMINFO) sample_blocks))"
    by simp
  with r show ?thesis by (simp add: sample_blocks_def public_block_of_def java_block_of_def
      METADATA_TYPE_STREAMINFO_def)
qed

end
