(* ===== verification/Format_Queries.thy ===== *)
theory Format_Queries
  imports Metadata_Read_Guarantees
begin

text \<open>
  The format queries of \<open>jflac_jni.c\<close>: sample rates, block sizes and the legality of Vorbis comments,
  which ask libFLAC, and \<open>pictureViolation\<close>, which builds a PICTURE block, asks libFLAC about it and
  deletes it. A C string ends at its first NUL. \<open>NewStringUTF\<close> is called whether or not an exception is
  pending; it yields NULL when it throws.
\<close>

section \<open>Numbers\<close>

record format_api =
  format_sample_rate_is_valid :: "u32 \<Rightarrow> bool"
  format_sample_rate_is_subset :: "u32 \<Rightarrow> bool"
  format_blocksize_is_subset :: "u32 \<Rightarrow> u32 \<Rightarrow> bool"
  format_vorbiscomment_entry_name_is_legal :: "string \<Rightarrow> bool"
  format_vorbiscomment_entry_value_is_legal :: "string \<Rightarrow> u32 \<Rightarrow> bool"
  format_vorbiscomment_entry_is_legal :: "string \<Rightarrow> u32 \<Rightarrow> bool"
  metadata_object_picture_is_legal :: "flac_block \<Rightarrow> bool \<times> string option"

definition isSampleRateValid :: "jvm \<Rightarrow> format_api \<Rightarrow> jint \<Rightarrow> jenv \<Rightarrow> bool \<times> jenv" where
  "isSampleRateValid J F sample_rate e =
     (let (ready, e1) = flac_api_ready J e in
      if \<not> ready \<or> sint sample_rate < 0 then (False, e1)
      else (format_sample_rate_is_valid F sample_rate, e1))"

definition isSampleRateSubset :: "jvm \<Rightarrow> format_api \<Rightarrow> jint \<Rightarrow> jenv \<Rightarrow> bool \<times> jenv" where
  "isSampleRateSubset J F sample_rate e =
     (let (ready, e1) = flac_api_ready J e in
      if \<not> ready \<or> sint sample_rate < 0 then (False, e1)
      else (format_sample_rate_is_subset F sample_rate, e1))"

definition isBlockSizeSubset :: "jvm \<Rightarrow> format_api \<Rightarrow> jint \<Rightarrow> jint \<Rightarrow> jenv \<Rightarrow> bool \<times> jenv" where
  "isBlockSizeSubset J F block_size sample_rate e =
     (let (ready, e1) = flac_api_ready J e in
      if \<not> ready \<or> sint block_size < 0 \<or> sint sample_rate < 0 then (False, e1)
      else (format_blocksize_is_subset F block_size sample_rate, e1))"

section \<open>Vorbis comments\<close>

definition isVorbisCommentNameLegal ::
  "jvm \<Rightarrow> format_api \<Rightarrow> string option \<Rightarrow> jenv \<Rightarrow> bool \<times> jenv" where
  "isVorbisCommentNameLegal J F name e =
     (let (ready, e1) = flac_api_ready J e in
      if \<not> ready \<or> name = None then (False, e1) else
      let (utf8_name, e2) = jstring_to_utf8 J name e1 in
      (case utf8_name of None \<Rightarrow> (False, e2)
       | Some s \<Rightarrow> (format_vorbiscomment_entry_name_is_legal F (c_string s), e2)))"

definition isVorbisCommentValueLegal ::
  "jvm \<Rightarrow> format_api \<Rightarrow> string option \<Rightarrow> jenv \<Rightarrow> bool \<times> jenv" where
  "isVorbisCommentValueLegal J F content e =
     (let (ready, e1) = flac_api_ready J e in
      if \<not> ready \<or> content = None then (False, e1) else
      let (utf8_value, e2) = jstring_to_utf8 J content e1 in
      (case utf8_value of None \<Rightarrow> (False, e2)
       | Some s \<Rightarrow>
           (let len = length (c_string s) in
            (if int len \<le> UINT32_MAX
             then format_vorbiscomment_entry_value_is_legal F (c_string s) (of_nat len)
             else False, e2))))"

definition isVorbisCommentEntryLegal ::
  "jvm \<Rightarrow> format_api \<Rightarrow> string option \<Rightarrow> jenv \<Rightarrow> bool \<times> jenv" where
  "isVorbisCommentEntryLegal J F entry e =
     (let (ready, e1) = flac_api_ready J e in
      if \<not> ready \<or> entry = None then (False, e1) else
      let (utf8_entry, e2) = jstring_to_utf8 J entry e1 in
      (case utf8_entry of None \<Rightarrow> (False, e2)
       | Some s \<Rightarrow>
           (let len = length (c_string s) in
            (if int len \<le> UINT32_MAX
             then format_vorbiscomment_entry_is_legal F (c_string s) (of_nat len)
             else False, e2))))"

section \<open>Pictures\<close>

definition new_string_utf :: "jvm \<Rightarrow> string \<Rightarrow> jenv \<Rightarrow> string option \<times> jenv" where
  "new_string_utf J text e =
     (let (ok, e1) = java_try J (Jni ''NewStringUTF'') e in (if ok then Some text else None, e1))"

definition pictureViolation ::
  "jvm \<Rightarrow> metadata_api \<Rightarrow> format_api \<Rightarrow> java_picture option \<Rightarrow> jenv \<Rightarrow> string option \<times> jenv" where
  "pictureViolation J M F picture e =
     (let (ready, e1) = flac_api_ready J e in
      if \<not> ready then (None, e1) else
      if picture = None then new_string_utf J ''Picture must not be null.'' e1 else
      let (built, block, e2) = build_picture_block J M picture e1 in
      if \<not> built \<or> block = None
      then new_string_utf J ''Unable to build FLAC picture metadata for validation.'' e2 else
      let (legal, violation) = metadata_object_picture_is_legal F (block_at e2 (the block));
          e3 = metadata_object_delete (the block) e2 in
      if legal then (None, e3)
      else new_string_utf J
             (case violation of Some v \<Rightarrow> v | None \<Rightarrow> ''Illegal FLAC picture metadata.'') e3)"

section \<open>Properties\<close>

lemma new_string_utf_outcome:
  "new_string_utf J t e = (r, e1) \<Longrightarrow> harmless e e1 \<and> (r = None \<longrightarrow> exception_check e1)"
  by (auto simp: new_string_utf_def Let_def java_try_def exception_check_java_call
      split: prod.splits if_splits)

text \<open>
  C39: asking about a picture leaves nothing behind: the temporary block is deleted on every path. NULL
  without an exception, which Java reads as "no violation", is returned only if a block was built
  from the picture and libFLAC found it legal.
\<close>

theorem pictureViolation_outcome:
  assumes "pictureViolation J M F picture e = (r, e')" "\<not> exception_check e"
  shows "live_blocks e' = live_blocks e \<and> global_refs e' = global_refs e \<and>
    (r = None \<and> \<not> exception_check e' \<longrightarrow>
       (\<exists>p a e1 e2. picture = Some p \<and> flac_api_ready J e = (True, e1) \<and>
          build_picture_block J M (Some p) e1 = (True, Some a, e2) \<and>
          fst (metadata_object_picture_is_legal F (block_at e2 a))))"
proof -
  obtain ready e1 where r1: "flac_api_ready J e = (ready, e1)" by force
  have h1: "harmless e e1" using r1 by (rule harmless_flac_api_ready)
  have c1: "\<not> ready \<Longrightarrow> exception_check e1" using flac_api_ready_env [OF r1] by simp
  obtain built block e2 where b: "build_picture_block J M picture e1 = (built, block, e2)"
    by (metis prod_cases3)
  have own: "built_ok True UNIV e1 (build_picture_block J M picture e1)"
    by (rule build_picture_ok) (simp_all add: keeps_def)
  show ?thesis
  proof (cases "ready \<and> picture \<noteq> None \<and> built \<and> block \<noteq> None")
    case False
    then show ?thesis
      using assms(1) r1 h1 c1 b own
      by (auto simp: pictureViolation_def built_ok_def same_refs_def harmless_def same_resources_def
          split: if_splits option.splits dest!: new_string_utf_outcome)
  next
    case True
    then obtain a p where a: "block = Some a" "picture = Some p" by auto
    obtain legal violation where l: "metadata_object_picture_is_legal F (block_at e2 a) = (legal, violation)"
      by force
    have own': "live_blocks e2 = a # live_blocks e1" "global_refs e2 = global_refs e1"
      using own a b by (auto simp: built_ok_def same_refs_def)
    have asked: "\<exists>p' a' e1' e2'. picture = Some p' \<and> flac_api_ready J e = (True, e1') \<and>
        build_picture_block J M (Some p') e1' = (True, Some a', e2') \<and>
        fst (metadata_object_picture_is_legal F (block_at e2' a'))" if legal
      using that r1 b l True a by (intro exI [of _ p] exI [of _ a] exI [of _ e1] exI [of _ e2]) simp
    show ?thesis
      using assms(1) r1 h1 b l own' True a asked
      by (auto simp: Let_def pictureViolation_def metadata_object_delete_def harmless_def same_resources_def
          split: if_splits dest!: new_string_utf_outcome)
  qed
qed

definition sample_picture :: java_picture where
  "sample_picture = \<lparr>jp_type = 3, jp_mime_type = Some ''image/png'', jp_description = Some [],
     jp_width = 1, jp_height = 1, jp_depth = 24, jp_colors = 0, jp_data = Some [1, 2]\<rparr>"

definition sample_format :: format_api where
  "sample_format = \<lparr>format_sample_rate_is_valid = (\<lambda>r. r < 655351),
     format_sample_rate_is_subset = (\<lambda>r. r < 65536), format_blocksize_is_subset = (\<lambda>b r. b \<le> 4608),
     format_vorbiscomment_entry_name_is_legal = (\<lambda>s. s \<noteq> []),
     format_vorbiscomment_entry_value_is_legal = (\<lambda>s n. True),
     format_vorbiscomment_entry_is_legal = (\<lambda>s n. CHR ''='' \<in> set s),
     metadata_object_picture_is_legal = (\<lambda>b. (bl_type b = 6, None))\<rparr>"

lemma sample_picture_run:
  assumes "pending e = None"
  shows "\<exists>e'. build_picture_block sample_jvm sample_metadata (Some sample_picture) e =
      (True, Some (fresh_block e), e') \<and> pending e' = None \<and>
    bl_type (block_at e' (fresh_block e)) = METADATA_TYPE_PICTURE"
  using assms
  by (simp add: build_picture_block_def sample_jvm_steps object_methods_def java_seq.simps
      call_getters.simps sample_picture_def metadata_object_new_def alloc_block_def fresh_block_def
      utf8_checked_def jstring_to_utf8_def exception_check_def copy_byte_array_def set_picture_fields_def
      publish_block_def sample_metadata_def Let_def empty_data_def metadata_type_defs)

lemma pictureViolation_outcome_witness:
  "\<exists>e' a e1 e2. pictureViolation sample_jvm sample_metadata sample_format (Some sample_picture) loaded_env =
      (None, e') \<and> \<not> exception_check e' \<and> live_blocks e' = live_blocks loaded_env \<and>
    build_picture_block sample_jvm sample_metadata (Some sample_picture) e1 = (True, Some a, e2) \<and>
    fst (metadata_object_picture_is_legal sample_format (block_at e2 a))"
proof -
  have ready: "flac_api_ready sample_jvm loaded_env = (True, loaded_env)" "pending loaded_env = None"
    by (simp_all add: flac_api_ready_def jflac_call_once_def loaded_env_def initial_env_def)
  from sample_picture_run [OF ready(2)] obtain a e2 where
    b: "build_picture_block sample_jvm sample_metadata (Some sample_picture) loaded_env = (True, Some a, e2)"
      "pending e2 = None" "bl_type (block_at e2 a) = METADATA_TYPE_PICTURE"
    by blast
  obtain e' where r: "pictureViolation sample_jvm sample_metadata sample_format (Some sample_picture)
      loaded_env = (None, e')" and e': "\<not> exception_check e'"
    using ready b by (simp add: pictureViolation_def sample_format_def METADATA_TYPE_PICTURE_def
        metadata_object_delete_def exception_check_def)
  have "\<not> exception_check loaded_env" using ready(2) by (simp add: exception_check_def)
  from pictureViolation_outcome [OF r this] r e' show ?thesis by auto
qed

end
