(* ===== verification/Platform_Windows.thy ===== *)
theory Platform_Windows
  imports Platform_Posix
begin

text \<open>
  The Windows side of the platform layer (\<open>jflac_platform_windows.c\<close>), with the same interface as
  the POSIX side. The Win32 calls are a parameter. A wide string is a list of 16-bit words, read up to
  its first NUL. Two history variables: \<open>win_refs\<close>, the references the process holds on libraries it
  loaded, and \<open>win_heap\<close>, the buffers allocated and not freed. A slim reader/writer lock has no
  effect of its own here: the model's operations are atomic.
\<close>

section \<open>The Win32 calls\<close>

type_synonym wchar = "16 word"

record windows_loader =
  GetModuleHandleExW :: "nat option"
  GetModuleFileNameW :: "nat \<Rightarrow> u32 \<Rightarrow> u32 \<times> wchar list"
  MultiByteToWideChar_length :: "string \<Rightarrow> jint"
  MultiByteToWideChar :: "string \<Rightarrow> jint \<Rightarrow> jint \<times> wchar list"
  LoadLibraryW :: "wchar list \<Rightarrow> nat option"
  FreeLibrary :: "nat \<Rightarrow> bool"
  GetProcAddress :: "nat \<Rightarrow> string \<Rightarrow> nat option"
  GetLastError :: "string \<Rightarrow> u32"
  path_calloc :: "u32 \<Rightarrow> bool"
  wide_calloc :: "jint \<Rightarrow> bool"
  path_realloc :: bool

record windows_state =
  win_refs :: nat
  win_heap :: int

definition allocated :: "windows_state \<Rightarrow> windows_state" where
  "allocated s = s\<lparr>win_heap := win_heap s + 1\<rparr>"

definition freed :: "windows_state \<Rightarrow> windows_state" where
  "freed s = s\<lparr>win_heap := win_heap s - 1\<rparr>"

text \<open>\<open>free\<close> of a pointer that is NULL when the call that made it failed.\<close>

definition free_result :: "'a result \<Rightarrow> windows_state \<Rightarrow> windows_state" where
  "free_result r s = (case r of Failed err \<Rightarrow> s | Done x \<Rightarrow> freed s)"

definition wcs :: "wchar list \<Rightarrow> wchar list" where
  "wcs buffer = takeWhile (\<lambda>c. c \<noteq> 0) buffer"

definition wcslen :: "wchar list \<Rightarrow> nat" where
  "wcslen buffer = length (wcs buffer)"

definition wcsrchr :: "wchar list \<Rightarrow> wchar \<Rightarrow> nat option" where
  "wcsrchr buffer c = strrchr (wcs buffer) c"

definition set_windows_error :: "string \<Rightarrow> u32 \<Rightarrow> string" where
  "set_windows_error message code =
     snprintf_buffer (message @ '' (Windows error '' @ show_u64 (ucast code) @ '').'')"

section \<open>The path of the shim and the file name\<close>

definition utf8_filename_to_wide ::
  "windows_loader \<Rightarrow> string \<Rightarrow> windows_state \<Rightarrow> wchar list result \<times> windows_state" where
  "utf8_filename_to_wide L filename s =
     (let required = MultiByteToWideChar_length L filename in
      if sint required \<le> 0
      then (Failed (set_windows_error ''The bundled library filename is not valid UTF-8''
              (GetLastError L ''MultiByteToWideChar'')), s)
      else if \<not> wide_calloc L required
      then (Failed ''Unable to allocate the bundled library filename.'', s)
      else
        let s1 = allocated s; (converted, wide) = MultiByteToWideChar L filename required in
        if sint converted \<le> 0
        then (Failed (set_windows_error ''Unable to convert the bundled library filename''
                (GetLastError L ''MultiByteToWideChar'')), freed s1)
        else (Done wide, s1))"

text \<open>The loop over growing buffers; None would be a loop that does not end.\<close>

partial_function (option) module_path_from ::
  "windows_loader \<Rightarrow> nat \<Rightarrow> u32 \<Rightarrow> windows_state \<Rightarrow> (wchar list result \<times> windows_state) option" where
  "module_path_from L module capacity s =
     (if \<not> capacity \<le> 32768
      then Some (Failed ''The JNI shim path exceeds the Windows path limit.'', s)
      else if \<not> path_calloc L capacity
      then Some (Failed ''Unable to allocate the JNI shim path.'', s)
      else
        let s1 = allocated s; len = fst (GetModuleFileNameW L module capacity) in
        if len = 0
        then Some (Failed (set_windows_error ''Unable to resolve the JNI shim path''
                (GetLastError L ''GetModuleFileNameW'')), freed s1)
        else if len < capacity - 1
        then Some (Done (snd (GetModuleFileNameW L module capacity)), s1)
        else module_path_from L module (capacity * 2) (freed s1))"

definition loaded_module_path ::
  "windows_loader \<Rightarrow> nat \<Rightarrow> windows_state \<Rightarrow> (wchar list result \<times> windows_state) option" where
  "loaded_module_path L module s = module_path_from L module 512 s"

section \<open>Opening, closing, resolving\<close>

definition path_separator :: "wchar list \<Rightarrow> nat option" where
  "path_separator module_path =
     (let separator = wcsrchr module_path 92; forward_separator = wcsrchr module_path 47 in
      case forward_separator of
        None \<Rightarrow> separator
      | Some f \<Rightarrow> (case separator of None \<Rightarrow> Some f | Some b \<Rightarrow> if b < f then Some f else Some b))"

definition load_sibling ::
  "windows_loader \<Rightarrow> wchar list \<Rightarrow> wchar list \<Rightarrow> jflac_module \<Rightarrow> windows_state \<Rightarrow>
   jflac_module result \<times> windows_state" where
  "load_sibling L module_path wide_filename m s =
     (case path_separator module_path of
        None \<Rightarrow> (Failed ''The JNI shim path does not contain a parent directory.'', freed (freed s))
      | Some separator \<Rightarrow>
          let directory_length = separator + 1; filename_length = wcslen wide_filename + 1 in
          if \<not> path_realloc L
          then (Failed ''Unable to allocate the bundled library path.'', freed (freed s))
          else
            let sibling_path = take directory_length module_path @ take filename_length wide_filename;
                s1 = freed s; s2 = freed s1 in
            (case LoadLibraryW L (wcs sibling_path) of
               None \<Rightarrow> (Failed (set_windows_error
                 ''Unable to load the bundled libFLAC runtime beside the JNI shim''
                 (GetLastError L ''LoadLibraryW'')), s2)
             | Some loaded \<Rightarrow> (Done (m\<lparr>module_handle := Some loaded, owns_handle := True\<rparr>),
                 s2\<lparr>win_refs := win_refs s2 + 1\<rparr>)))"

definition jflac_open_sibling_library_windows ::
  "windows_loader \<Rightarrow> string option \<Rightarrow> jflac_module option \<Rightarrow> windows_state \<Rightarrow>
   (jflac_module result \<times> windows_state) option" where
  "jflac_open_sibling_library_windows L library_filename module s =
     (case module of
        None \<Rightarrow> Some (Failed ''The destination module must not be null.'', s)
      | Some m \<Rightarrow>
          if module_handle m \<noteq> None \<or> owns_handle m
          then Some (Failed ''The destination module already contains a library handle.'', s) else
          (case library_filename of
             None \<Rightarrow> Some (Failed ''The bundled library filename must not be null.'', s)
           | Some filename \<Rightarrow>
               (case GetModuleHandleExW L of
                  None \<Rightarrow> Some (Failed (set_windows_error ''Unable to locate the loaded JNI shim''
                            (GetLastError L ''GetModuleHandleExW'')), s)
                | Some shim_module \<Rightarrow>
                    (case loaded_module_path L shim_module s of
                       None \<Rightarrow> None
                     | Some (module_path, s1) \<Rightarrow>
                         (let (wide_filename, s2) = utf8_filename_to_wide L filename s1 in
                          case (module_path, wide_filename) of
                            (Done path, Done wide) \<Rightarrow> Some (load_sibling L path wide m s2)
                          | (_, Failed err) \<Rightarrow> Some (Failed err, free_result module_path s2)
                          | (Failed err, Done wide) \<Rightarrow> Some (Failed err, freed s2))))))"

definition jflac_close_library_windows ::
  "windows_loader \<Rightarrow> jflac_module option \<Rightarrow> windows_state \<Rightarrow>
   bool \<times> jflac_module option \<times> windows_state" where
  "jflac_close_library_windows L module s =
     (case module of
        None \<Rightarrow> (True, None, s)
      | Some m \<Rightarrow>
          (case (if owns_handle m then module_handle m else None) of
             None \<Rightarrow> (True, Some (m\<lparr>module_handle := None, owns_handle := False\<rparr>), s)
           | Some handle \<Rightarrow>
               if \<not> FreeLibrary L handle then (False, Some m, s)
               else (True, Some (m\<lparr>module_handle := None, owns_handle := False\<rparr>),
                     s\<lparr>win_refs := win_refs s - 1\<rparr>)))"

definition jflac_resolve_symbol_windows ::
  "windows_loader \<Rightarrow> jflac_module \<Rightarrow> string \<Rightarrow> nat \<Rightarrow> nat result" where
  "jflac_resolve_symbol_windows L m symbol_name slot_size =
     (case GetProcAddress L (case module_handle m of Some h \<Rightarrow> h | None \<Rightarrow> 0) symbol_name of
        None \<Rightarrow> Failed (snprintf_buffer
          (''Missing symbol in the bundled libFLAC runtime: '' @ symbol_name))
      | Some address \<Rightarrow>
          if slot_size \<noteq> 8
          then Failed (snprintf_buffer (''Cannot represent the libFLAC symbol pointer for '' @
                 symbol_name @ '' on this platform.''))
          else Done address)"

section \<open>Facts\<close>

lemma allocated_freed [simp]:
  "win_heap (allocated s) = win_heap s + 1" "win_refs (allocated s) = win_refs s"
  "win_heap (freed s) = win_heap s - 1" "win_refs (freed s) = win_refs s"
  "freed (allocated s) = s"
  by (simp_all add: allocated_def freed_def)

text \<open>A result with a buffer of its own, or a message and no buffer.\<close>

definition buffer_result :: "windows_state \<Rightarrow> 'a result \<times> windows_state \<Rightarrow> bool" where
  "buffer_result s r \<longleftrightarrow> snd r = (case fst r of Failed err \<Rightarrow> s | Done x \<Rightarrow> allocated s)"

lemma utf8_filename_to_wide_buffer: "buffer_result s (utf8_filename_to_wide L filename s)"
  by (simp add: buffer_result_def utf8_filename_to_wide_def Let_def split: prod.split)

text \<open>
  The capacities the loop tries are 512, 1024 and so on up to 32768; \<open>n\<close> counts the doublings left.
\<close>

lemma capacity_bound:
  fixes k :: nat
  assumes "k * 2 ^ Suc n = m"
  shows "k * 2 \<le> m"
  using assms [symmetric] by simp

lemma module_path_from_returns:
  "unat capacity * 2 ^ n = 65536 \<Longrightarrow>
   \<exists>r. module_path_from L module capacity s = Some r \<and> buffer_result s r"
proof (induction n arbitrary: capacity)
  case 0
  then have "\<not> capacity \<le> 32768" by (simp add: word_le_nat_alt)
  then show ?case by (subst module_path_from.simps) (simp add: buffer_result_def)
next
  case (Suc n)
  have "unat capacity * 2 < 2 ^ 32" using capacity_bound [OF Suc.prems] by simp
  then have double: "unat (capacity * 2) = unat capacity * 2"
    by (simp add: unat_word_ariths)
  obtain x where r: "module_path_from L module (capacity * 2) s =
      Some (x, case x of Failed err \<Rightarrow> s | Done y \<Rightarrow> allocated s)"
    using Suc.IH [of "capacity * 2"] Suc.prems double by (auto simp: buffer_result_def)
  show ?case
    using r by (subst module_path_from.simps) (auto simp: Let_def buffer_result_def)
qed

lemma loaded_module_path_buffer:
  obtains r where "loaded_module_path L module s = Some r" "buffer_result s r"
  using module_path_from_returns [of 512 7 L module s] by (auto simp: loaded_module_path_def)

text \<open>
  \<open>GetModuleFileNameW\<close> as documented for a module whose path is \<open>P\<close>: a buffer that is too small gets
  a cut path and its size is returned, otherwise the length without the NUL.
\<close>

definition module_file_name :: "windows_loader \<Rightarrow> nat \<Rightarrow> wchar list \<Rightarrow> bool" where
  "module_file_name L module P \<longleftrightarrow> P \<noteq> [] \<and> 0 \<notin> set P \<and>
     (\<forall>capacity. let (len, buffer) = GetModuleFileNameW L module capacity in
        if length P < unat capacity then len = of_nat (length P) \<and> wcs buffer = P
        else len = capacity)"

lemma module_path_from_path:
  assumes "module_file_name L module P" "\<And>c. path_calloc L c"
    "unat capacity * 2 ^ n = 65536" "n \<le> 8" "n = 0 \<longrightarrow> 32767 \<le> length P"
  shows "\<exists>r. module_path_from L module capacity s = Some r \<and>
    (if length P < 32767 then \<exists>buffer. r = (Done buffer, allocated s) \<and> wcs buffer = P
     else r = (Failed ''The JNI shim path exceeds the Windows path limit.'', s))"
  using assms(3-5)
proof (induction n arbitrary: capacity)
  case 0
  then have "\<not> capacity \<le> 32768" by (simp add: word_le_nat_alt)
  with 0 show ?case by (subst module_path_from.simps) simp
next
  case (Suc n)
  have bound: "unat capacity * 2 \<le> 65536" using capacity_bound [OF Suc.prems(1)] .
  then have double: "unat (capacity * 2) = unat capacity * 2" by (simp add: unat_word_ariths)
  have small: "capacity \<le> 32768" using bound by (simp add: word_le_nat_alt)
  have "(2::nat) ^ Suc n \<le> 2 ^ 8" using Suc.prems(2) by (intro power_increasing) auto
  then have "unat capacity * 2 ^ Suc n \<le> unat capacity * 2 ^ 8" by (rule mult_le_mono2)
  then have big: "256 \<le> unat capacity" unfolding Suc.prems(1) by simp
  then have pred: "unat (capacity - 1) = unat capacity - 1" by (simp add: unat_sub word_le_nat_alt)
  obtain len buffer where f: "GetModuleFileNameW L module capacity = (len, buffer)" by force
  have doc: "if length P < unat capacity then len = of_nat (length P) \<and> wcs buffer = P else len = capacity"
    and P: "P \<noteq> []"
    using assms(1) [unfolded module_file_name_def, THEN conjunct2, THEN conjunct2, rule_format, of capacity]
      assms(1) by (simp_all add: f module_file_name_def)
  have len: "unat len = min (length P) (unat capacity)"
    using doc bound by (cases "length P < unat capacity") (auto simp: unat_of_nat min_def)
  have "len \<noteq> 0" using len P big by (auto simp: min_def split: if_splits)
  show ?case
  proof (cases "length P < unat capacity - 1")
    case True
    then have "len < capacity - 1" using len pred by (simp add: word_less_nat_alt)
    then have "module_path_from L module capacity s = Some (Done buffer, allocated s)"
      using \<open>len \<noteq> 0\<close> small assms(2) f by (subst module_path_from.simps) (simp add: Let_def)
    with True doc bound show ?thesis by auto
  next
    case False
    then have again: "\<not> len < capacity - 1" using len pred by (simp add: word_less_nat_alt)
    have "n = 0 \<longrightarrow> 32767 \<le> length P" using False Suc.prems(1) by auto
    moreover have "module_path_from L module capacity s = module_path_from L module (capacity * 2) s"
      using \<open>len \<noteq> 0\<close> small assms(2) f again by (subst module_path_from.simps) (simp add: Let_def)
    ultimately show ?thesis using Suc.IH [of "capacity * 2"] Suc.prems(1,2) double by simp
  qed
qed

lemma loaded_module_path_path:
  assumes "module_file_name L module P" "loaded_module_path L module s = Some (Done path, s')"
  shows "wcs path = P"
proof -
  obtain x where "module_path_from L module 512 s = Some (Done path, s')"
    using assms(2) by (simp add: loaded_module_path_def)
  have *: "module_path_from L module capacity s = Some (Done path, s') \<Longrightarrow>
      unat capacity * 2 ^ n = 65536 \<Longrightarrow> wcs path = P" for capacity n
  proof (induction n arbitrary: capacity)
    case 0
    then have "\<not> capacity \<le> 32768" by (simp add: word_le_nat_alt)
    with 0 show ?case by (subst (asm) module_path_from.simps) simp
  next
    case (Suc n)
    have bound: "unat capacity * 2 \<le> 65536" using capacity_bound [OF Suc.prems(2)] .
    then have double: "unat (capacity * 2) = unat capacity * 2" by (simp add: unat_word_ariths)
    obtain len buffer where f: "GetModuleFileNameW L module capacity = (len, buffer)" by force
    have doc: "if length P < unat capacity then len = of_nat (length P) \<and> wcs buffer = P else len = capacity"
      using assms(1) [unfolded module_file_name_def, THEN conjunct2, THEN conjunct2, rule_format, of capacity]
      by (simp add: f)
    have "0 < unat capacity" using Suc.prems(2) by (cases "unat capacity") auto
    then have "\<not> capacity < capacity - 1"
      using unat_sub [of 1 capacity] by (simp add: word_less_nat_alt word_le_nat_alt)
    then have "len < capacity - 1 \<Longrightarrow> len \<noteq> 0 \<Longrightarrow> wcs buffer = P" using doc by (auto split: if_splits)
    with Suc.prems Suc.IH [of "capacity * 2"] f double show ?case
      by (subst (asm) module_path_from.simps) (auto simp: Let_def split: if_splits)
  qed
  show ?thesis
    using *[of 512 7] assms(2) by (simp add: loaded_module_path_def)
qed

section \<open>The path that is loaded\<close>

definition separators :: "wchar set" where
  "separators = {92, 47}"

lemma wcsrchr_spec:
  assumes "wcsrchr buffer c = Some k"
  obtains xs ys where "wcs buffer = xs @ c # ys" "c \<notin> set ys" "k = length xs"
  using strrchr_spec [OF assms [unfolded wcsrchr_def]] by blast

lemma wcsrchr_None: "wcsrchr buffer c = None \<Longrightarrow> c \<notin> set (wcs buffer)"
  unfolding wcsrchr_def by (rule strrchr_None)

lemma append_suffix_of:
  assumes "xs @ c # ys = us @ d # vs" "length us < length xs"
  shows "set ys \<subseteq> set vs"
proof -
  from assms obtain zs where zs: "xs = us @ zs" "zs @ c # ys = d # vs"
    by (auto simp: append_eq_append_conv2)
  with assms(2) show ?thesis by (cases zs) auto
qed

lemma path_separator_spec:
  assumes "path_separator buffer = Some k"
  obtains dir rest where "wcs buffer = dir @ rest" "k + 1 = length dir" "dir \<noteq> []"
    "last dir \<in> separators" "set rest \<inter> separators = {}"
proof -
  let ?bwd = "wcsrchr buffer 92" and ?fwd = "wcsrchr buffer 47"
  consider "?fwd = None" "?bwd = Some k" | "?bwd = None" "?fwd = Some k"
    | b f where "?bwd = Some b" "?fwd = Some f" "k = (if b < f then f else b)"
    using assms by (auto simp: path_separator_def Let_def split: option.splits if_splits)
  then have "\<exists>xs c ys. wcs buffer = xs @ c # ys \<and> k = length xs \<and> c \<in> separators \<and>
      set ys \<inter> separators = {}"
  proof cases
    case 1
    from wcsrchr_spec [OF 1(2)] obtain xs ys where
      "wcs buffer = xs @ 92 # ys" "92 \<notin> set ys" "k = length xs" .
    with wcsrchr_None [OF 1(1)] show ?thesis
      by (intro exI [of _ xs] exI [of _ 92] exI [of _ ys]) (auto simp: separators_def)
  next
    case 2
    from wcsrchr_spec [OF 2(2)] obtain xs ys where
      "wcs buffer = xs @ 47 # ys" "47 \<notin> set ys" "k = length xs" .
    with wcsrchr_None [OF 2(1)] show ?thesis
      by (intro exI [of _ xs] exI [of _ 47] exI [of _ ys]) (auto simp: separators_def)
  next
    case (3 b f)
    from wcsrchr_spec [OF 3(1)] obtain xs ys where
      x: "wcs buffer = xs @ 92 # ys" "92 \<notin> set ys" "b = length xs" .
    from wcsrchr_spec [OF 3(2)] obtain us vs where
      u: "wcs buffer = us @ 47 # vs" "47 \<notin> set vs" "f = length us" .
    have eq: "xs @ 92 # ys = us @ 47 # vs" using x(1) u(1) by simp
    show ?thesis
    proof (cases "b < f")
      case True
      then have "set vs \<subseteq> set ys" using append_suffix_of [OF eq [symmetric]] x(3) u(3) by simp
      with True 3 x u show ?thesis
        by (intro exI [of _ us] exI [of _ 47] exI [of _ vs]) (auto simp: separators_def)
    next
      case False
      have "b \<noteq> f" using eq x(3) u(3) by (auto simp: append_eq_append_conv)
      then have "set ys \<subseteq> set vs" using append_suffix_of [OF eq] False x(3) u(3) by simp
      with False 3 x u show ?thesis
        by (intro exI [of _ xs] exI [of _ 92] exI [of _ ys]) (auto simp: separators_def)
    qed
  qed
  then obtain xs c ys where "wcs buffer = (xs @ [c]) @ ys" "k = length xs" "c \<in> separators"
    "set ys \<inter> separators = {}" by auto
  then show thesis by (intro that [of "xs @ [c]" ys]) auto
qed

end
