(* ===== verification/Platform_Contract.thy ===== *)
theory Platform_Contract
  imports Platform_Windows
begin

text \<open>
  What the two platform layers promise the resolver. \<open>library_platform\<close> is the contract on opening and
  closing a library: a success adds one reference, which the module owns; a failure changes nothing;
  a close either drops the reference and empties the module or keeps both. Under it no sequence of
  opens and closes loses a reference. The contract is interpreted on the POSIX and on the Windows
  operations. Then the properties of the Windows layer of its own: its path loop ends, no buffer is
  left allocated, and the library it loads stands beside the shim.
\<close>

lemma takeWhile_take_idem:
  "takeWhile Q (take (Suc (length (takeWhile Q xs))) xs) = takeWhile Q xs"
  by (induction xs) simp_all

section \<open>The contract\<close>

text \<open>A request and what it leaves: the module, and a reading \<open>refs\<close> of the platform's state.\<close>

datatype module_request = OpenLibrary "string option" | CloseLibrary

definition request_step ::
  "(string option \<Rightarrow> jflac_module option \<Rightarrow> 's \<Rightarrow> jflac_module result \<times> 's) \<Rightarrow>
   (jflac_module option \<Rightarrow> 's \<Rightarrow> bool \<times> jflac_module option \<times> 's) \<Rightarrow>
   module_request \<Rightarrow> jflac_module \<times> 's \<Rightarrow> jflac_module \<times> 's" where
  "request_step open_lib close_lib req ms =
     (case req of
        OpenLibrary f \<Rightarrow>
          (case open_lib f (Some (fst ms)) (snd ms) of
             (Failed err, s) \<Rightarrow> (fst ms, s) | (Done m, s) \<Rightarrow> (m, s))
      | CloseLibrary \<Rightarrow>
          (case close_lib (Some (fst ms)) (snd ms) of (ok, m, s) \<Rightarrow> (the m, s)))"

definition owned_refs_of :: "jflac_module \<Rightarrow> nat" where
  "owned_refs_of m = (if owns_handle m then 1 else 0)"

definition module_inv :: "jflac_module \<Rightarrow> bool" where
  "module_inv m \<longleftrightarrow> (owns_handle m \<longleftrightarrow> module_handle m \<noteq> None)"

locale library_platform =
  fixes open_lib :: "string option \<Rightarrow> jflac_module option \<Rightarrow> 's \<Rightarrow> jflac_module result \<times> 's"
    and close_lib :: "jflac_module option \<Rightarrow> 's \<Rightarrow> bool \<times> jflac_module option \<times> 's"
    and refs :: "'s \<Rightarrow> nat"
  assumes open_full: "module_handle m \<noteq> None \<or> owns_handle m \<Longrightarrow>
      \<exists>err. open_lib f (Some m) s = (Failed err, s)"
    and open_failed: "open_lib f (Some m) s = (Failed err, s') \<Longrightarrow> refs s' = refs s"
    and open_done: "open_lib f (Some m) s = (Done m', s') \<Longrightarrow>
      refs s' = refs s + 1 \<and> owns_handle m' \<and> module_handle m' \<noteq> None"
    and close_owned: "owns_handle m \<Longrightarrow> module_handle m \<noteq> None \<Longrightarrow> close_lib (Some m) s = (ok, r, s') \<Longrightarrow>
      (if ok then r = Some empty_module \<and> refs s' = refs s - 1 else r = Some m \<and> refs s' = refs s)"
    and close_empty: "close_lib (Some empty_module) s = (True, Some empty_module, s)"
begin

lemma step_inv:
  assumes "module_inv m" "refs s = base + owned_refs_of m"
    "request_step open_lib close_lib req (m, s) = (m', s')"
  shows "module_inv m' \<and> refs s' = base + owned_refs_of m'"
proof (cases req)
  case (OpenLibrary f)
  obtain r s1 where o: "open_lib f (Some m) s = (r, s1)" by force
  show ?thesis
  proof (cases r)
    case (Failed err)
    with o assms open_failed [of f m s err s1] OpenLibrary show ?thesis by (simp add: request_step_def)
  next
    case (Done m1)
    then have "\<not> owns_handle m" using open_full [of m f s] o by auto
    with Done o assms open_done [of f m s m1 s1] OpenLibrary show ?thesis
      by (simp add: request_step_def owned_refs_of_def module_inv_def)
  qed
next
  case CloseLibrary
  obtain ok r s1 where c: "close_lib (Some m) s = (ok, r, s1)" by (metis prod_cases3)
  show ?thesis
  proof (cases "owns_handle m")
    case True
    with close_owned [OF True _ c] c assms CloseLibrary show ?thesis
      by (cases ok) (auto simp: request_step_def owned_refs_of_def module_inv_def empty_module_def)
  next
    case False
    then have "m = empty_module" using assms(1) by (cases m) (simp add: module_inv_def empty_module_def)
    with close_empty [of s] assms CloseLibrary show ?thesis by (simp add: request_step_def)
  qed
qed

lemma run_inv:
  assumes "module_inv m" "refs s = base + owned_refs_of m"
    "fold (request_step open_lib close_lib) reqs (m, s) = (m', s')"
  shows "module_inv m' \<and> refs s' = base + owned_refs_of m'"
  using assms
proof (induction reqs arbitrary: m s)
  case (Cons req reqs)
  obtain m1 s1 where "request_step open_lib close_lib req (m, s) = (m1, s1)" by force
  with step_inv [OF Cons.prems(1,2) this] Cons.IH [of m1 s1] Cons.prems(3) show ?case by simp
qed simp

end

section \<open>The two layers\<close>

interpretation posix_layer: library_platform
  "jflac_open_sibling_library L" "jflac_close_library L" "\<lambda>refs. refs"
  by unfold_locales
    (auto simp: jflac_open_sibling_library_def jflac_close_library_def empty_module_def Let_def
      split: option.splits if_splits)

text \<open>The Windows open, without the option its loop carries: \<open>loaded_module_path\<close> always returns.\<close>

definition open_windows ::
  "windows_loader \<Rightarrow> string option \<Rightarrow> jflac_module option \<Rightarrow> windows_state \<Rightarrow>
   jflac_module result \<times> windows_state" where
  "open_windows L f m s = the (jflac_open_sibling_library_windows L f m s)"

lemma load_sibling_outcome:
  assumes "load_sibling L path wide m s = (r, s')"
  shows "win_heap s' = win_heap s - 2 \<and>
    (case r of Failed err \<Rightarrow> win_refs s' = win_refs s
     | Done m' \<Rightarrow> win_refs s' = win_refs s + 1 \<and>
         (\<exists>k h. path_separator path = Some k \<and> m' = m\<lparr>module_handle := Some h, owns_handle := True\<rparr> \<and>
            LoadLibraryW L (wcs (take (k + 1) path @ take (wcslen wide + 1) wide)) = Some h))"
  using assms by (auto simp: load_sibling_def Let_def freed_def split: option.splits if_splits)

lemma open_windows_outcome:
  obtains r s' where "jflac_open_sibling_library_windows L f (Some m) s = Some (r, s')"
    "win_heap s' = win_heap s"
    "case r of Failed err \<Rightarrow> win_refs s' = win_refs s
     | Done m' \<Rightarrow> win_refs s' = win_refs s + 1 \<and> m = empty_module \<and>
         (\<exists>name shim path s1 wide s2 k h. f = Some name \<and> GetModuleHandleExW L = Some shim \<and>
            loaded_module_path L shim s = Some (Done path, s1) \<and>
            utf8_filename_to_wide L name s1 = (Done wide, s2) \<and>
            path_separator path = Some k \<and> m' = \<lparr>module_handle = Some h, owns_handle = True\<rparr> \<and>
            LoadLibraryW L (wcs (take (k + 1) path @ take (wcslen wide + 1) wide)) = Some h)"
proof -
  note result = that
  have early: thesis
    if "\<exists>err. jflac_open_sibling_library_windows L f (Some m) s = Some (Failed err, s)"
  proof -
    from that obtain err where "jflac_open_sibling_library_windows L f (Some m) s = Some (Failed err, s)"
      by blast
    then show thesis using result [of "Failed err" s] by simp
  qed
  have "m = empty_module \<or> module_handle m \<noteq> None \<or> owns_handle m"
    by (cases m) (auto simp: empty_module_def)
  then consider "module_handle m \<noteq> None \<or> owns_handle m" | "f = None" | "GetModuleHandleExW L = None"
    | name shim where "m = empty_module" "f = Some name" "GetModuleHandleExW L = Some shim"
    by (cases f; cases "GetModuleHandleExW L") auto
  then show thesis
  proof cases
    case (4 name shim)
    obtain path s1 where p: "loaded_module_path L shim s = Some (path, s1)"
      "s1 = (case path of Failed err \<Rightarrow> s | Done x \<Rightarrow> allocated s)"
      by (rule loaded_module_path_buffer [of L shim s])
        (force simp: buffer_result_def intro: prod_eqI)
    obtain wide s2 where w: "utf8_filename_to_wide L name s1 = (wide, s2)"
      "s2 = (case wide of Failed err \<Rightarrow> s1 | Done x \<Rightarrow> allocated s1)"
      using utf8_filename_to_wide_buffer [of s1 L name]
      by (cases "utf8_filename_to_wide L name s1") (auto simp: buffer_result_def)
    show thesis
    proof (cases "\<exists>x y. path = Done x \<and> wide = Done y")
      case True
      then obtain x y where xy: "path = Done x" "wide = Done y" by blast
      obtain r s' where l: "load_sibling L x y m s2 = (r, s')" by force
      show thesis
        using that [of r s'] load_sibling_outcome [OF l] l p w xy 4
        by (auto simp: jflac_open_sibling_library_windows_def empty_module_def split: result.splits)
    next
      case False
      then show thesis
        using that p w 4
        by (auto simp: jflac_open_sibling_library_windows_def empty_module_def free_result_def
            split: result.splits)
    qed
  qed (rule early, simp add: jflac_open_sibling_library_windows_def split: option.split)+
qed

text \<open>The path that is loaded, in terms of the two strings.\<close>

lemma wcs_sibling:
  assumes "wcs path = dir @ rest"
  shows "wcs (take (length dir) path @ take (wcslen wide + 1) wide) = dir @ wcs wide"
proof -
  have "path = wcs path @ dropWhile (\<lambda>c. c \<noteq> 0) path" by (simp add: wcs_def)
  then have dir: "take (length dir) path = dir" unfolding assms by (metis append_assoc append_eq_conv_conj)
  have "\<forall>c \<in> set (wcs path). c \<noteq> 0" by (auto simp: wcs_def dest: set_takeWhileD)
  then have "\<forall>c \<in> set dir. c \<noteq> 0" using assms by simp
  moreover have "wcs (take (wcslen wide + 1) wide) = wcs wide"
    by (simp add: wcslen_def wcs_def takeWhile_take_idem)
  ultimately show ?thesis unfolding dir by (simp add: wcs_def takeWhile_append2)
qed

lemma utf8_filename_to_wide_Done:
  "utf8_filename_to_wide L name s = (Done wide, s') \<Longrightarrow>
   wide = snd (MultiByteToWideChar L name (MultiByteToWideChar_length L name))"
  by (auto simp: utf8_filename_to_wide_def Let_def split: if_splits prod.splits)

lemma open_windows_eq:
  "open_windows L f (Some m) s = (r, s') \<longleftrightarrow>
   jflac_open_sibling_library_windows L f (Some m) s = Some (r, s')"
proof -
  obtain x where "jflac_open_sibling_library_windows L f (Some m) s = Some x"
    by (rule open_windows_outcome [of L f m s]) blast
  then show ?thesis by (auto simp: open_windows_def)
qed

lemma open_windows_refs:
  assumes "open_windows L f (Some m) s = (r, s')"
  shows "case r of Failed err \<Rightarrow> win_refs s' = win_refs s
     | Done m' \<Rightarrow> win_refs s' = win_refs s + 1 \<and> m = empty_module \<and> owns_handle m' \<and>
         module_handle m' \<noteq> None"
proof -
  from assms have o: "jflac_open_sibling_library_windows L f (Some m) s = Some (r, s')"
    by (simp add: open_windows_eq)
  show ?thesis by (rule open_windows_outcome [of L f m s]) (use o in \<open>auto split: result.splits\<close>)
qed

interpretation windows_layer: library_platform
  "open_windows L" "jflac_close_library_windows L" win_refs
proof unfold_locales
  fix m :: jflac_module and f s
  assume "module_handle m \<noteq> None \<or> owns_handle m"
  then show "\<exists>err. open_windows L f (Some m) s = (Failed err, s)"
    by (auto simp: open_windows_def jflac_open_sibling_library_windows_def)
next
  fix m :: jflac_module and f s err s'
  assume "open_windows L f (Some m) s = (Failed err, s')"
  from open_windows_refs [OF this] show "win_refs s' = win_refs s" by simp
next
  fix m :: jflac_module and f s m' s'
  assume "open_windows L f (Some m) s = (Done m', s')"
  from open_windows_refs [OF this]
  show "win_refs s' = win_refs s + 1 \<and> owns_handle m' \<and> module_handle m' \<noteq> None" by simp
qed (auto simp: jflac_close_library_windows_def empty_module_def split: option.splits if_splits)

section \<open>Properties\<close>

definition sample_shim_path :: "wchar list" where
  "sample_shim_path = [67, 58, 92, 97, 92, 115]"

definition sample_windows :: windows_loader where
  "sample_windows = \<lparr>GetModuleHandleExW = Some 3,
     GetModuleFileNameW = (\<lambda>_ capacity. if length sample_shim_path < unat capacity
       then (of_nat (length sample_shim_path), sample_shim_path @ [0])
       else (capacity, take (unat capacity - 1) sample_shim_path @ [0])),
     MultiByteToWideChar_length = (\<lambda>f. of_nat (length f) + 1),
     MultiByteToWideChar = (\<lambda>f n. (n, map (\<lambda>c. of_nat (of_char c)) f @ [0])),
     LoadLibraryW = (\<lambda>path. if path = [67, 58, 92, 97, 92, 102] then Some 9 else None),
     FreeLibrary = (\<lambda>h. True), GetProcAddress = (\<lambda>h s. None), GetLastError = (\<lambda>s. 126),
     path_calloc = (\<lambda>n. True), wide_calloc = (\<lambda>n. True), path_realloc = True\<rparr>"

text \<open>
  C21: on Windows, opening libFLAC returns (the loop over growing path buffers ends) and leaves no
  buffer allocated on any path. A failure leaves the references as they were; a success adds the one
  its module owns, and the library is the named file in the directory of the shim, never one found
  along a search path: the directory ends at the last slash or backslash of the shim's path.
\<close>

theorem open_sibling_library_windows_outcome:
  assumes "\<And>shim. GetModuleHandleExW L = Some shim \<Longrightarrow> module_file_name L shim P"
  shows "\<exists>r s'. jflac_open_sibling_library_windows L f (Some m) s = Some (r, s') \<and>
    win_heap s' = win_heap s \<and>
    (case r of Failed err \<Rightarrow> win_refs s' = win_refs s
     | Done m' \<Rightarrow> win_refs s' = win_refs s + 1 \<and>
         (\<exists>name wide dir rest h. f = Some name \<and>
            wide = snd (MultiByteToWideChar L name (MultiByteToWideChar_length L name)) \<and>
            P = dir @ rest \<and> dir \<noteq> [] \<and> last dir \<in> separators \<and> set rest \<inter> separators = {} \<and>
            LoadLibraryW L (dir @ wcs wide) = Some h \<and>
            m' = \<lparr>module_handle = Some h, owns_handle = True\<rparr>))"
proof (rule open_windows_outcome [of L f m s])
  fix r s'
  assume o: "jflac_open_sibling_library_windows L f (Some m) s = Some (r, s')"
    and heap: "win_heap s' = win_heap s"
    and out: "case r of Failed err \<Rightarrow> win_refs s' = win_refs s
     | Done m' \<Rightarrow> win_refs s' = win_refs s + 1 \<and> m = empty_module \<and>
         (\<exists>name shim path s1 wide s2 k h. f = Some name \<and> GetModuleHandleExW L = Some shim \<and>
            loaded_module_path L shim s = Some (Done path, s1) \<and>
            utf8_filename_to_wide L name s1 = (Done wide, s2) \<and>
            path_separator path = Some k \<and> m' = \<lparr>module_handle = Some h, owns_handle = True\<rparr> \<and>
            LoadLibraryW L (wcs (take (k + 1) path @ take (wcslen wide + 1) wide)) = Some h)"
  show ?thesis
  proof (cases r)
    case (Failed err)
    with o heap out show ?thesis by simp
  next
    case (Done m')
    with out obtain name shim path s1 wide s2 k h where
      x: "f = Some name" "GetModuleHandleExW L = Some shim" "win_refs s' = win_refs s + 1"
        "loaded_module_path L shim s = Some (Done path, s1)"
        "utf8_filename_to_wide L name s1 = (Done wide, s2)" "path_separator path = Some k"
        "m' = \<lparr>module_handle = Some h, owns_handle = True\<rparr>"
        "LoadLibraryW L (wcs (take (k + 1) path @ take (wcslen wide + 1) wide)) = Some h"
      by auto
    have P: "wcs path = P" by (rule loaded_module_path_path [OF assms [OF x(2)] x(4)])
    from path_separator_spec [OF x(6)] obtain dir rest where
      d: "wcs path = dir @ rest" "k + 1 = length dir" "dir \<noteq> []" "last dir \<in> separators"
        "set rest \<inter> separators = {}" .
    have "wcs (take (k + 1) path @ take (wcslen wide + 1) wide) = dir @ wcs wide"
      unfolding d(2) by (rule wcs_sibling [OF d(1)])
    with o heap x P d show ?thesis
      by (intro exI [of _ r] exI [of _ s']) (force simp: Done dest: utf8_filename_to_wide_Done)
  qed
qed

lemma sample_module_file_name: "module_file_name sample_windows 3 sample_shim_path"
  by (auto simp: module_file_name_def sample_windows_def wcs_def sample_shim_path_def)

lemma fst_eq_ex: "(\<exists>y. p = (x, y)) \<longleftrightarrow> fst p = x"
  by (cases p) auto

lemma sample_shim: "GetModuleHandleExW sample_windows = Some 3"
  by (simp add: sample_windows_def)

lemma sample_loaded_path:
  "loaded_module_path sample_windows 3 s = Some (Done (sample_shim_path @ [0]), allocated s)"
  unfolding loaded_module_path_def
  by (subst module_path_from.simps) (simp add: sample_windows_def sample_shim_path_def Let_def)

lemma open_sibling_library_windows_outcome_witness:
  "\<exists>s'. jflac_open_sibling_library_windows sample_windows (Some ''f'') (Some empty_module)
      \<lparr>win_refs = 0, win_heap = 0\<rparr> = Some (Done \<lparr>module_handle = Some 9, owns_handle = True\<rparr>, s') \<and>
    win_refs s' = 1 \<and> win_heap s' = 0"
proof -
  have shim: "\<And>shim. GetModuleHandleExW sample_windows = Some shim \<Longrightarrow>
      module_file_name sample_windows shim sample_shim_path"
    using sample_module_file_name by (simp add: sample_windows_def)
  let ?r = "jflac_open_sibling_library_windows sample_windows (Some ''f'') (Some empty_module)
      \<lparr>win_refs = 0, win_heap = 0\<rparr>"
  have "fst (case utf8_filename_to_wide sample_windows ''f'' (allocated \<lparr>win_refs = 0, win_heap = 0\<rparr>) of
        (wide, s2) \<Rightarrow> (case wide of Failed err \<Rightarrow> (Failed err, s2)
          | Done w \<Rightarrow> load_sibling sample_windows (sample_shim_path @ [0]) w empty_module s2)) =
      Done \<lparr>module_handle = Some 9, owns_handle = True\<rparr>" by code_simp
  then have "map_option fst ?r = Some (Done \<lparr>module_handle = Some 9, owns_handle = True\<rparr>)"
    using sample_loaded_path [of "\<lparr>win_refs = 0, win_heap = 0\<rparr>"] sample_shim
    by (cases "utf8_filename_to_wide sample_windows ''f'' (allocated \<lparr>win_refs = 0, win_heap = 0\<rparr>)")
      (auto simp: jflac_open_sibling_library_windows_def empty_module_def fst_eq_ex
        split: result.splits)
  then obtain s' where r: "?r = Some (Done \<lparr>module_handle = Some 9, owns_handle = True\<rparr>, s')"
    by (cases ?r) auto
  with open_sibling_library_windows_outcome [OF shim, where f = "Some ''f''" and m = empty_module
      and s = "\<lparr>win_refs = 0, win_heap = 0\<rparr>"]
  show ?thesis by auto
qed

text \<open>
  C22: no reference to a library is lost on either platform. Whatever the resolver opens and closes,
  in whatever order and however the loader answers, the references the process holds are those it
  held plus the one its module owns, and the module never holds a handle it does not own.
\<close>

theorem platform_requests_balanced:
  "(case fold (request_step (jflac_open_sibling_library P) (jflac_close_library P)) reqs (empty_module, n) of
      (m, n') \<Rightarrow> n' = n + owned_refs_of m \<and> module_inv m) \<and>
   (case fold (request_step (open_windows W) (jflac_close_library_windows W)) reqs (empty_module, s) of
      (m, s') \<Rightarrow> win_refs s' = win_refs s + owned_refs_of m \<and> module_inv m)"
proof -
  have start: "module_inv empty_module" "n = n + owned_refs_of empty_module"
    "win_refs s = win_refs s + owned_refs_of empty_module"
    by (simp_all add: module_inv_def owned_refs_of_def empty_module_def)
  show ?thesis
    using posix_layer.run_inv [OF start(1,2)] windows_layer.run_inv [OF start(1,3)]
    by (auto split: prod.split)
qed

end
