(* ===== verification/Platform_Once.thy ===== *)
theory Platform_Once
  imports Platform_Posix
begin

text \<open>
  The mutex and the once guard of the platform layer under any interleaving of threads. Elsewhere the
  guard is one atomic step (\<open>jflac_call_once\<close> of Platform_Posix) and the sections under a registry's
  lock are too; here its statements are separate steps of a transition system, and the atomic model is
  shown to be what the callers see. A mutex that another thread holds blocks the caller.
\<close>

section \<open>The mutex\<close>

datatype jflac_mutex = Unlocked | LockedBy nat | Destroyed

text \<open>None: the caller waits. Locking a destroyed mutex is undefined and not a step either.\<close>

definition jflac_mutex_lock :: "nat \<Rightarrow> jflac_mutex \<Rightarrow> jflac_mutex option" where
  "jflac_mutex_lock t m = (if m = Unlocked then Some (LockedBy t) else None)"

definition jflac_mutex_unlock :: "nat \<Rightarrow> jflac_mutex \<Rightarrow> jflac_mutex option" where
  "jflac_mutex_unlock t m = (if m = LockedBy t then Some Unlocked else None)"

definition jflac_mutex_destroy :: "jflac_mutex \<Rightarrow> jflac_mutex" where
  "jflac_mutex_destroy m = Destroyed"

section \<open>The guard, statement by statement\<close>

text \<open>Where a thread stands in \<open>jflac_call_once\<close>.\<close>

datatype once_pc = AtLock | AtTest | AtComplete | AtUnlock | Returned

record 's once_state =
  once_mutex :: jflac_mutex
  once_complete :: bool
  once_data :: 's
  once_pc :: "nat \<Rightarrow> once_pc"

definition goto :: "nat \<Rightarrow> once_pc \<Rightarrow> 's once_state \<Rightarrow> 's once_state" where
  "goto t p s = s\<lparr>once_pc := (once_pc s)(t := p)\<rparr>"

inductive once_step :: "('s \<Rightarrow> 's) \<Rightarrow> 's once_state \<Rightarrow> 's once_state \<Rightarrow> bool" for initialiser where
  lock: "once_pc s t = AtLock \<Longrightarrow> jflac_mutex_lock t (once_mutex s) = Some m \<Longrightarrow>
    once_step initialiser s (goto t AtTest (s\<lparr>once_mutex := m\<rparr>))"
| skip: "once_pc s t = AtTest \<Longrightarrow> once_complete s \<Longrightarrow>
    once_step initialiser s (goto t AtUnlock s)"
| initialise: "once_pc s t = AtTest \<Longrightarrow> \<not> once_complete s \<Longrightarrow>
    once_step initialiser s (goto t AtComplete (s\<lparr>once_data := initialiser (once_data s)\<rparr>))"
| complete: "once_pc s t = AtComplete \<Longrightarrow>
    once_step initialiser s (goto t AtUnlock (s\<lparr>once_complete := True\<rparr>))"
| unlock: "once_pc s t = AtUnlock \<Longrightarrow> jflac_mutex_unlock t (once_mutex s) = Some m \<Longrightarrow>
    once_step initialiser s (goto t Returned (s\<lparr>once_mutex := m\<rparr>))"

text \<open>The threads of \<open>T\<close> are about to call; the others never do.\<close>

definition once_start :: "nat set \<Rightarrow> 's \<Rightarrow> 's once_state" where
  "once_start T d = \<lparr>once_mutex = Unlocked, once_complete = False, once_data = d,
     once_pc = (\<lambda>t. if t \<in> T then AtLock else Returned)\<rparr>"

section \<open>Facts\<close>

lemma goto_fields [simp]:
  "once_mutex (goto t p s) = once_mutex s" "once_complete (goto t p s) = once_complete s"
  "once_data (goto t p s) = once_data s"
  "once_pc (goto t p s) u = (if u = t then p else once_pc s u)"
  by (simp_all add: goto_def)

definition inside :: "once_pc \<Rightarrow> bool" where
  "inside p \<longleftrightarrow> p \<in> {AtTest, AtComplete, AtUnlock}"

lemma inside_simps [simp]:
  "\<not> inside AtLock" "inside AtTest" "inside AtComplete" "inside AtUnlock" "\<not> inside Returned"
  by (simp_all add: inside_def)

definition once_inv :: "nat set \<Rightarrow> 's \<Rightarrow> ('s \<Rightarrow> 's) \<Rightarrow> 's once_state \<Rightarrow> bool" where
  "once_inv T d initialiser s \<longleftrightarrow>
     (\<forall>t. inside (once_pc s t) \<longleftrightarrow> once_mutex s = LockedBy t) \<and> once_mutex s \<noteq> Destroyed \<and>
     (\<forall>t. t \<notin> T \<longrightarrow> once_pc s t = Returned) \<and>
     once_data s = (if once_complete s \<or> (\<exists>t. once_pc s t = AtComplete) then initialiser d else d) \<and>
     ((\<exists>t \<in> T. once_pc s t \<in> {AtUnlock, Returned}) \<longrightarrow> once_complete s) \<and>
     ((\<exists>t. once_pc s t = AtComplete) \<longrightarrow> \<not> once_complete s)"

lemma once_start_inv: "once_inv T d initialiser (once_start T d)"
  by (auto simp: once_inv_def once_start_def inside_def)

lemma inside_unique:
  assumes "once_inv T d initialiser s" "inside (once_pc s t)" "inside (once_pc s u)"
  shows "t = u"
proof -
  have "once_mutex s = LockedBy t" "once_mutex s = LockedBy u"
    using assms unfolding once_inv_def by blast+
  then show ?thesis by simp
qed

lemma mutex_free:
  assumes "once_inv T d initialiser s" "once_mutex s = Unlocked"
  shows "once_pc s u = AtLock \<or> once_pc s u = Returned"
proof -
  have "\<not> inside (once_pc s u)" using assms by (simp add: once_inv_def)
  then show ?thesis by (cases "once_pc s u") simp_all
qed

lemma once_step_inv:
  assumes "once_step initialiser s s'" "once_inv T d initialiser s"
  shows "once_inv T d initialiser s'"
  using assms
proof (cases rule: once_step.cases)
  case (lock t m)
  then have "once_mutex s = Unlocked" "m = LockedBy t"
    by (auto simp: jflac_mutex_lock_def split: if_splits)
  moreover from this have "once_pc s u \<noteq> AtComplete" for u
    using mutex_free [OF assms(2), of u] by auto
  ultimately show ?thesis using lock assms(2) by (auto simp: once_inv_def)
next
  case (skip t)
  with assms(2) show ?thesis by (auto simp: once_inv_def)
next
  case (initialise t)
  have "u = t" if "once_pc s u = AtComplete" for u
    using that initialise inside_unique [OF assms(2), of u t] by simp
  with initialise(2) have "\<nexists>u. once_pc s u = AtComplete" by auto
  with initialise assms(2) show ?thesis by (auto simp: once_inv_def)
next
  case (complete t)
  have only: "once_pc s u = AtComplete \<longleftrightarrow> u = t" for u
    using complete(2) inside_unique [OF assms(2), of u t] by auto
  have inv: "once_mutex s \<noteq> Destroyed" "once_data s = initialiser d"
    "\<And>u. inside (once_pc s u) \<longleftrightarrow> once_mutex s = LockedBy u" "\<And>u. u \<notin> T \<Longrightarrow> once_pc s u = Returned"
    using assms(2) unfolding once_inv_def only by simp_all
  have t: "once_mutex s = LockedBy t" "t \<in> T" using inv(3,4) [of t] complete(2) by auto
  show ?thesis unfolding once_inv_def complete(1)
    using inv t only by (auto simp: complete(2) split: if_splits)
next
  case (unlock t m)
  then have "once_mutex s = LockedBy t" "m = Unlocked"
    by (auto simp: jflac_mutex_unlock_def split: if_splits)
  with unlock assms(2) show ?thesis by (auto simp: once_inv_def)
qed

lemma once_reachable_inv:
  "(once_step initialiser)\<^sup>*\<^sup>* (once_start T d) s \<Longrightarrow> once_inv T d initialiser s"
  by (induction rule: rtranclp_induct) (auto intro: once_start_inv once_step_inv)

text \<open>The statements a thread still has before it.\<close>

definition steps_left :: "once_pc \<Rightarrow> nat" where
  "steps_left p = (case p of AtLock \<Rightarrow> 4 | AtTest \<Rightarrow> 3 | AtComplete \<Rightarrow> 2 | AtUnlock \<Rightarrow> 1 | Returned \<Rightarrow> 0)"

lemma once_step_moves:
  assumes "once_step initialiser s s'"
  obtains t p where "once_pc s' = (once_pc s)(t := p)" "steps_left p < steps_left (once_pc s t)"
  using assms by (cases rule: once_step.cases) (auto simp: goto_def steps_left_def)

lemma once_step_progress:
  assumes "once_step initialiser s s'" "once_inv T d initialiser s" "finite T"
  shows "(\<Sum>t\<in>T. steps_left (once_pc s' t)) < (\<Sum>t\<in>T. steps_left (once_pc s t))"
proof -
  from once_step_moves [OF assms(1)] obtain t p where
    m: "once_pc s' = (once_pc s)(t := p)" "steps_left p < steps_left (once_pc s t)" .
  have "t \<in> T" using assms(2) m(2) by (fastforce simp: once_inv_def steps_left_def)
  then show ?thesis unfolding m(1) using m(2) assms(3)
    by (intro sum_strict_mono_ex1) auto
qed

lemma once_no_deadlock:
  assumes "once_inv T d initialiser s" "t \<in> T" "once_pc s t \<noteq> Returned"
  shows "\<exists>s'. once_step initialiser s s'"
proof (cases "once_mutex s")
  case Unlocked
  then have "once_pc s t = AtLock" using mutex_free [OF assms(1)] assms(3) by blast
  with Unlocked show ?thesis
    using once_step.lock [of s t "LockedBy t" initialiser] by (auto simp: jflac_mutex_lock_def)
next
  case (LockedBy u)
  then have "inside (once_pc s u)" using assms(1) by (simp add: once_inv_def)
  then consider "once_pc s u = AtTest" "once_complete s" | "once_pc s u = AtTest" "\<not> once_complete s"
    | "once_pc s u = AtComplete" | "once_pc s u = AtUnlock" "jflac_mutex_unlock u (once_mutex s) = Some Unlocked"
    using LockedBy by (cases "once_pc s u") (auto simp: jflac_mutex_unlock_def)
  then show ?thesis by cases (blast intro: once_step.intros)+
next
  case Destroyed
  then show ?thesis using assms(1) by (simp add: once_inv_def)
qed

section \<open>Properties\<close>

text \<open>
  C19: \<open>jflac_call_once\<close> always lets its callers go. However the threads that call it are scheduled, no
  schedule is longer than four statements per caller, and as long as some caller has not returned
  some thread can move; so every caller returns.
\<close>

theorem jflac_call_once_returns:
  assumes "finite T" "(once_step initialiser ^^ n) (once_start T d) s"
  shows "n \<le> 4 * card T \<and>
    ((\<forall>t \<in> T. once_pc s t = Returned) \<or> (\<exists>s'. once_step initialiser s s'))"
proof -
  have inv: "(once_step initialiser ^^ n) (once_start T d) s \<Longrightarrow>
      once_inv T d initialiser s \<and> n + (\<Sum>t\<in>T. steps_left (once_pc s t)) \<le> 4 * card T" for n s
  proof (induction n arbitrary: s)
    case 0
    then have s: "s = once_start T d" by simp
    show ?case unfolding s using once_start_inv [of T d initialiser]
      by (simp add: once_start_def steps_left_def)
  next
    case (Suc n)
    then obtain s1 where "(once_step initialiser ^^ n) (once_start T d) s1" "once_step initialiser s1 s"
      by auto
    with Suc.IH once_step_inv once_step_progress [OF _ _ assms(1)] show ?case by fastforce
  qed
  from inv [OF assms(2)] once_no_deadlock show ?thesis by fastforce
qed

lemma jflac_call_once_returns_witness:
  "\<exists>s. (once_step Suc ^^ 2) (once_start {1, 2} 0) s \<and> once_pc s 1 = AtComplete \<and>
     (\<exists>s'. once_step Suc s s')"
proof -
  let ?s1 = "goto 1 AtTest ((once_start {1, 2} 0)\<lparr>once_mutex := LockedBy 1\<rparr>)"
  let ?s2 = "goto 1 AtComplete (?s1\<lparr>once_data := Suc 0\<rparr>)"
  have "once_step Suc (once_start {1, 2} 0) ?s1"
    by (rule once_step.lock) (simp_all add: once_start_def jflac_mutex_lock_def)
  moreover have "once_step Suc ?s1 ?s2"
    using once_step.initialise [of ?s1 1 Suc] by (simp add: once_start_def)
  ultimately have run: "(once_step Suc ^^ 2) (once_start {1, 2} 0) ?s2"
    by (auto simp: numeral_2_eq_2)
  from jflac_call_once_returns [OF _ run] have "\<exists>s'. once_step Suc ?s2 s'" by fastforce
  with run show ?thesis by (intro exI [of _ ?s2]) simp
qed

text \<open>
  C20: what the callers see is the atomic guard. At any point of any schedule, a caller that has
  returned finds the state its initialiser makes of the first one, run once, with the guard complete,
  exactly as the one-step model has it; and at most one thread is between lock and unlock.
\<close>

theorem jflac_call_once_atomic:
  assumes "(once_step initialiser)\<^sup>*\<^sup>* (once_start T d) s" "t \<in> T" "once_pc s t = Returned"
  shows "(once_complete s, once_data s) = jflac_call_once False initialiser d \<and>
    (inside (once_pc s u) \<longrightarrow> inside (once_pc s v) \<longrightarrow> u = v)"
proof -
  have inv: "once_inv T d initialiser s" by (rule once_reachable_inv [OF assms(1)])
  then have c: "once_complete s" using assms(2,3) by (auto simp: once_inv_def)
  moreover have "once_data s = initialiser d" using inv c by (simp add: once_inv_def)
  moreover have "inside (once_pc s u) \<longrightarrow> inside (once_pc s v) \<longrightarrow> u = v"
    using inside_unique [OF inv] by blast
  ultimately show ?thesis by (simp add: jflac_call_once_def)
qed

lemma jflac_call_once_atomic_witness:
  "\<exists>s. (once_step Suc)\<^sup>*\<^sup>* (once_start {1, 2} 0) s \<and> once_pc s 1 = Returned \<and> once_pc s 2 = AtLock \<and>
     (once_complete s, once_data s) = jflac_call_once False Suc 0"
proof -
  let ?s1 = "goto 1 AtTest ((once_start {1, 2} 0)\<lparr>once_mutex := LockedBy 1\<rparr>)"
  let ?s2 = "goto 1 AtComplete (?s1\<lparr>once_data := Suc 0\<rparr>)"
  let ?s3 = "goto 1 AtUnlock (?s2\<lparr>once_complete := True\<rparr>)"
  let ?s4 = "goto 1 Returned (?s3\<lparr>once_mutex := Unlocked\<rparr>)"
  have "once_step Suc (once_start {1, 2} 0) ?s1"
    by (rule once_step.lock) (simp_all add: once_start_def jflac_mutex_lock_def)
  moreover have "once_step Suc ?s1 ?s2"
    using once_step.initialise [of ?s1 1 Suc] by (simp add: once_start_def)
  moreover have "once_step Suc ?s2 ?s3" by (rule once_step.complete) simp
  moreover have "once_step Suc ?s3 ?s4"
    by (rule once_step.unlock) (simp_all add: jflac_mutex_unlock_def)
  ultimately have run: "(once_step Suc)\<^sup>*\<^sup>* (once_start {1, 2} 0) ?s4"
    by (meson converse_rtranclp_into_rtranclp rtranclp.rtrancl_refl)
  from jflac_call_once_atomic [OF run, of 1] have
    "(once_complete ?s4, once_data ?s4) = jflac_call_once False Suc 0" by simp
  with run show ?thesis by (intro exI [of _ ?s4]) (simp add: once_start_def)
qed

end
