(* ===== verification/Unload.thy ===== *)
theory Unload
  imports Decode_Registry Encode_Registry Flac_Api Platform_Once
begin

text \<open>
  \<open>JNI_OnUnload\<close>: abandoned sessions and encoders are destroyed, then the registry locks, then the
  symbol table is cleared and the library closed. The unloading thread may not be attached to the JVM:
  it is attached for the duration if the JVM lets it; otherwise \<open>env\<close> is NULL and the destructors
  skip every DeleteGlobalRef, the only JNI call they make.
\<close>

section \<open>The operation\<close>

definition JNI_OK :: jint where "JNI_OK = 0"
definition JNI_EDETACHED :: jint where "JNI_EDETACHED = -2"

text \<open>\<open>GetEnv\<close>, from whether the thread is attached, and \<open>AttachCurrentThread\<close>.\<close>

record java_vm =
  GetEnv :: "bool \<Rightarrow> jint"
  AttachCurrentThread :: jint

record ('d, 'e) library_state =
  lib_decoders :: "'d decode_registry"
  lib_encoders :: "'e encode_registry"
  decode_session_registry_lock :: jflac_mutex
  encode_context_registry_lock :: jflac_mutex
  flac_init_once_mutex :: jflac_mutex
  thread_attached :: bool

definition destroy_registry_locks :: "('d, 'e) library_state \<Rightarrow> ('d, 'e) library_state" where
  "destroy_registry_locks lib =
     lib\<lparr>decode_session_registry_lock := jflac_mutex_destroy (decode_session_registry_lock lib),
         encode_context_registry_lock := jflac_mutex_destroy (encode_context_registry_lock lib),
         flac_init_once_mutex := jflac_mutex_destroy (flac_init_once_mutex lib)\<rparr>"

text \<open>A destructor given \<open>env\<close>, or NULL: then the references it would delete stay.\<close>

definition with_env :: "bool \<Rightarrow> (jenv \<Rightarrow> 'r \<times> jenv) \<Rightarrow> jenv \<Rightarrow> 'r \<times> jenv" where
  "with_env has_env destroy e =
     (let (r, e1) = destroy e in (r, if has_env then e1 else e1\<lparr>global_refs := global_refs e\<rparr>))"

text \<open>The environment the thread gets: whether there is one, and whether it was attached here.\<close>

definition unload_env :: "java_vm \<Rightarrow> bool \<Rightarrow> bool \<times> bool" where
  "unload_env vm attached =
     (let env_status = GetEnv vm attached in
      if env_status = JNI_EDETACHED
      then (AttachCurrentThread vm = JNI_OK, AttachCurrentThread vm = JNI_OK)
      else (env_status = JNI_OK, False))"

definition JNI_OnUnload ::
  "'d decoder_api \<Rightarrow> jvm \<Rightarrow> java_vm \<Rightarrow> ('d, 'e) library_state \<Rightarrow> jenv \<Rightarrow> ('d, 'e) library_state \<times> jenv" where
  "JNI_OnUnload A J vm lib e =
     (let (has_env, attached_here) = unload_env vm (thread_attached lib);
          lib1 = lib\<lparr>thread_attached := thread_attached lib \<or> attached_here\<rparr>;
          (decoders, e1) = with_env has_env (destroy_all_decode_sessions A (lib_decoders lib1)) e;
          (encoders, e2) = with_env has_env (destroy_all_encode_contexts (lib_encoders lib1)) e1;
          lib2 = destroy_registry_locks (lib1\<lparr>lib_decoders := decoders, lib_encoders := encoders\<rparr>);
          lib3 = (if attached_here then lib2\<lparr>thread_attached := False\<rparr> else lib2);
          n1 = (native e2)\<lparr>api_initialized := False, api_table := []\<rparr>;
          (closed, module, refs) =
            jflac_close_library (jv_loader J) (Some (api_module n1)) (loader_refs n1)
      in (lib3, e2\<lparr>native := n1\<lparr>api_module := the module, loader_refs := refs\<rparr>\<rparr>))"

section \<open>What destruction gives back\<close>

definition drops ::
  "int \<Rightarrow> int \<Rightarrow> nat multiset \<Rightarrow> jobject multiset \<Rightarrow> jenv \<Rightarrow> jenv \<Rightarrow> bool" where
  "drops d n B R e e' \<longleftrightarrow> live_decoders e' = live_decoders e - d \<and>
     live_encoders e' = live_encoders e - n \<and> mset (live_blocks e') = mset (live_blocks e) - B \<and>
     mset (global_refs e') = mset (global_refs e) - R \<and> native e' = native e \<and> pending e' = pending e"

lemma drops_refl: "drops 0 0 {#} {#} e e"
  by (simp add: drops_def)

lemma drops_trans:
  "drops d n B R e e1 \<Longrightarrow> drops d' n' B' R' e1 e2 \<Longrightarrow> drops (d + d') (n + n') (B + B') (R + R') e e2"
  by (simp add: drops_def diff_diff_eq)

lemma drops_fold:
  assumes "\<And>x e. x \<in> set xs \<Longrightarrow> drops (d x) (n x) (B x) (R x) e (f x e)"
  shows "drops (\<Sum>x\<leftarrow>xs. d x) (\<Sum>x\<leftarrow>xs. n x) (\<Sum>x\<leftarrow>xs. B x) (\<Sum>x\<leftarrow>xs. R x) e (fold f xs e)"
  using assms
proof (induction xs arbitrary: e)
  case (Cons x xs)
  have "drops (d x) (n x) (B x) (R x) e (f x e)" using Cons.prems by simp
  from drops_trans [OF this Cons.IH] Cons.prems show ?case by simp
qed (simp add: drops_refl)

definition session_refs :: "'d decode_session \<Rightarrow> jobject list" where
  "session_refs s =
     (case seekable_channel (ds_context s) of None \<Rightarrow> [] | Some c \<Rightarrow> [c]) @
     (case input_stream (ds_context s) of None \<Rightarrow> []
      | Some i \<Rightarrow> if input_stream_is_global (ds_context s) then [i] else [])"

lemma destroy_decode_session_parts_drops:
  "drops (if ds_decoder s = None then 0 else 1) 0 {#} (mset (session_refs s)) e
     (destroy_decode_session_parts A s e)"
  by (auto simp: drops_def session_refs_def destroy_decode_session_parts_def
      clear_decode_seekable_channel_def clear_decode_input_stream_def delete_global_ref_def
      delete_decoder_def Let_def add_mset_commute split: option.splits prod.splits)

definition wf_table :: "'e encode_context \<Rightarrow> bool" where
  "wf_table x \<longleftrightarrow> (\<forall>blocks. ec_metadata_blocks x = Some blocks \<longrightarrow>
     unat (ec_metadata_count x) \<le> length blocks)"

lemma delete_metadata_slots_drops:
  assumes "i + n \<le> length blocks"
  shows "drops 0 0 (mset (map the (filter (\<lambda>b. b \<noteq> None) (take n (drop i blocks))))) {#} e
    (delete_metadata_slots blocks i n e)"
  using assms
proof (induction n arbitrary: i e)
  case (Suc n)
  then have "drop i blocks = blocks ! i # drop (Suc i) blocks" by (simp add: Cons_nth_drop_Suc)
  with Suc.IH [of "Suc i"] Suc.prems show ?case
    by (cases "blocks ! i") (simp_all add: metadata_object_delete_def drops_def)
qed (simp add: drops_refl)

lemma destroy_encode_context_parts_drops:
  assumes "wf_table x"
  shows "drops 0 (if ec_encoder x = None then 0 else 1) (mset (owned_blocks x)) (mset (owned_refs x)) e
    (destroy_encode_context_parts x e)"
proof -
  let ?e1 = "if ec_encoder x \<noteq> None then delete_encoder e else e"
  obtain x1 e2 where md: "destroy_metadata_blocks x ?e1 = (x1, e2)"
    by (cases "destroy_metadata_blocks x ?e1")
  have d1: "drops 0 (if ec_encoder x = None then 0 else 1) {#} {#} e ?e1"
    by (simp add: drops_def delete_encoder_def)
  have x1: "ec_output_stream x1 = ec_output_stream x" "ec_output_channel x1 = ec_output_channel x"
    using md by (auto simp: destroy_metadata_blocks_def split: option.splits)
  have d2: "drops 0 0 (mset (owned_blocks x)) {#} ?e1 e2"
    using md assms delete_metadata_slots_drops [of 0 "unat (ec_metadata_count x)"
        "the (ec_metadata_blocks x)" ?e1]
    by (auto simp: destroy_metadata_blocks_def owned_blocks_def wf_table_def drops_refl
        split: option.splits)
  have d3: "drops 0 0 {#} (mset (owned_refs x)) e2 (destroy_encode_context_parts x e)"
    unfolding destroy_encode_context_parts_def Let_def md prod.case x1
    by (auto simp: owned_refs_def drops_def delete_global_ref_def add_mset_commute split: option.splits)
  from drops_trans [OF drops_trans [OF d1 d2] d3] show ?thesis by simp
qed

text \<open>The destructors, as folds over what the table leads to.\<close>

definition registered_sessions :: "'d decode_registry \<Rightarrow> 'd decode_session list" where
  "registered_sessions r = map (\<lambda>en. the (dr_sessions r (entry_object en))) (dr_entries r)"

definition registered_encoders :: "'e encode_registry \<Rightarrow> 'e encode_context list" where
  "registered_encoders r = map (\<lambda>en. the (er_contexts r (entry_object en))) (er_entries r)"

lemma destroy_decode_entries_fold:
  assumes "distinct (map snd es)" "\<forall>a \<in> snd ` set es. dr_sessions r a \<noteq> None"
  shows "snd (destroy_decode_entries A es r e) = fold (destroy_decode_session_parts A)
    (map (\<lambda>en. the (dr_sessions r (entry_object en))) es) e"
  using assms
proof (induction es arbitrary: r e)
  case (Cons en es)
  obtain h a where en: "en = (h, a)" by (cases en)
  from Cons.prems(2) obtain s where s: "dr_sessions r a = Some s" by (auto simp: en)
  let ?r1 = "r\<lparr>dr_sessions := (dr_sessions r)(a := None)\<rparr>"
  have step: "destroy_decode_session A (Some a) r e = (?r1, destroy_decode_session_parts A s e)"
    by (simp add: destroy_decode_session_def free_decode_session_def s)
  have other: "dr_sessions ?r1 (snd x) = dr_sessions r (snd x)" if "x \<in> set es" for x
    using Cons.prems(1) that by (force simp: en)
  have "\<forall>b \<in> snd ` set es. dr_sessions ?r1 b \<noteq> None" using Cons.prems(2) other by force
  with Cons.IH [of ?r1] Cons.prems(1) other show ?case by (simp add: en step s cong: map_cong)
qed simp

lemma destroy_encode_entries_fold:
  assumes "distinct (map snd es)" "\<forall>a \<in> snd ` set es. er_contexts r a \<noteq> None"
    "destroy_encode_entries es r e = (r', e')"
  shows "e' = fold destroy_encode_context_parts (map (\<lambda>en. the (er_contexts r (entry_object en))) es) e \<and>
    er_contexts r' = er_contexts r |` (- snd ` set es) \<and> er_fault r' = er_fault r \<and>
    er_entries r' = er_entries r"
  using assms
proof (induction es arbitrary: r e)
  case (Cons en es)
  obtain h a where en: "en = (h, a)" by (cases en)
  from Cons.prems(2) obtain x where x: "er_contexts r a = Some x" by (auto simp: en)
  let ?r1 = "r\<lparr>er_contexts := (er_contexts r)(a := None)\<rparr>"
  have step: "destroy_encode_context (Some a) r e = (?r1, destroy_encode_context_parts x e)"
    by (simp add: destroy_encode_context_def free_encode_context_def x)
  have other: "er_contexts ?r1 (snd y) = er_contexts r (snd y)" if "y \<in> set es" for y
    using Cons.prems(1) that by (force simp: en)
  have live: "\<forall>b \<in> snd ` set es. er_contexts ?r1 b \<noteq> None" using Cons.prems(2) other by force
  have "er_contexts ?r1 |` (- snd ` set es) = er_contexts r |` (- snd ` set (en # es))"
    by (auto simp: en restrict_map_def fun_eq_iff)
  moreover have "map (\<lambda>en. the (er_contexts ?r1 (entry_object en))) es =
      map (\<lambda>en. the (er_contexts r (entry_object en))) es"
    using other by (intro map_cong) simp_all
  moreover have dist: "distinct (map snd es)" using Cons.prems(1) by simp
  note hyp = Cons.IH [OF dist live]
  have run: "destroy_encode_entries es ?r1 (destroy_encode_context_parts x e) = (r', e')"
    using Cons.prems(3) by (simp add: en step)
  moreover note hyp [OF run]
  ultimately show ?case
    by (simp only: list.map fold_simps en x snd_conv option.sel) simp
qed (simp add: restrict_map_def)

lemma restrict_dom_complement: "dom m \<subseteq> S \<Longrightarrow> m |` (- S) = Map.empty"
  by (auto simp: restrict_map_def fun_eq_iff)

text \<open>Both registries at rest: what unloading leaves of them, and what it gives back.\<close>

lemma destroy_all_decode_sessions_drops:
  assumes "reg_reachable decode_registry_ops s" "\<forall>t. rs_acts s t = Idle"
    "destroy_all_decode_sessions A (rs_reg s) e = (r', e')"
  shows "dr_sessions r' = Map.empty \<and> dr_entries r' = [] \<and> \<not> dr_fault r'"
    "drops (\<Sum>x\<leftarrow>registered_sessions (rs_reg s). if ds_decoder x = None then 0 else 1) 0 {#}
       (\<Sum>x\<leftarrow>registered_sessions (rs_reg s). mset (session_refs x)) e e'"
proof -
  show "dr_sessions r' = Map.empty \<and> dr_entries r' = [] \<and> \<not> dr_fault r'"
    using destroy_all_decode_sessions_complete [OF assms] by blast
  let ?r = "rs_reg s"
  have mem: "a \<in> snd ` set (dr_entries ?r) \<longleftrightarrow> dr_sessions ?r a \<noteq> None" for a
    using dreg.no_leak [OF assms(1,2), of a] by simp
  have dist: "distinct (map snd (dr_entries ?r))"
    using sys_invD(2) [OF dreg.reachable_inv [OF assms(1)]] by (simp add: table_inv_def)
  have "snd (destroy_decode_entries A (dr_entries ?r) (?r\<lparr>dr_entries := []\<rparr>) e) =
      fold (destroy_decode_session_parts A) (registered_sessions ?r) e"
    using mem destroy_decode_entries_fold [OF dist, of "?r\<lparr>dr_entries := []\<rparr>" A e]
    by (simp add: registered_sessions_def)
  then have e': "e' = fold (destroy_decode_session_parts A) (registered_sessions ?r) e"
    using assms(3) by (simp add: destroy_all_decode_sessions_def)
  have zero: "(\<Sum>x\<leftarrow>xs. (0::int)) = 0" "(\<Sum>x\<leftarrow>xs. ({#} :: nat multiset)) = {#}"
    for xs :: "'a decode_session list"
    by (induction xs) simp_all
  show "drops (\<Sum>x\<leftarrow>registered_sessions ?r. if ds_decoder x = None then 0 else 1) 0 {#}
       (\<Sum>x\<leftarrow>registered_sessions ?r. mset (session_refs x)) e e'"
    using drops_fold [of "registered_sessions ?r" _ "\<lambda>x. 0" "\<lambda>x. {#}" _
        "destroy_decode_session_parts A", OF destroy_decode_session_parts_drops]
    unfolding e' zero .
qed

lemma destroy_all_encode_contexts_drops:
  assumes "reg_reachable encode_registry_ops s" "\<forall>t. rs_acts s t = Idle"
    "\<And>x. x \<in> ran (er_contexts (rs_reg s)) \<Longrightarrow> wf_table x"
    "destroy_all_encode_contexts (rs_reg s) e = (r', e')"
  shows "er_contexts r' = Map.empty \<and> er_entries r' = [] \<and> \<not> er_fault r'"
    "drops 0 (\<Sum>x\<leftarrow>registered_encoders (rs_reg s). if ec_encoder x = None then 0 else 1)
       (\<Sum>x\<leftarrow>registered_encoders (rs_reg s). mset (owned_blocks x))
       (\<Sum>x\<leftarrow>registered_encoders (rs_reg s). mset (owned_refs x)) e e'"
proof -
  let ?r = "rs_reg s"
  have mem: "a \<in> snd ` set (er_entries ?r) \<longleftrightarrow> er_contexts ?r a \<noteq> None" for a
    using ereg.no_leak [OF assms(1,2), of a] by simp
  have dist: "distinct (map snd (er_entries ?r))"
    using sys_invD(2) [OF ereg.reachable_inv [OF assms(1)]] by (simp add: table_inv_def)
  have nf: "\<not> er_fault ?r" using ereg.no_fault [OF assms(1)] by simp
  have wf: "wf_table x" if "x \<in> set (registered_encoders ?r)" for x
  proof -
    from that obtain en where en: "en \<in> set (er_entries ?r)" "x = the (er_contexts ?r (snd en))"
      by (auto simp: registered_encoders_def)
    then have "er_contexts ?r (snd en) = Some x" using mem [of "snd en"] by force
    then show ?thesis by (intro assms(3) ranI)
  qed
  have "e' = fold destroy_encode_context_parts (registered_encoders ?r) e \<and>
    er_contexts r' = er_contexts ?r |` (- snd ` set (er_entries ?r)) \<and> er_fault r' = er_fault ?r \<and>
    er_entries r' = []"
    using assms(4) mem destroy_encode_entries_fold [OF dist, of "?r\<lparr>er_entries := []\<rparr>" e r' e']
    by (simp add: destroy_all_encode_contexts_def registered_encoders_def)
  moreover have "er_contexts ?r |` (- snd ` set (er_entries ?r)) = Map.empty"
    using mem by (intro restrict_dom_complement) blast
  ultimately show "er_contexts r' = Map.empty \<and> er_entries r' = [] \<and> \<not> er_fault r'"
    and e': "drops 0 (\<Sum>x\<leftarrow>registered_encoders (rs_reg s). if ec_encoder x = None then 0 else 1)
       (\<Sum>x\<leftarrow>registered_encoders (rs_reg s). mset (owned_blocks x))
       (\<Sum>x\<leftarrow>registered_encoders (rs_reg s). mset (owned_refs x)) e e'"
    using nf drops_fold [of "registered_encoders ?r" "\<lambda>x. 0" _ _ _ destroy_encode_context_parts,
        OF destroy_encode_context_parts_drops, OF wf] by simp_all
qed

lemma with_env_fst:
  assumes "with_env has_env f e = (r, e')"
  obtains e1 where "f e = (r, e1)"
  using assms by (cases "f e") (auto simp: with_env_def)

lemma with_env_drops:
  assumes "\<And>r e1. f e = (r, e1) \<Longrightarrow> drops d n B R e e1" "with_env has_env f e = (r, e')"
  shows "drops d n B (if has_env then R else {#}) e e'"
  using assms by (cases "f e") (auto simp: with_env_def drops_def split: if_splits)

lemma unload_close:
  fixes n :: native_state
  assumes "api_inv n" "jflac_close_library L (Some (api_module (n\<lparr>api_initialized := False, api_table := []\<rparr>)))
      (loader_refs (n\<lparr>api_initialized := False, api_table := []\<rparr>)) = (ok, m, refs)"
  shows "api_inv (n\<lparr>api_initialized := False, api_table := [], api_module := the m, loader_refs := refs\<rparr>) \<and>
    (the m = empty_module \<or> the m = api_module n)"
  using assms
  by (cases "api_module n")
    (auto simp: api_inv_def jflac_close_library_def empty_module_def split: option.splits if_splits)

section \<open>Properties\<close>

text \<open>
  C18: unloading gives everything back. With no native call running, the tables and the memory of
  both registries are empty afterwards and no freed object was touched; the decoders, encoders and
  metadata objects of the abandoned sessions are deleted, each once; so are their global references if
  the thread is or can be attached, and otherwise they stay. The thread ends attached or not as it
  began, the locks are destroyed, no symbol of libFLAC remains resolved, and the library is closed
  unless the loader refuses, in which case its reference is kept.
\<close>

theorem JNI_OnUnload_releases:
  assumes "reg_reachable decode_registry_ops sd" "\<forall>t. rs_acts sd t = Idle"
    "reg_reachable encode_registry_ops se" "\<forall>t. rs_acts se t = Idle"
    "\<And>x. x \<in> ran (er_contexts (rs_reg se)) \<Longrightarrow> wf_table x"
    "lib_decoders lib = rs_reg sd" "lib_encoders lib = rs_reg se" "api_inv (native e)"
    "\<And>a. GetEnv vm a = JNI_EDETACHED \<longleftrightarrow> \<not> a"
    "JNI_OnUnload A J vm lib e = (lib', e')"
  shows "dr_sessions (lib_decoders lib') = Map.empty \<and> dr_entries (lib_decoders lib') = [] \<and>
    \<not> dr_fault (lib_decoders lib') \<and> er_contexts (lib_encoders lib') = Map.empty \<and>
    er_entries (lib_encoders lib') = [] \<and> \<not> er_fault (lib_encoders lib') \<and>
    live_decoders e' = live_decoders e -
      (\<Sum>x\<leftarrow>registered_sessions (rs_reg sd). if ds_decoder x = None then 0 else 1) \<and>
    live_encoders e' = live_encoders e -
      (\<Sum>x\<leftarrow>registered_encoders (rs_reg se). if ec_encoder x = None then 0 else 1) \<and>
    mset (live_blocks e') = mset (live_blocks e) -
      (\<Sum>x\<leftarrow>registered_encoders (rs_reg se). mset (owned_blocks x)) \<and>
    mset (global_refs e') = mset (global_refs e) -
      (if fst (unload_env vm (thread_attached lib))
       then (\<Sum>x\<leftarrow>registered_sessions (rs_reg sd). mset (session_refs x)) +
            (\<Sum>x\<leftarrow>registered_encoders (rs_reg se). mset (owned_refs x)) else {#}) \<and>
    thread_attached lib' = thread_attached lib \<and>
    decode_session_registry_lock lib' = Destroyed \<and> encode_context_registry_lock lib' = Destroyed \<and>
    flac_init_once_mutex lib' = Destroyed \<and>
    api_inv (native e') \<and> \<not> api_initialized (native e') \<and>
    (api_module (native e') = empty_module \<or> api_module (native e') = api_module (native e))"
proof -
  obtain has_env attached_here where u: "unload_env vm (thread_attached lib) = (has_env, attached_here)"
    by force
  obtain rd e1 where d: "with_env has_env (destroy_all_decode_sessions A (rs_reg sd)) e = (rd, e1)"
    by force
  obtain re e2 where c: "with_env has_env (destroy_all_encode_contexts (rs_reg se)) e1 = (re, e2)"
    by force
  let ?n1 = "(native e2)\<lparr>api_initialized := False, api_table := []\<rparr>"
  obtain ok m refs where close: "jflac_close_library (jv_loader J) (Some (api_module ?n1)) (loader_refs ?n1) =
      (ok, m, refs)" by (metis prod_cases3)
  have run: "lib' = (let l = (destroy_registry_locks (lib\<lparr>lib_decoders := rd, lib_encoders := re\<rparr>)) in
      l\<lparr>thread_attached := (if attached_here then False else thread_attached lib)\<rparr>)"
    "e' = e2\<lparr>native := ?n1\<lparr>api_module := the m, loader_refs := refs\<rparr>\<rparr>"
    using assms(10) u d c close
    by (auto simp: JNI_OnUnload_def assms(6,7) Let_def destroy_registry_locks_def split: if_splits)
  obtain e1' e2' where f: "destroy_all_decode_sessions A (rs_reg sd) e = (rd, e1')"
    "destroy_all_encode_contexts (rs_reg se) e1 = (re, e2')"
    using with_env_fst [OF d] with_env_fst [OF c] by metis
  have dd: "drops (\<Sum>x\<leftarrow>registered_sessions (rs_reg sd). if ds_decoder x = None then 0 else 1) 0 {#}
      (if has_env then \<Sum>x\<leftarrow>registered_sessions (rs_reg sd). mset (session_refs x) else {#}) e e1"
    "dr_sessions rd = Map.empty \<and> dr_entries rd = [] \<and> \<not> dr_fault rd"
    by (rule with_env_drops [OF _ d], erule destroy_all_decode_sessions_drops(2) [OF assms(1,2)])
      (rule destroy_all_decode_sessions_drops(1) [OF assms(1,2) f(1)])
  have ce: "drops 0 (\<Sum>x\<leftarrow>registered_encoders (rs_reg se). if ec_encoder x = None then 0 else 1)
      (\<Sum>x\<leftarrow>registered_encoders (rs_reg se). mset (owned_blocks x))
      (if has_env then \<Sum>x\<leftarrow>registered_encoders (rs_reg se). mset (owned_refs x) else {#}) e1 e2"
    "er_contexts re = Map.empty \<and> er_entries re = [] \<and> \<not> er_fault re"
    by (rule with_env_drops [OF _ c], rule destroy_all_encode_contexts_drops(2), rule assms(3),
        rule assms(4), erule assms(5), assumption)
      (rule destroy_all_encode_contexts_drops(1) [OF assms(3,4,5) f(2)])
  note both = drops_trans [OF dd(1) ce(1)]
  have att: "attached_here \<longrightarrow> \<not> thread_attached lib"
    using u assms(9) by (auto simp: unload_env_def Let_def split: if_splits)
  have n: "native e2 = native e" using both by (simp add: drops_def)
  have "api_inv (?n1\<lparr>api_module := the m, loader_refs := refs\<rparr>) \<and>
      (the m = empty_module \<or> the m = api_module (native e))"
    using unload_close [OF assms(8) close [unfolded n]] by (simp add: n)
  then show ?thesis
    using dd(2) ce(2) both att u unfolding run Let_def
    by (auto simp: destroy_registry_locks_def jflac_mutex_destroy_def drops_def)
qed

text \<open>Two open decoders and one encoder, on a thread that has to be attached.\<close>

definition sample_vm :: java_vm where
  "sample_vm = \<lparr>GetEnv = (\<lambda>attached. if attached then JNI_OK else JNI_EDETACHED),
     AttachCurrentThread = JNI_OK\<rparr>"

definition sample_library :: "(nat, nat) library_state" where
  "sample_library = \<lparr>lib_decoders = sample_two_sessions, lib_encoders = sample_encode_registry,
     decode_session_registry_lock = Unlocked, encode_context_registry_lock = Unlocked,
     flac_init_once_mutex = Unlocked, thread_attached = False\<rparr>"

lemma JNI_OnUnload_releases_witness:
  "\<forall>A. \<exists>lib' e'. JNI_OnUnload A sample_jvm sample_vm sample_library (initial_env\<lparr>live_decoders := 2,
      live_encoders := 1, live_blocks := [70, 71], global_refs := [8, 9]\<rparr>) = (lib', e') \<and>
    live_decoders e' = 0 \<and> live_encoders e' = 0 \<and> mset (live_blocks e') = {#71#} \<and>
    mset (global_refs e') = {#9#} \<and> \<not> thread_attached lib' \<and> \<not> api_initialized (native e')"
proof
  fix A :: "nat decoder_api"
  let ?e = "initial_env\<lparr>live_decoders := 2, live_encoders := 1, live_blocks := [70, 71],
      global_refs := [8, 9]\<rparr>"
  obtain lib' e' where r: "JNI_OnUnload A sample_jvm sample_vm sample_library ?e = (lib', e')" by force
  have vm: "\<And>a. GetEnv sample_vm a = JNI_EDETACHED \<longleftrightarrow> \<not> a"
    by (simp add: sample_vm_def JNI_OK_def JNI_EDETACHED_def)
  have wf: "\<And>x. x \<in> ran (er_contexts sample_encode_registry) \<Longrightarrow> wf_table x"
    by (auto simp: sample_encode_registry_def wf_table_def sample_encode_context_def split: if_splits)
  have inv: "api_inv (native ?e)"
    by (simp add: api_inv_def initial_env_def initial_native_def empty_module_def)
  have env: "fst (unload_env sample_vm (thread_attached sample_library))"
    by (simp add: unload_env_def sample_vm_def sample_library_def JNI_OK_def JNI_EDETACHED_def)
  have decoders: "(\<Sum>x\<leftarrow>registered_sessions sample_two_sessions. if ds_decoder x = None then 0 else 1) =
      (2 :: int)" "(\<Sum>x\<leftarrow>registered_sessions sample_two_sessions. mset (session_refs x)) = {#}"
    by (simp_all add: registered_sessions_def sample_two_sessions_def sample_register2
        session_refs_def zero_context_def)
  have encoders: "registered_encoders sample_encode_registry = [sample_encode_context\<lparr>ec_handle := 1\<rparr>]"
    by (simp add: registered_encoders_def sample_encode_registry_def)
  from JNI_OnUnload_releases [OF sample_reachable_idle _ sample_encode_reachable _ _ _ _ inv vm r]
  show "\<exists>lib' e'. JNI_OnUnload A sample_jvm sample_vm sample_library ?e = (lib', e') \<and>
      live_decoders e' = 0 \<and> live_encoders e' = 0 \<and> mset (live_blocks e') = {#71#} \<and>
      mset (global_refs e') = {#9#} \<and> \<not> thread_attached lib' \<and> \<not> api_initialized (native e')"
    using r wf env decoders encoders
    by (simp add: sample_library_def sample_encode_context_def owned_blocks_def owned_refs_def)
qed

end
