(* ===== verification/Spec2Isabelle.thy ===== *)
theory Spec2Isabelle
  imports Pull_Delivery Edit_Guarantees Encode_Guarantees Format_Queries Platform_Contract Unload
begin

text \<open>
  A model of the native half of JFLAC: the C shim between the JVM and libFLAC in
  \<open>src/native/src/jflac_jni.c\<close> and its platform layer. The shim resolves libFLAC from a sibling
  library once per process, decodes files, streams and channels (in one call, through a reusable
  session, or by pulling PCM), encodes through a handle, and turns Java metadata objects into
  libFLAC's. It owns C allocations, JNI global references and libFLAC objects, and it reports every
  failure as a Java exception.

  \<^bold>\<open>What stands outside and how it appears.\<close> libFLAC and the JVM are parameters. A \<open>jvm\<close> record
  answers every call into Java from the history of the calls made so far: which exception it throws,
  which number, object or bytes it returns, whether an allocation succeeds. The environment \<open>jenv\<close>
  holds the pending exception, the call history, the global references, the live libFLAC objects and
  the resolver's state; every operation takes it and returns it. libFLAC's decoder and encoder are
  records of functions over an abstract state (\<open>decoder_api\<close>, \<open>encoder_api\<close>, \<open>metadata_api\<close>); a call
  that comes back into the shim is an interaction tree (\<open>decoder_run\<close>, \<open>encoder_run\<close>) interpreted
  with the shim's callbacks. What a property needs of them is a hypothesis of its statement, and its
  witness instantiates it with a concrete JVM and libFLAC.

  \<^bold>\<open>Integers.\<close> \<open>jint\<close>, \<open>jlong\<close>, \<open>uint32_t\<close>, \<open>uint64_t\<close> and \<open>size_t\<close> are words; the casts of the source are
  \<open>scast\<close>, \<open>ucast\<close> and \<open>of_nat\<close>, and the bound checks compare \<open>sint\<close> or \<open>uint\<close> as the source does.

  \<^bold>\<open>The theories, in the order of the code.\<close>
  \<^item> Prelude, Flac_Types, Jvm: the machine integers, libFLAC's data, the Java side and the \<open>throw_*\<close>
    helpers.
  \<^item> Platform_Posix, Flac_Api: \<open>jflac_platform_posix.c\<close>, \<open>init_flac_api\<close>, \<open>flac_api_ready\<close> and
    \<open>jstring_to_utf8\<close>. Resolution is complete or leaves nothing; it runs once.
  \<^item> Platform_Once: the mutex and \<open>jflac_call_once\<close> statement by statement, under any interleaving of
    threads; every caller returns and sees the atomic guard the other theories use.
  \<^item> Platform_Windows, Platform_Contract: \<open>jflac_platform_windows.c\<close>, and the contract both platforms
    keep (locale \<open>library_platform\<close>): no sequence of opens and closes loses a library reference.
    The loop over path buffers is a partial function; it is shown to return.
  \<^item> Unload: \<open>JNI_OnUnload\<close>, over both registries and the resolver.
  \<^item> Decode_Context, Decode_Callbacks, Decode_Write: \<open>DecodeContext\<close>, the checks on a request, and
    the callbacks libFLAC's decoder gets.
  \<^item> Libflac, Decode_Process, Decode_Oneshot: the interaction trees, \<open>process_decode_stream\<close> and
    the one-shot decoders. A loop that only libFLAC's progress can end takes fuel; None is the
    result of a loop that does not return, and \<open>process_decode_stream_returns\<close> shows that fuel
    above libFLAC's progress measure is enough.
  \<^item> Decode_Delivery, Decode_Outcome, Decode_Operations, Decode_Guarantees, Process_Guarantees: what
    reaches the consumer, proved from the callbacks up to the operations: a range delivers exactly
    the requested rows, completion is reported once, errors stop delivery, resources are released.
  \<^item> Handle_Table, Handle_Registry: the linked handle table and the abstract contract of a registry
    of reference-counted objects under any interleaving of calls (locale \<open>session_registry\<close>).
  \<^item> Decode_Registry, Encode_Registry: the two registries of the source, interpreted as instances of
    that contract: no use after free, exclusive use, no leak. Opening, using and releasing are
    separate steps, each under the mutex as in the source.
  \<^item> Decode_Session: the session entry points, with the calls of other threads as a function on the
    registry where the source does not hold the lock.
  \<^item> Pull_Delivery: a pull session as a queue of decoded PCM; however the caller cuts the stream into
    reads, a read takes whole frames off the queue in order.
  \<^item> Flac_Metadata, Metadata_Builders, Metadata_Blocks: the Java model objects, libFLAC's metadata
    objects as cells of the environment, the builders and the metadata table of a context.
  \<^item> Metadata_Contract, Metadata_Ownership, Metadata_Guarantees: each builder gives what it allocated
    to its caller or deletes it (locale \<open>block_builder\<close>, interpreted on the six builders the arrays
    use); building a request neither leaks nor loses an object, and keeps the order of the list.
  \<^item> Encode_Callbacks, Encode_Session: the encoder's callbacks and entry points.
  \<^item> Encode_Ownership, Encode_Guarantees: an open that fails leaves nothing behind, PCM reaches
    libFLAC only with the right length, finishing releases what the context owns.
  \<^item> Metadata_Edit, Edit_Guarantees: \<open>writeMetadata\<close> over libFLAC's metadata chain and iterator; the
    file's metadata becomes the requested list at one write, or the call throws.
  \<^item> Metadata_Reading, Metadata_Read: the Java objects made from libFLAC's blocks, and
    \<open>readMetadata\<close>: a counting walk over the chain, one walk per typed array and one for the order
    table; then \<open>toPublicMetadata\<close> of the Kotlin caller, which rebuilds the list. A walk takes fuel;
    the number of blocks is enough.
  \<^item> Metadata_Read_Contract, Metadata_Walks, Metadata_Read_Guarantees: each constructor gives the
    value of the block or throws; a walk visits every block once, in order (locale \<open>block_reader\<close>,
    interpreted on the six arrays); reading gives the payload of the file and closes the chain.
  \<^item> Format_Queries: the legality queries; \<open>pictureViolation\<close> deletes its temporary block.

  \<^bold>\<open>Not modelled.\<close> DeleteLocalRef and PopLocalFrame, which cannot fail, and the local references they
  release. The fuzz targets and the JVM half are not part of the shim; of the latter only what turns
  a metadata payload into the public list of blocks is here.
\<close>

end
